(* ===== verification/Prelude.thy ===== *)
theory Prelude
  imports Main
begin

text \<open>
  The Python primitives that \<^verbatim>\<open>src/mt940convert.py\<close> relies on, as total HOL
  functions: exceptions as the left side of a sum (\<open>py_error + 'a\<close>), indexing
  with negative indices, slicing with clamping, \<^verbatim>\<open>str.find\<close>, \<^verbatim>\<open>str.split\<close>,
  \<^verbatim>\<open>str.join\<close>, \<^verbatim>\<open>str.replace\<close> (one character, and \<open>py_replace\<close> for any
  substring), the newline translation of text-mode files, and the exceptions of
  \<^verbatim>\<open>csv.reader\<close>. Each comes with its characterising lemmas, which the
  component theories use through \<open>simp\<close>.
  Strings are lists of characters; a character stands for one code point of
  Python's \<^verbatim>\<open>str\<close> (HOL's characters are the code points up to U+00FF), so
  \<open>length\<close> is Python's \<^verbatim>\<open>len\<close>.
\<close>

section \<open>Exceptions\<close>

text \<open>The three ways \<^verbatim>\<open>csv.reader\<close> raises \<^verbatim>\<open>_csv.Error\<close> for the default dialect.\<close>

datatype csv_error = NewlineInUnquotedField | LineContainsNUL | FieldLargerThanLimit

datatype py_error = IndexError | ValueError | OverflowError | ZeroDivisionError | UnboundLocalError
  | TypeError | FileNotFoundError | CsvError csv_error

type_synonym 'a result = "py_error + 'a"

named_theorems py_simps "evaluation rules of the Python primitives"

section \<open>Characters used by the program\<close>

definition quote_char :: char where
  "quote_char = CHR 0x22"

definition LF :: char where
  "LF = CHR 0x0A"

definition CR :: char where
  "CR = CHR 0x0D"

abbreviation crlf :: string where
  "crlf \<equiv> [CR, LF]"

lemma chars_distinct [simp]:
  "quote_char \<noteq> CHR '',''" "CHR '','' \<noteq> quote_char"
  "LF \<noteq> CR" "CR \<noteq> LF" "quote_char \<noteq> LF" "LF \<noteq> quote_char"
  "CHR '','' \<noteq> LF" "LF \<noteq> CHR '',''" "CHR '','' \<noteq> CR" "CR \<noteq> CHR '',''"
  "quote_char \<noteq> CR" "CR \<noteq> quote_char"
  by (simp_all add: quote_char_def LF_def CR_def)

section \<open>Indexing: \<^verbatim>\<open>xs[i]\<close>\<close>

text \<open>Negative indices count from the end; out of range raises \<^verbatim>\<open>IndexError\<close>.\<close>

definition py_index :: "'a list \<Rightarrow> int \<Rightarrow> 'a result" where
  "py_index xs i =
     (if - int (length xs) \<le> i \<and> i < int (length xs)
      then Inr (xs ! nat (if 0 \<le> i then i else int (length xs) + i))
      else Inl IndexError)"

lemma py_index_nat [simp, py_simps]:
  "py_index xs (int k) = (if k < length xs then Inr (xs ! k) else Inl IndexError)"
  by (simp add: py_index_def)

lemma py_index_from_end [simp, py_simps]:
  "py_index xs (- int k - 1) = (if k < length xs then Inr (rev xs ! k) else Inl IndexError)"
proof -
  have "k < length xs \<Longrightarrow> nat (int (length xs) + (- int k - 1)) = length xs - Suc k"
    by arith
  then show ?thesis by (auto simp add: py_index_def rev_nth)
qed

lemma py_index_nonneg [simp, py_simps]:
  "0 \<le> i \<Longrightarrow> py_index xs i = (if nat i < length xs then Inr (xs ! nat i) else Inl IndexError)"
  by (simp add: py_index_def nat_less_iff)

lemma py_index_neg [simp, py_simps]:
  "i < 0 \<Longrightarrow> py_index xs i =
     (if nat (- i) \<le> length xs then Inr (rev xs ! nat (- i - 1)) else Inl IndexError)"
proof -
  assume "i < 0"
  then have "i = - int (nat (- i - 1)) - 1" and "nat (- i - 1) < length xs \<longleftrightarrow> nat (- i) \<le> length xs"
    by arith+
  then show ?thesis using py_index_from_end [of xs "nat (- i - 1)"] by simp
qed

section \<open>Slicing: \<^verbatim>\<open>xs[i:j]\<close> and \<^verbatim>\<open>xs[i:]\<close>\<close>

text \<open>
  CPython's slice bounds: a negative bound counts from the end and is clamped at 0,
  a bound past the end is clamped at the length; an empty range gives \<open>[]\<close>.
\<close>

definition py_clamp :: "nat \<Rightarrow> int \<Rightarrow> nat" where
  "py_clamp n i = (if i < 0 then nat (max 0 (int n + i)) else min (nat i) n)"

definition py_slice :: "'a list \<Rightarrow> int \<Rightarrow> int \<Rightarrow> 'a list" where
  "py_slice xs i j =
     (let a = py_clamp (length xs) i; b = py_clamp (length xs) j in take (b - a) (drop a xs))"

definition py_slice_from :: "'a list \<Rightarrow> int \<Rightarrow> 'a list" where
  "py_slice_from xs i = py_slice xs i (int (length xs))"

lemma py_slice_from_drop [simp, py_simps]:
  "py_slice_from xs i = drop (py_clamp (length xs) i) xs"
  by (simp add: py_slice_from_def py_slice_def py_clamp_def)

lemma py_clamp_nat [simp]: "py_clamp n (int a) = min a n"
  by (simp add: py_clamp_def)

lemma py_clamp_minus_one [simp]: "py_clamp n (-1) = n - 1"
  by (simp add: py_clamp_def)

lemma py_slice_nat [simp, py_simps]:
  "py_slice xs (int a) (int b) = take (b - a) (drop a xs)"
  by (auto simp add: py_slice_def min_def)

lemma py_slice_to_minus_one [simp, py_simps]:
  "py_slice xs (int a) (-1) = drop a (butlast xs)"
  by (auto simp add: py_slice_def butlast_conv_take drop_take Let_def min_def)

lemma py_clamp_nonneg [simp]: "0 \<le> i \<Longrightarrow> py_clamp n i = min (nat i) n"
  by (simp add: py_clamp_def)

lemma py_slice_nonneg [simp, py_simps]:
  "0 \<le> i \<Longrightarrow> 0 \<le> j \<Longrightarrow> py_slice xs i j = take (nat j - nat i) (drop (nat i) xs)"
  using py_slice_nat [of xs "nat i" "nat j"] by simp

lemma py_slice_nonneg_minus_one [simp, py_simps]:
  "0 \<le> i \<Longrightarrow> py_slice xs i (-1) = drop (nat i) (butlast xs)"
  using py_slice_to_minus_one [of xs "nat i"] by simp

section \<open>Substring search: \<^verbatim>\<open>s.find(sub, start)\<close>\<close>

text \<open>
  \<open>occurs_at sub s i\<close> is the declarative meaning of "\<open>sub\<close> occurs in \<open>s\<close> at
  position \<open>i\<close>"; \<open>find_sub\<close> is the executable scan that returns the first such
  position.
\<close>

definition occurs_at :: "'a list \<Rightarrow> 'a list \<Rightarrow> nat \<Rightarrow> bool" where
  "occurs_at sub s i \<longleftrightarrow> i + length sub \<le> length s \<and> take (length sub) (drop i s) = sub"

fun find_sub :: "'a list \<Rightarrow> 'a list \<Rightarrow> nat option" where
  "find_sub sub [] = (if sub = [] then Some 0 else None)"
| "find_sub sub (c # cs) =
     (if take (length sub) (c # cs) = sub then Some 0 else map_option Suc (find_sub sub cs))"

text \<open>
  CPython's \<^verbatim>\<open>str.find\<close>: the first position at or after \<open>start\<close> where \<open>sub\<close>
  occurs, or \<open>-1\<close>; a start beyond the end finds nothing.
\<close>

definition py_find :: "'a list \<Rightarrow> 'a list \<Rightarrow> nat \<Rightarrow> int" where
  "py_find s sub start =
     (if length s < start then -1
      else case find_sub sub (drop start s) of None \<Rightarrow> -1 | Some i \<Rightarrow> int (start + i))"

section \<open>Splitting and joining: \<^verbatim>\<open>s.split(sep)\<close>, \<^verbatim>\<open>sep.join(xs)\<close>\<close>

lemma all_nat_split: "(\<forall>i. P i) \<longleftrightarrow> P 0 \<and> (\<forall>i. P (Suc i))"
  by (metis not0_implies_Suc)

lemma occurs_at_0: "occurs_at sub s 0 \<longleftrightarrow> take (length sub) s = sub"
  by (auto simp add: occurs_at_def dest: arg_cong[where f = length])

lemma occurs_at_Cons_Suc [simp]: "occurs_at sub (c # cs) (Suc i) = occurs_at sub cs i"
  by (simp add: occurs_at_def)

lemma find_sub_Some:
  "find_sub sub s = Some i \<Longrightarrow> occurs_at sub s i \<and> (\<forall>j<i. \<not> occurs_at sub s j)"
proof (induction sub s arbitrary: i rule: find_sub.induct)
  case (1 sub)
  then show ?case by (auto simp add: occurs_at_def split: if_splits)
next
  case (2 sub c cs)
  show ?case
  proof (cases "take (length sub) (c # cs) = sub")
    case True
    with "2.prems" show ?thesis by (simp add: occurs_at_0)
  next
    case False
    with "2.prems" obtain k where k: "find_sub sub cs = Some k" "i = Suc k" by auto
    with "2.IH" False have "occurs_at sub cs k \<and> (\<forall>j<k. \<not> occurs_at sub cs j)" by simp
    with k False show ?thesis by (auto simp add: occurs_at_0 less_Suc_eq_0_disj)
  qed
qed

lemma find_sub_None: "find_sub sub s = None \<longleftrightarrow> (\<forall>i. \<not> occurs_at sub s i)"
proof (induction sub s rule: find_sub.induct)
  case (1 sub)
  then show ?case by (auto simp add: occurs_at_def)
next
  case (2 sub c cs)
  have "(\<forall>i. \<not> occurs_at sub (c # cs) i) \<longleftrightarrow>
      \<not> occurs_at sub (c # cs) 0 \<and> (\<forall>i. \<not> occurs_at sub cs i)"
    by (subst all_nat_split) simp
  with "2.IH" show ?case by (simp add: occurs_at_0)
qed

lemma find_sub_le: "find_sub sub s = Some i \<Longrightarrow> i + length sub \<le> length s"
  by (drule find_sub_Some) (simp add: occurs_at_def)

lemma find_sub_split:
  "find_sub sub s = Some i \<Longrightarrow> s = take i s @ sub @ drop (i + length sub) s"
proof -
  assume "find_sub sub s = Some i"
  then have "occurs_at sub s i" by (simp add: find_sub_Some)
  then have "take (length sub) (drop i s) = sub" by (simp add: occurs_at_def)
  then have "drop i s = sub @ drop (length sub) (drop i s)"
    by (metis append_take_drop_id)
  then show ?thesis by (metis append_take_drop_id drop_drop add.commute)
qed

lemma find_sub_eq_Some_iff:
  "find_sub sub s = Some i \<longleftrightarrow> occurs_at sub s i \<and> (\<forall>j<i. \<not> occurs_at sub s j)"
proof
  assume "find_sub sub s = Some i"
  then show "occurs_at sub s i \<and> (\<forall>j<i. \<not> occurs_at sub s j)" by (rule find_sub_Some)
next
  assume a: "occurs_at sub s i \<and> (\<forall>j<i. \<not> occurs_at sub s j)"
  show "find_sub sub s = Some i"
  proof (cases "find_sub sub s")
    case None
    with a show ?thesis by (simp add: find_sub_None)
  next
    case (Some k)
    then have "occurs_at sub s k \<and> (\<forall>j<k. \<not> occurs_at sub s j)" by (rule find_sub_Some)
    with a have "k = i" by (meson linorder_neqE_nat)
    with Some show ?thesis by simp
  qed
qed

lemma occurs_at_append_left:
  "j + length sub \<le> length s \<Longrightarrow> occurs_at sub (s @ t) j \<longleftrightarrow> occurs_at sub s j"
  by (simp add: occurs_at_def)

lemma find_sub_append_right:
  assumes "find_sub sub s = Some i"
  shows "find_sub sub (s @ t) = Some i"
proof -
  from assms have occ: "occurs_at sub s i" and first: "\<forall>j<i. \<not> occurs_at sub s j"
    by (simp_all add: find_sub_eq_Some_iff)
  then have len: "i + length sub \<le> length s" by (simp add: occurs_at_def)
  from occ len have "occurs_at sub (s @ t) i" by (simp add: occurs_at_append_left)
  moreover from first len have "\<forall>j<i. \<not> occurs_at sub (s @ t) j"
    by (simp add: occurs_at_append_left)
  ultimately show ?thesis by (simp add: find_sub_eq_Some_iff)
qed

lemma occurs_at_single: "occurs_at [c] s i \<longleftrightarrow> i < length s \<and> s ! i = c"
proof (cases "i < length s")
  case True
  then have "drop i s = s ! i # drop (Suc i) s" by (rule Cons_nth_drop_Suc [symmetric])
  with True show ?thesis by (simp add: occurs_at_def)
next
  case False
  then show ?thesis by (simp add: occurs_at_def)
qed

lemma find_sub_single_None: "find_sub [c] s = None \<longleftrightarrow> c \<notin> set s"
  by (auto simp add: find_sub_None occurs_at_single in_set_conv_nth)

lemma find_sub_single_append:
  "c \<notin> set x \<Longrightarrow> find_sub [c] (x @ c # rest) = Some (length x)"
  by (auto simp add: find_sub_eq_Some_iff occurs_at_single nth_append)

lemma py_find_after': "n = length p \<Longrightarrow>
  py_find (p @ s) sub n = (case find_sub sub s of None \<Rightarrow> -1 | Some i \<Rightarrow> int (n + i))"
  by (simp add: py_find_def split: option.split)

lemma find_sub_drop_shorter:
  "find_sub sep s = Some i \<Longrightarrow> sep \<noteq> [] \<Longrightarrow> length s - (i + length sep) < length s"
  by (drule find_sub_le) (cases sep, auto)

function split_sep :: "'a list \<Rightarrow> 'a list \<Rightarrow> 'a list list" where
  "split_sep sep s =
     (if sep = [] then [s]
      else case find_sub sep s of
        None \<Rightarrow> [s]
      | Some i \<Rightarrow> take i s # split_sep sep (drop (i + length sep) s))"
  by pat_completeness auto
termination
  by (relation "measure (\<lambda>(sep, s). length s)") (auto intro: find_sub_drop_shorter)

declare split_sep.simps [simp del]

text \<open>CPython's \<^verbatim>\<open>str.split(sep)\<close>: an empty separator raises \<^verbatim>\<open>ValueError\<close>.\<close>

definition py_split :: "'a list \<Rightarrow> 'a list \<Rightarrow> 'a list list result" where
  "py_split s sep = (if sep = [] then Inl ValueError else Inr (split_sep sep s))"

fun py_join :: "'a list \<Rightarrow> 'a list list \<Rightarrow> 'a list" where
  "py_join sep [] = []"
| "py_join sep [x] = x"
| "py_join sep (x # y # ys) = x @ sep @ py_join sep (y # ys)"

text \<open>
  CPython's \<^verbatim>\<open>s.replace(old, new)\<close>: every occurrence of \<open>old\<close>, left to right and
  without overlap, becomes \<open>new\<close>, which is \<^verbatim>\<open>new.join(s.split(old))\<close>; an empty
  \<open>old\<close> puts \<open>new\<close> before every character and at the end.
\<close>

definition py_replace :: "'a list \<Rightarrow> 'a list \<Rightarrow> 'a list \<Rightarrow> 'a list" where
  "py_replace s old new =
     (if old = [] then new @ concat (map (\<lambda>c. c # new) s) else py_join new (split_sep old s))"

lemma split_sep_not_Nil [simp]: "split_sep sep s \<noteq> []"
  by (subst split_sep.simps) (auto split: option.split)

lemma py_join_Cons: "xs \<noteq> [] \<Longrightarrow> py_join sep (x # xs) = x @ sep @ py_join sep xs"
  by (cases xs) simp_all

text \<open>
  Joining the parts of str.split with the same non-empty separator gives back
  the string.
\<close>

lemma join_split_sep: "sep \<noteq> [] \<Longrightarrow> py_join sep (split_sep sep s) = s"
proof (induction sep s rule: split_sep.induct)
  case (1 sep s)
  show ?case
  proof (cases "find_sub sep s")
    case None
    with "1.prems" show ?thesis by (simp add: split_sep.simps)
  next
    case (Some i)
    let ?r = "drop (i + length sep) s"
    from "1.IH" [OF "1.prems" Some "1.prems"]
    have IH: "py_join sep (split_sep sep ?r) = ?r" .
    from "1.prems" Some have "split_sep sep s = take i s # split_sep sep ?r"
      by (simp add: split_sep.simps)
    then have "py_join sep (split_sep sep s) = take i s @ sep @ ?r"
      by (simp add: py_join_Cons IH)
    also have "\<dots> = s" using find_sub_split [OF Some] by simp
    finally show ?thesis .
  qed
qed

lemma split_sep_join_single:
  "xs \<noteq> [] \<Longrightarrow> \<forall>x\<in>set xs. c \<notin> set x \<Longrightarrow> split_sep [c] (py_join [c] xs) = xs"
proof (induction xs)
  case Nil
  then show ?case by simp
next
  case (Cons x xs)
  show ?case
  proof (cases xs)
    case Nil
    with Cons.prems have "find_sub [c] x = None" by (simp add: find_sub_single_None)
    with Nil show ?thesis by (simp add: split_sep.simps)
  next
    case (Cons y ys)
    with Cons.prems have IH: "split_sep [c] (py_join [c] xs) = xs" by (intro Cons.IH) auto
    from Cons.prems have "find_sub [c] (x @ c # py_join [c] xs) = Some (length x)"
      by (simp add: find_sub_single_append)
    with Cons IH show ?thesis by (simp add: split_sep.simps)
  qed
qed

section \<open>Running a fallible step over a list\<close>

text \<open>
  A loop whose body may raise: the results of all elements, or the error of the first
  element that fails.
\<close>

fun map_result :: "('a \<Rightarrow> 'b result) \<Rightarrow> 'a list \<Rightarrow> 'b list result" where
  "map_result f [] = Inr []"
| "map_result f (x # xs) =
     (case f x of Inl e \<Rightarrow> Inl e | Inr y \<Rightarrow> (case map_result f xs of Inl e \<Rightarrow> Inl e | Inr ys \<Rightarrow> Inr (y # ys)))"

lemma map_result_all_ok:
  "\<forall>x\<in>set xs. \<exists>y. f x = Inr y \<Longrightarrow> map_result f xs = Inr (map (\<lambda>x. projr (f x)) xs)"
  by (induction xs) auto

lemma map_result_Inr_ok:
  "map_result f xs = Inr ys \<Longrightarrow> \<forall>x\<in>set xs. \<exists>y. f x = Inr y"
  by (induction xs arbitrary: ys) (auto split: sum.splits)

lemma map_result_Inr_iff:
  "map_result f xs = Inr ys \<longleftrightarrow> (\<forall>x\<in>set xs. \<exists>y. f x = Inr y) \<and> ys = map (\<lambda>x. projr (f x)) xs"
  by (metis map_result_all_ok map_result_Inr_ok sum.inject(2))

lemma map_result_ok_set:
  "set xs = set xs' \<Longrightarrow> (\<exists>ys. map_result f xs = Inr ys) \<longleftrightarrow> (\<exists>ys. map_result f xs' = Inr ys)"
  by (simp add: map_result_Inr_iff)

lemma map_result_map_sum:
  "map_result (\<lambda>x. map_sum id g (f x)) xs = map_sum id (map g) (map_result f xs)"
  by (induction xs) (auto split: sum.split)

section \<open>One-character replacement: \<^verbatim>\<open>s.replace(old, new)\<close>\<close>

text \<open>
  The calls of \<^verbatim>\<open>replace\<close> on lines 75, 104 and 121 replace a single character;
  the file names of lines 63 and 87 use the general \<open>py_replace\<close> defined with
  \<open>str.split\<close> and \<open>str.join\<close>.
\<close>

definition replace_char :: "char \<Rightarrow> string \<Rightarrow> string \<Rightarrow> string" where
  "replace_char old new s = concat (map (\<lambda>c. if c = old then new else [c]) s)"

lemma replace_char_simps [simp, py_simps]:
  "replace_char old new [] = []"
  "replace_char old new (c # cs) = (if c = old then new else [c]) @ replace_char old new cs"
  "replace_char old new (xs @ ys) = replace_char old new xs @ replace_char old new ys"
  by (simp_all add: replace_char_def)

lemma replace_char_absent [simp]: "old \<notin> set s \<Longrightarrow> replace_char old new s = s"
  by (induction s) auto

section \<open>Text-mode newline translation\<close>

text \<open>
  Writing with \<^verbatim>\<open>newline='\r\n'\<close> turns every \<^verbatim>\<open>\n\<close> into \<^verbatim>\<open>\r\n\<close>; reading with
  the default \<^verbatim>\<open>newline=None\<close> (universal newlines) turns \<^verbatim>\<open>\r\n\<close> and a lone
  \<^verbatim>\<open>\r\<close> into \<^verbatim>\<open>\n\<close>.
\<close>

definition newline_encode :: "string \<Rightarrow> string" where
  "newline_encode s = replace_char LF crlf s"

fun universal_newlines :: "string \<Rightarrow> string" where
  "universal_newlines [] = []"
| "universal_newlines [c] = (if c = CR then [LF] else [c])"
| "universal_newlines (c # d # cs) =
     (if c = CR then (if d = LF then LF # universal_newlines cs else LF # universal_newlines (d # cs))
      else c # universal_newlines (d # cs))"

text \<open>
  \<^verbatim>\<open>f.readlines()\<close> on a decoded text: the lines, each keeping its \<^verbatim>\<open>\n\<close>; the
  last one has none when the text does not end in a newline.
\<close>

function py_readlines :: "string \<Rightarrow> string list" where
  "py_readlines s =
     (if s = [] then []
      else case find_sub [LF] s of
        None \<Rightarrow> [s]
      | Some i \<Rightarrow> take (Suc i) s # py_readlines (drop (Suc i) s))"
  by pat_completeness auto
termination
  by (relation "measure length") (auto dest: find_sub_le)

declare py_readlines.simps [simp del]

section \<open>Specification of \<^verbatim>\<open>find\<close>, newlines and lines\<close>

lemma occurs_at_drop:
  "k \<le> length s \<Longrightarrow> occurs_at sub (drop k s) j \<longleftrightarrow> occurs_at sub s (k + j)"
  by (auto simp add: occurs_at_def add.commute add.left_commute)

text \<open>
  str.find returns the least position at or after start where the substring
  occurs, and -1 when there is none.
\<close>

theorem py_find_spec:
  "py_find s sub start =
     (if \<exists>i. start \<le> i \<and> occurs_at sub s i
      then int (LEAST i. start \<le> i \<and> occurs_at sub s i) else -1)"
proof (cases "start \<le> length s")
  case False
  then have "\<not> (\<exists>i. start \<le> i \<and> occurs_at sub s i)" by (auto simp add: occurs_at_def)
  with False show ?thesis by (simp add: py_find_def)
next
  case True
  show ?thesis
  proof (cases "find_sub sub (drop start s)")
    case None
    with True have "\<not> (\<exists>i. start \<le> i \<and> occurs_at sub s i)"
      by (auto simp add: find_sub_None occurs_at_drop dest: le_Suc_ex)
    with None True show ?thesis by (simp add: py_find_def)
  next
    case (Some j)
    with True have occ: "occurs_at sub s (start + j)"
      and first: "\<forall>i. start \<le> i \<and> i < start + j \<longrightarrow> \<not> occurs_at sub s i"
      by (auto simp add: find_sub_eq_Some_iff occurs_at_drop dest!: le_Suc_ex)
    then have "(LEAST i. start \<le> i \<and> occurs_at sub s i) = start + j"
      by (intro Least_equality) (auto simp add: not_less [symmetric])
    moreover from occ have "\<exists>i. start \<le> i \<and> occurs_at sub s i" by (intro exI [of _ "start + j"]) simp
    ultimately show ?thesis using Some True by (simp add: py_find_def)
  qed
qed

lemma newline_encode_simps [simp]:
  "newline_encode [] = []"
  "newline_encode (c # cs) = (if c = LF then [CR, LF] else [c]) @ newline_encode cs"
  by (simp_all add: newline_encode_def)

lemma universal_newlines_Cons: "c \<noteq> CR \<Longrightarrow> universal_newlines (c # cs) = c # universal_newlines cs"
  by (cases cs) simp_all

lemma newline_roundtrip: "CR \<notin> set s \<Longrightarrow> universal_newlines (newline_encode s) = s"
  by (induction s) (auto simp add: universal_newlines_Cons)

lemma CR_not_in_universal_newlines: "CR \<notin> set (universal_newlines s)"
  by (induction s rule: universal_newlines.induct) auto

text \<open>
  The lines of readlines, each with its newline, concatenate to the text.
\<close>

theorem readlines_concat: "concat (py_readlines s) = s"
proof (induction s rule: py_readlines.induct)
  case (1 s)
  show ?case
  proof (cases "s = []")
    case True
    then show ?thesis by (simp add: py_readlines.simps)
  next
    case False
    show ?thesis
    proof (cases "find_sub [LF] s")
      case None
      with False show ?thesis by (simp add: py_readlines.simps)
    next
      case (Some i)
      with False "1.IH" show ?thesis by (simp add: py_readlines.simps [of s])
    qed
  qed
qed

lemma set_py_join: "set (py_join sep xs) \<subseteq> set sep \<union> \<Union> (set ` set xs)"
  by (induction sep xs rule: py_join.induct) auto

lemma set_readlines: "l \<in> set (py_readlines s) \<Longrightarrow> set l \<subseteq> set s"
proof (induction s rule: py_readlines.induct)
  case (1 s)
  show ?case
  proof (cases "s = []")
    case True
    with "1.prems" show ?thesis by (simp add: py_readlines.simps)
  next
    case False
    show ?thesis
    proof (cases "find_sub [LF] s")
      case None
      with False "1.prems" show ?thesis by (simp add: py_readlines.simps [of s])
    next
      case (Some i)
      with False "1.prems" have "l = take (Suc i) s \<or> l \<in> set (py_readlines (drop (Suc i) s))"
        by (simp add: py_readlines.simps [of s])
      with False Some "1.IH" show ?thesis by (auto dest: in_set_takeD in_set_dropD)
    qed
  qed
qed

lemma readlines_line: "LF \<notin> set l \<Longrightarrow> py_readlines (l @ LF # rest) = (l @ [LF]) # py_readlines rest"
  by (simp add: py_readlines.simps [of "l @ LF # rest"] find_sub_single_append)

lemma LF_readlines: "l \<in> set (py_readlines s) \<Longrightarrow> LF \<notin> set (butlast l)"
proof (induction s rule: py_readlines.induct)
  case (1 s)
  show ?case
  proof (cases "s = []")
    case True
    with "1.prems" show ?thesis by (simp add: py_readlines.simps)
  next
    case False
    show ?thesis
    proof (cases "find_sub [LF] s")
      case None
      with False "1.prems" have "l = s" by (simp add: py_readlines.simps [of s])
      with None show ?thesis by (auto simp add: find_sub_single_None dest: in_set_butlastD)
    next
      case (Some i)
      with False "1.prems" have "l = take (Suc i) s \<or> l \<in> set (py_readlines (drop (Suc i) s))"
        by (simp add: py_readlines.simps [of s])
      then show ?thesis
      proof
        assume l: "l = take (Suc i) s"
        from Some have "i < length s" by (auto dest: find_sub_le)
        then have "butlast l = take i s" using l by (simp add: butlast_take)
        moreover from Some have "LF \<notin> set (take i s)"
          by (auto simp add: find_sub_eq_Some_iff occurs_at_single in_set_conv_nth)
        ultimately show ?thesis by simp
      next
        assume "l \<in> set (py_readlines (drop (Suc i) s))"
        with False Some show ?thesis by (rule "1.IH")
      qed
    qed
  qed
qed

end
