(* ===== verification/QuoteRepair.thy ===== *)
theory QuoteRepair
  imports Prelude "HOL-Library.While_Combinator"
begin

text \<open>
  The quote repairer of \<^verbatim>\<open>src/mt940convert.py\<close>: \<^verbatim>\<open>count_quotes\<close> (lines 34--44)
  computes, for each comma-separated chunk of the header, the number of quote
  characters at its left and right edge; \<^verbatim>\<open>fix_quotes\<close> (lines 47--59) re-cuts a
  line with that profile and wraps every field in exactly one quote; the repair
  stage of \<^verbatim>\<open>run_conversion\<close> (lines 82--93) reads the header, decides whether the
  table needs repair and, if so, writes the repaired table.
  The lemmas relate the two \<^verbatim>\<open>while\<close> loops to the run lengths they compute, state
  when the loops raise \<^verbatim>\<open>IndexError\<close>, prove that \<^verbatim>\<open>fix_quotes\<close> recovers the fields
  of every line that follows the header's quote profile, and that a repaired
  header does not trigger a second repair.
\<close>

section \<open>\<^verbatim>\<open>count_quotes\<close>\<close>

text \<open>
  The two loops of lines 40--43. \<^verbatim>\<open>col[count_left[i]]\<close> and
  \<^verbatim>\<open>col[-count_right[i]-1]\<close> raise \<^verbatim>\<open>IndexError\<close> when the chunk is used up.
\<close>

function left_quote_loop :: "string \<Rightarrow> nat \<Rightarrow> nat result" where
  "left_quote_loop col k =
     (case py_index col (int k) of
        Inl e \<Rightarrow> Inl e
      | Inr c \<Rightarrow> if c = quote_char then left_quote_loop col (Suc k) else Inr k)"
  by pat_completeness auto
termination
  by (relation "measure (\<lambda>(col, k). length col - k)") (auto split: if_splits)

function right_quote_loop :: "string \<Rightarrow> nat \<Rightarrow> nat result" where
  "right_quote_loop col k =
     (case py_index col (- int k - 1) of
        Inl e \<Rightarrow> Inl e
      | Inr c \<Rightarrow> if c = quote_char then right_quote_loop col (Suc k) else Inr k)"
  by pat_completeness auto
termination
  by (relation "measure (\<lambda>(col, k). length col - k)") (auto split: if_splits)

declare left_quote_loop.simps [simp del] right_quote_loop.simps [simp del]

text \<open>The loop over the chunks (lines 39--43): the left run, then the right run.\<close>

fun count_cols :: "string list \<Rightarrow> (nat list \<times> nat list) result" where
  "count_cols [] = Inr ([], [])"
| "count_cols (col # cols) =
     (case left_quote_loop col 0 of
        Inl e \<Rightarrow> Inl e
      | Inr l \<Rightarrow>
          (case right_quote_loop col 0 of
             Inl e \<Rightarrow> Inl e
           | Inr r \<Rightarrow>
               (case count_cols cols of
                  Inl e \<Rightarrow> Inl e
                | Inr (ls, rs) \<Rightarrow> Inr (l # ls, r # rs))))"

definition count_quotes :: "string \<Rightarrow> string \<Rightarrow> (nat list \<times> nat list) result" where
  "count_quotes header sep =
     (case py_split header sep of
        Inl e \<Rightarrow> Inl e
      | Inr header_splitted \<Rightarrow> count_cols header_splitted)"

section \<open>What \<^verbatim>\<open>count_quotes\<close> computes\<close>

text \<open>
  The reference meaning of the loops: the length of the run of quotes at the start
  of a chunk, and the case where the chunk has no other character, where the loop
  runs off the end.
\<close>

definition quote_run :: "string \<Rightarrow> nat" where
  "quote_run xs = length (takeWhile (\<lambda>c. c = quote_char) xs)"

definition all_quotes :: "string \<Rightarrow> bool" where
  "all_quotes xs \<longleftrightarrow> (\<forall>c\<in>set xs. c = quote_char)"

lemma quote_run_simps [simp]:
  "quote_run [] = 0"
  "quote_run (c # cs) = (if c = quote_char then Suc (quote_run cs) else 0)"
  by (simp_all add: quote_run_def)

lemma all_quotes_simps [simp]:
  "all_quotes []"
  "all_quotes (c # cs) \<longleftrightarrow> c = quote_char \<and> all_quotes cs"
  "all_quotes (rev cs) \<longleftrightarrow> all_quotes cs"
  by (simp_all add: all_quotes_def)

lemma left_quote_loop_eq:
  "left_quote_loop col k =
     (if all_quotes (drop k col) then Inl IndexError else Inr (k + quote_run (drop k col)))"
proof (induction col k rule: left_quote_loop.induct)
  case (1 col k)
  show ?case
  proof (cases "k < length col")
    case False
    then show ?thesis by (simp add: left_quote_loop.simps)
  next
    case True
    then have drop_k: "drop k col = col ! k # drop (Suc k) col"
      by (rule Cons_nth_drop_Suc [symmetric])
    show ?thesis
    proof (cases "col ! k = quote_char")
      case True
      with \<open>k < length col\<close> "1.IH" [of "col ! k"] show ?thesis
        by (simp add: left_quote_loop.simps [of col k] drop_k)
    next
      case False
      with \<open>k < length col\<close> show ?thesis
        by (simp add: left_quote_loop.simps [of col k] drop_k)
    qed
  qed
qed

text \<open>The right loop is the left loop on the reversed chunk.\<close>

lemma right_quote_loop_rev: "right_quote_loop col k = left_quote_loop (rev col) k"
proof (induction col k rule: right_quote_loop.induct)
  case (1 col k)
  then show ?case
    by (simp add: right_quote_loop.simps [of col k] left_quote_loop.simps [of "rev col" k]
        split: if_splits)
qed

lemma count_cols_eq:
  "count_cols cols =
     (if \<exists>col\<in>set cols. all_quotes col then Inl IndexError
      else Inr (map quote_run cols, map (\<lambda>col. quote_run (rev col)) cols))"
  by (induction cols) (auto simp add: left_quote_loop_eq right_quote_loop_rev)


section \<open>\<^verbatim>\<open>fix_quotes\<close>\<close>

text \<open>
  One iteration of the loop of lines 49--58 per profile entry: the field starts
  \<open>left\<close> characters into the remaining line and ends at the next separator
  (\<open>right = 0\<close>) or the next run of \<open>right\<close> quotes; the remaining line restarts
  past the terminator and the separator. \<^verbatim>\<open>find\<close> returns \<open>-1\<close> when the terminator
  is missing, which the slices then read as "up to the last character".
\<close>

fun fix_loop :: "string \<Rightarrow> string \<Rightarrow> (nat \<times> nat) list \<Rightarrow> string list" where
  "fix_loop sep line [] = []"
| "fix_loop sep line ((left, right) # qs) =
     (let start = left;
          stop = (if right = 0 then py_find line sep start
                  else py_find line (replicate right quote_char) start);
          next_start = (if right = 0 then stop + int (length sep)
                        else stop + int right + int (length sep))
      in (quote_char # py_slice line (int start) stop @ [quote_char])
           # fix_loop sep (py_slice_from line next_start) qs)"

definition fix_quotes :: "string \<Rightarrow> nat list \<Rightarrow> nat list \<Rightarrow> string \<Rightarrow> string" where
  "fix_quotes line count_left count_right sep =
     py_join sep (fix_loop sep line (zip count_left count_right))"

section \<open>\<^verbatim>\<open>fix_quotes\<close> recovers the fields of a line that fits the profile\<close>

text \<open>
  A line of a table with quote profile \<open>(l, r)\<close> per column carries each field
  \<open>f\<close> as \<open>l\<close> quotes, \<open>f\<close>, \<open>r\<close> quotes, the fields joined by the separator and
  the line ended by its newline (\<open>encode_line\<close>). Such a field is cut correctly
  exactly when its terminator (the separator for \<open>r = 0\<close>, \<open>r\<close> quotes otherwise)
  first occurs right after it (\<open>field_fits\<close>); a field with \<open>r > 0\<close> may then
  contain the separator. \<open>wrap\<close> is the canonical single quoting.
\<close>

definition wrap :: "string \<Rightarrow> string" where
  "wrap f = quote_char # f @ [quote_char]"

definition enc_field :: "nat \<times> nat \<Rightarrow> string \<Rightarrow> string" where
  "enc_field p f = replicate (fst p) quote_char @ f @ replicate (snd p) quote_char"

definition terminator :: "string \<Rightarrow> nat \<Rightarrow> string" where
  "terminator sep r = (if r = 0 then sep else replicate r quote_char)"

definition field_fits :: "string \<Rightarrow> nat \<times> nat \<Rightarrow> string \<Rightarrow> bool" where
  "field_fits sep p f \<longleftrightarrow> find_sub (terminator sep (snd p)) (f @ terminator sep (snd p)) = Some (length f)"

definition encode_line :: "char \<Rightarrow> (nat \<times> nat) list \<Rightarrow> string list \<Rightarrow> string" where
  "encode_line c ps fs = py_join [c] (map (\<lambda>(p, f). enc_field p f) (zip ps fs)) @ [LF]"

lemma field_fits_sep: "field_fits [c] (l, 0) f \<longleftrightarrow> c \<notin> set f"
  by (auto simp add: field_fits_def terminator_def find_sub_eq_Some_iff occurs_at_single nth_append in_set_conv_nth)

lemma fix_loop_field:
  assumes fits: "field_fits [c] (l, r) f"
  shows "fix_loop [c] (enc_field (l, r) f @ c # more) ((l, r) # qs) = wrap f # fix_loop [c] more qs"
proof (cases "r = 0")
  case True
  from fits True have "find_sub [c] (f @ [c]) = Some (length f)"
    by (simp add: field_fits_def terminator_def)
  then have "find_sub [c] ((f @ [c]) @ more) = Some (length f)" by (rule find_sub_append_right)
  then have "py_find (replicate l quote_char @ f @ c # more) [c] l = int (l + length f)"
    by (simp add: py_find_after')
  with True show ?thesis by (simp add: enc_field_def wrap_def nat_add_distrib)
next
  case False
  from fits False have "find_sub (replicate r quote_char) (f @ replicate r quote_char) = Some (length f)"
    by (simp add: field_fits_def terminator_def)
  then have "find_sub (replicate r quote_char) ((f @ replicate r quote_char) @ c # more) = Some (length f)"
    by (rule find_sub_append_right)
  then have "py_find (replicate l quote_char @ f @ replicate r quote_char @ c # more) (replicate r quote_char) l
      = int (l + length f)"
    by (simp add: py_find_after')
  with False show ?thesis by (simp add: enc_field_def wrap_def nat_add_distrib)
qed

lemma fix_loop_last_field:
  assumes fits: "field_fits [c] (l, r) f" and "c \<noteq> LF"
  shows "fix_loop [c] (enc_field (l, r) f @ [LF]) [(l, r)] = [wrap f]"
proof (cases "r = 0")
  case True
  with fits have "c \<notin> set f" by (simp add: field_fits_sep)
  with \<open>c \<noteq> LF\<close> have "find_sub [c] (f @ [LF]) = None" by (simp add: find_sub_single_None)
  then have "py_find (replicate l quote_char @ f @ [LF]) [c] l = -1"
    by (simp add: py_find_after')
  with True show ?thesis by (simp add: enc_field_def wrap_def butlast_append)
next
  case False
  from fits False have "find_sub (replicate r quote_char) (f @ replicate r quote_char) = Some (length f)"
    by (simp add: field_fits_def terminator_def)
  then have "find_sub (replicate r quote_char) ((f @ replicate r quote_char) @ [LF]) = Some (length f)"
    by (rule find_sub_append_right)
  then have "py_find (replicate l quote_char @ f @ replicate r quote_char @ [LF]) (replicate r quote_char) l
      = int (l + length f)"
    by (simp add: py_find_after')
  with False show ?thesis by (simp add: enc_field_def wrap_def)
qed

lemma fix_loop_encode_line:
  assumes "length ps = length fs" "fs \<noteq> []" "c \<noteq> LF" "list_all2 (field_fits [c]) ps fs"
  shows "fix_loop [c] (encode_line c ps fs) ps = map wrap fs"
  using assms
proof (induction fs arbitrary: ps)
  case Nil
  then show ?case by simp
next
  case (Cons f fs)
  then obtain p ps' where ps: "ps = p # ps'" and len: "length ps' = length fs"
    by (cases ps) auto
  obtain l r where p: "p = (l, r)" by (cases p)
  from Cons.prems ps p have fits: "field_fits [c] (l, r) f" and rest: "list_all2 (field_fits [c]) ps' fs"
    by simp_all
  show ?case
  proof (cases fs)
    case Nil
    with len have "ps' = []" by simp
    have "fix_loop [c] (enc_field (l, r) f @ [LF]) [(l, r)] = [wrap f]"
      using fits \<open>c \<noteq> LF\<close> by (rule fix_loop_last_field)
    with Nil ps p \<open>ps' = []\<close> show ?thesis by (simp add: encode_line_def)
  next
    case (Cons g gs)
    with len obtain p' ps'' where "ps' = p' # ps''" by (cases ps') auto
    then have "encode_line c ps (f # fs) = enc_field (l, r) f @ c # encode_line c ps' fs"
      using ps p Cons by (simp add: encode_line_def)
    moreover have "fix_loop [c] (encode_line c ps' fs) ps' = map wrap fs"
      using Cons.IH len Cons rest \<open>c \<noteq> LF\<close> by simp
    moreover have "fix_loop [c] (enc_field (l, r) f @ c # encode_line c ps' fs) ((l, r) # ps')
        = wrap f # fix_loop [c] (encode_line c ps' fs) ps'"
      using fits by (rule fix_loop_field)
    ultimately show ?thesis using ps p by simp
  qed
qed

text \<open>
  C6. fix_quotes recovers the fields of a line that fits the profile: a line whose
  fields carry the profile's quotes and are each ended by their terminator is re-cut
  into exactly those fields, each in one quote on each side.
\<close>

theorem fix_quotes_encoded:
  assumes "length count_left = length fs" and "length count_right = length fs"
    and "fs \<noteq> []" and "c \<noteq> LF"
    and "list_all2 (field_fits [c]) (zip count_left count_right) fs"
  shows "fix_quotes (encode_line c (zip count_left count_right) fs) count_left count_right [c]
           = py_join [c] (map wrap fs)"
  using assms by (simp add: fix_quotes_def fix_loop_encode_line)

section \<open>A repaired line has the header's number of fields\<close>

lemma wrap_no_sep: "c \<noteq> quote_char \<Longrightarrow> c \<notin> set f \<Longrightarrow> c \<notin> set (wrap f)"
  by (simp add: wrap_def)

lemma split_sep_join_wrap:
  "fs \<noteq> [] \<Longrightarrow> c \<noteq> quote_char \<Longrightarrow> \<forall>f\<in>set fs. c \<notin> set f
     \<Longrightarrow> split_sep [c] (py_join [c] (map wrap fs)) = map wrap fs"
  by (rule split_sep_join_single) (auto simp add: wrap_no_sep)

section \<open>A canonically quoted header has profile 1 everywhere\<close>

definition plain_field :: "char \<Rightarrow> string \<Rightarrow> bool" where
  "plain_field c f \<longleftrightarrow> f \<noteq> [] \<and> hd f \<noteq> quote_char \<and> last f \<noteq> quote_char \<and> c \<notin> set f"

lemma wrap_profile:
  assumes "f \<noteq> []" and "hd f \<noteq> quote_char" and "last f \<noteq> quote_char"
  shows "\<not> all_quotes (wrap f)" and "quote_run (wrap f) = 1" and "quote_run (rev (wrap f)) = 1"
proof -
  from assms(1) obtain x xs where f: "f = x # xs" by (cases f) auto
  from assms(1) obtain ys y where f': "f = ys @ [y]" by (cases f rule: rev_cases) auto
  from f assms(2) show "\<not> all_quotes (wrap f)" and "quote_run (wrap f) = 1"
    by (simp_all add: wrap_def)
  from f' assms(3) show "quote_run (rev (wrap f)) = 1" by (simp add: wrap_def)
qed

lemma count_quotes_wrapped:
  assumes "fs \<noteq> []" and "c \<noteq> quote_char" and "\<forall>f\<in>set fs. plain_field c f"
  shows "count_quotes (py_join [c] (map wrap fs)) [c]
           = Inr (replicate (length fs) 1, replicate (length fs) 1)"
proof -
  from assms have split: "split_sep [c] (py_join [c] (map wrap fs)) = map wrap fs"
    by (intro split_sep_join_wrap) (auto simp add: plain_field_def)
  from assms(3) have each: "\<forall>f\<in>set fs. \<not> all_quotes (wrap f) \<and> quote_run (wrap f) = 1
      \<and> quote_run (rev (wrap f)) = 1"
    by (simp add: plain_field_def wrap_profile)
  then have "map (\<lambda>f. quote_run (wrap f)) fs = replicate (length fs) 1"
    and "map (\<lambda>f. quote_run (rev (wrap f))) fs = replicate (length fs) 1"
    by (simp_all add: map_replicate_const [symmetric] cong: map_cong)
  with split each show ?thesis
    by (simp add: count_quotes_def py_split_def count_cols_eq comp_def)
qed

section \<open>The repair stage of \<^verbatim>\<open>run_conversion\<close>\<close>

text \<open>The condition of lines 85--86: repair unless every count is exactly 1.\<close>

definition needs_repair :: "nat list \<Rightarrow> nat list \<Rightarrow> bool" where
  "needs_repair quotes_left quotes_right \<longleftrightarrow>
     \<not> (list_all (\<lambda>q. q = 1) quotes_left \<and> list_all (\<lambda>q. q = 1) quotes_right)"

text \<open>
  The input file is read in text mode (universal newlines). The header is the first
  line without its last character (\<^verbatim>\<open>readline()[:-1]\<close>, line 83), the rest are
  the remaining lines with their newlines (\<^verbatim>\<open>readlines()\<close>, line 90).
\<close>

definition table_header :: "string \<Rightarrow> string" where
  "table_header raw =
     py_slice (case py_readlines (universal_newlines raw) of [] \<Rightarrow> [] | l # _ \<Rightarrow> l) 0 (-1)"

definition table_rest :: "string \<Rightarrow> string list" where
  "table_rest raw = drop 1 (py_readlines (universal_newlines raw))"

text \<open>
  The repaired table (lines 89--91): every line re-cut by \<^verbatim>\<open>fix_quotes\<close> and ended
  by \<^verbatim>\<open>\n\<close>, written with \<^verbatim>\<open>newline='\r\n'\<close>.
\<close>

definition repaired_text :: "string \<Rightarrow> nat list \<Rightarrow> nat list \<Rightarrow> string" where
  "repaired_text raw quotes_left quotes_right =
     newline_encode
       (fix_quotes (table_header raw) quotes_left quotes_right '','' @ [LF]
        @ concat (map (\<lambda>line. fix_quotes line quotes_left quotes_right '','' @ [LF]) (table_rest raw)))"

text \<open>
  Lines 82--93: the raw text of the file the transcoder then opens, and the repaired
  table when one was written; \<^verbatim>\<open>count_quotes\<close> may raise.
\<close>

definition repair_table :: "string \<Rightarrow> (string \<times> string option) result" where
  "repair_table raw =
     (case count_quotes (table_header raw) '','' of
        Inl e \<Rightarrow> Inl e
      | Inr (quotes_left, quotes_right) \<Rightarrow>
          (if needs_repair quotes_left quotes_right
           then (let repaired = repaired_text raw quotes_left quotes_right
                 in Inr (repaired, Some repaired))
           else Inr (raw, None)))"

section \<open>Properties of the repair stage\<close>

text \<open>
  C4. count_quotes computes the Field Quote Profile: for each chunk of the naive
  split, the run of quotes at its start and the run at its end; it raises IndexError
  exactly when some chunk consists of quotes only (the empty chunk included), and
  ValueError for an empty separator.
\<close>

theorem count_quotes_profile:
  "count_quotes header sep =
     (if sep = [] then Inl ValueError
      else if list_ex all_quotes (split_sep sep header) then Inl IndexError
      else Inr (map quote_run (split_sep sep header),
                map (\<lambda>col. quote_run (rev col)) (split_sep sep header)))"
  by (simp add: count_quotes_def py_split_def count_cols_eq list_ex_iff)

lemma fix_loop_wrapped: "\<exists>fs. length fs = length ps \<and> fix_loop sep line ps = map wrap fs"
proof (induction ps arbitrary: line)
  case Nil
  then show ?case by simp
next
  case (Cons p ps)
  obtain left right where p: "p = (left, right)" by (cases p)
  then obtain stop next_start where
    eq: "fix_loop sep line (p # ps) = (quote_char # py_slice line (int left) stop @ [quote_char])
           # fix_loop sep (py_slice_from line next_start) ps"
    by (simp add: Let_def)
  from Cons.IH [of "py_slice_from line next_start"] obtain fs
    where "length fs = length ps" and "fix_loop sep (py_slice_from line next_start) ps = map wrap fs"
    by blast
  with eq have "length (py_slice line (int left) stop # fs) = length (p # ps)
      \<and> fix_loop sep line (p # ps) = map wrap (py_slice line (int left) stop # fs)"
    by (simp add: wrap_def)
  then show ?case by blast
qed

text \<open>
  C5. A table whose header already has every field in exactly one quote on each side
  (non-empty fields without quotes at their edges or commas) is not repaired: the
  transcoder reads the file as it is and no repaired table is written.
\<close>

theorem repair_table_canonical_header:
  assumes "table_header raw = py_join '','' (map wrap fs)" and "fs \<noteq> []"
    and "\<forall>f\<in>set fs. plain_field (CHR '','') f"
  shows "repair_table raw = Inr (raw, None)"
proof -
  have "count_quotes (table_header raw) '','' = Inr (replicate (length fs) 1, replicate (length fs) 1)"
    using count_quotes_wrapped [of fs "CHR '',''"] assms by (simp add: quote_char_def)
  then show ?thesis by (simp add: repair_table_def needs_repair_def list_all_iff)
qed

section \<open>The loops of \<^verbatim>\<open>count_quotes\<close> as while loops\<close>

text \<open>
  Lines 40--43 kept as loops: \<open>quote_while idx col\<close> runs
  \<^verbatim>\<open>while col[idx(k)] == '"': k += 1\<close> from \<open>k = 0\<close>, with \<open>idx k = k\<close> for the
  left run (line 40) and \<open>idx k = -k-1\<close> for the right run (line 42). The guard's
  \<^verbatim>\<open>IndexError\<close> stops the loop too; which of the two stopped it is read off the
  final index.
\<close>

definition quote_while :: "(nat \<Rightarrow> int) \<Rightarrow> string \<Rightarrow> nat option" where
  "quote_while idx col = while_option (\<lambda>k. py_index col (idx k) = Inr quote_char) Suc 0"

definition quote_loop_result :: "(nat \<Rightarrow> int) \<Rightarrow> string \<Rightarrow> nat \<Rightarrow> nat result" where
  "quote_loop_result idx col k = (case py_index col (idx k) of Inl e \<Rightarrow> Inl e | Inr _ \<Rightarrow> Inr k)"

lemma left_quote_loop_while_from:
  "while_option (\<lambda>k. py_index col (int k) = Inr quote_char) Suc k = Some j
     \<Longrightarrow> left_quote_loop col k = quote_loop_result int col j"
proof (induction col k rule: left_quote_loop.induct)
  case (1 col k)
  show ?case
  proof (cases "py_index col (int k) = Inr quote_char")
    case True
    with "1.prems" have "while_option (\<lambda>k. py_index col (int k) = Inr quote_char) Suc (Suc k) = Some j"
      by (simp add: while_option_unfold [of _ _ k])
    with "1.IH" [of quote_char] True show ?thesis by (simp add: left_quote_loop.simps [of col k])
  next
    case False
    with "1.prems" have "j = k" by (simp add: while_option_unfold [of _ _ k])
    with False show ?thesis
      by (auto simp add: left_quote_loop.simps [of col k] quote_loop_result_def split: sum.split)
  qed
qed

lemma py_index_rev_guard: "py_index col (- int k - 1) = py_index (rev col) (int k)"
  by simp

lemma quote_while_right: "quote_while (\<lambda>k. - int k - 1) col = quote_while int (rev col)"
  by (simp only: quote_while_def py_index_rev_guard)

lemma quote_loop_result_right:
  "quote_loop_result (\<lambda>k. - int k - 1) col k = quote_loop_result int (rev col) k"
  by (simp only: quote_loop_result_def py_index_rev_guard)

lemma quote_while_some: "\<exists>k \<le> length col. quote_while int col = Some k"
proof -
  have step: "k \<le> length col \<Longrightarrow> py_index col (int k) = Inr quote_char
      \<Longrightarrow> Suc k \<le> length col \<and> length col - Suc k < length col - k" for k
    by (simp split: if_splits)
  obtain k where k: "quote_while int col = Some k"
    using measure_while_option_Some [of "\<lambda>k. k \<le> length col" _ Suc "\<lambda>k. length col - k", OF step]
    unfolding quote_while_def by fastforce
  have "k \<le> length col"
    using while_option_rule [of "\<lambda>k. k \<le> length col" _ Suc, OF _ k [unfolded quote_while_def]] step
    by fastforce
  with k show ?thesis by blast
qed

text \<open>
  C18. The two while loops of count_quotes (lines 40-43) stop on every chunk, within
  its length, and what they return (a count, or the IndexError of the guard) is what
  the recursive model computes.
\<close>

theorem count_quotes_loops_terminate:
  "(\<exists>k \<le> length col. quote_while int col = Some k \<and> left_quote_loop col 0 = quote_loop_result int col k)
   \<and> (\<exists>k \<le> length col. quote_while (\<lambda>k. - int k - 1) col = Some k
        \<and> right_quote_loop col 0 = quote_loop_result (\<lambda>k. - int k - 1) col k)"
proof
  obtain k where "k \<le> length col" and k: "quote_while int col = Some k" using quote_while_some by blast
  moreover have "left_quote_loop col 0 = quote_loop_result int col k"
    using k unfolding quote_while_def by (rule left_quote_loop_while_from)
  ultimately show "\<exists>k \<le> length col. quote_while int col = Some k \<and> left_quote_loop col 0 = quote_loop_result int col k"
    by blast
next
  obtain k where "k \<le> length (rev col)" and k: "quote_while int (rev col) = Some k"
    using quote_while_some by blast
  moreover have "left_quote_loop (rev col) 0 = quote_loop_result int (rev col) k"
    using k unfolding quote_while_def by (rule left_quote_loop_while_from)
  ultimately show "\<exists>k \<le> length col. quote_while (\<lambda>k. - int k - 1) col = Some k
        \<and> right_quote_loop col 0 = quote_loop_result (\<lambda>k. - int k - 1) col k"
    by (auto simp add: quote_while_right quote_loop_result_right right_quote_loop_rev)
qed

lemma quote_run_less: "\<not> all_quotes col \<Longrightarrow> quote_run col < length col"
  by (induction col) auto

text \<open>
  C19. A profile computed by count_quotes is well formed: one left and one right
  count per field of the naive split, each smaller than its field's length.
\<close>

theorem count_quotes_wf:
  assumes "count_quotes header sep = Inr (ql, qr)"
  shows "length ql = length (split_sep sep header) \<and> length qr = length ql
         \<and> (\<forall>i < length ql. ql ! i < length (split_sep sep header ! i)
                           \<and> qr ! i < length (split_sep sep header ! i))"
proof -
  let ?cols = "split_sep sep header"
  from assms have ok: "\<forall>col\<in>set ?cols. \<not> all_quotes col"
    and ql: "ql = map quote_run ?cols" and qr: "qr = map (\<lambda>col. quote_run (rev col)) ?cols"
    by (auto simp add: count_quotes_def py_split_def count_cols_eq split: if_splits)
  have "\<forall>i < length ?cols. quote_run (?cols ! i) < length (?cols ! i)
      \<and> quote_run (rev (?cols ! i)) < length (?cols ! i)"
    using ok quote_run_less by (metis all_quotes_simps(3) length_rev nth_mem)
  with ql qr show ?thesis by simp
qed

end

