(* ===== verification/PyFloat.thy ===== *)
theory PyFloat
  imports Prelude
begin

text \<open>
  The floating-point arithmetic that \<^verbatim>\<open>src/mt940convert.py\<close> uses on amounts:
  \<^verbatim>\<open>float(s)\<close> on the amount string (line 104), \<^verbatim>\<open>* 100\<close> and \<^verbatim>\<open>int(...)\<close> to get
  cents (line 104), and \<^verbatim>\<open>saldo / 100.\<close> formatted by \<^verbatim>\<open>'{0:.2f}'\<close> (line 121).
  A Python float is an IEEE-754 binary64 value: \<open>Fin m e\<close> stands for the number
  \<open>m * 2 ^ e\<close>, and every operation rounds its exact result to the nearest
  representable value, ties to even, with 53 bits of precision, subnormals below
  \<open>2 ^ -1022\<close> and overflow to infinity from \<open>2 ^ 1024\<close> on. All of it is integer
  arithmetic, so every definition evaluates. The sign of a zero is not kept: no
  operation of the program can observe it.
\<close>

named_theorems float_defs "the defining equations that evaluate the float operations"

section \<open>Values\<close>

datatype pyfloat = Fin int int | PosInf | NegInf | NaN

section \<open>Rounding an exact rational to binary64\<close>

text \<open>\<open>round_half_even a b\<close> is \<open>a / b\<close> rounded to the nearest integer, ties to even.\<close>

definition round_half_even :: "nat \<Rightarrow> nat \<Rightarrow> nat" where
  "round_half_even a b =
     (let q = a div b; r = a mod b
      in if b < 2 * r \<or> (2 * r = b \<and> odd q) then q + 1 else q)"

fun nbits :: "nat \<Rightarrow> nat" where
  "nbits n = (if n = 0 then 0 else Suc (nbits (n div 2)))"

declare nbits.simps [simp del]

text \<open>On a numeral, the bit length is the length of its binary digits.\<close>

primrec num_bits :: "num \<Rightarrow> nat" where
  "num_bits num.One = 1"
| "num_bits (num.Bit0 k) = Suc (num_bits k)"
| "num_bits (num.Bit1 k) = Suc (num_bits k)"

lemma nbits_double: "0 < n \<Longrightarrow> nbits (2 * n) = Suc (nbits n)"
  by (subst nbits.simps) simp

lemma nbits_double_plus_one: "nbits (2 * n + 1) = Suc (nbits n)"
  by (subst nbits.simps) simp

lemma nbits_numeral: "nbits (numeral k) = num_bits k"
proof (induction k)
  case One
  then show ?case by (simp add: nbits.simps)
next
  case (Bit0 k)
  have "nbits (numeral (num.Bit0 k)) = nbits (2 * numeral k)" by (rule arg_cong [OF numeral_Bit0_eq_double])
  also have "\<dots> = Suc (nbits (numeral k))" by (rule nbits_double, rule zero_less_numeral)
  also have "\<dots> = num_bits (num.Bit0 k)" by (simp only: Bit0.IH num_bits.simps)
  finally show ?case .
next
  case (Bit1 k)
  have "nbits (numeral (num.Bit1 k)) = nbits (2 * numeral k + 1)" by (rule arg_cong [OF numeral_Bit1_eq_inc_double])
  also have "\<dots> = Suc (nbits (numeral k))" by (rule nbits_double_plus_one)
  also have "\<dots> = num_bits (num.Bit1 k)" by (simp only: Bit1.IH num_bits.simps)
  finally show ?case .
qed

lemma nbits_0: "nbits 0 = 0"
  by (simp add: nbits.simps)

lemma nbits_1: "nbits 1 = 1" and nbits_Suc_0: "nbits (Suc 0) = 1"
  by (simp_all add: nbits.simps)

text \<open>\<open>b * 2 ^ t \<le> a\<close> for an integer exponent \<open>t\<close>, in natural numbers.\<close>

definition pow2_le :: "nat \<Rightarrow> int \<Rightarrow> nat \<Rightarrow> bool" where
  "pow2_le b t a \<longleftrightarrow> (if 0 \<le> t then b * 2 ^ nat t \<le> a else b \<le> a * 2 ^ nat (- t))"

text \<open>\<open>\<lfloor>log2 (a / b)\<rfloor>\<close> for positive \<open>a\<close>, \<open>b\<close>: the bit lengths give it up to one.\<close>

definition flog2 :: "nat \<Rightarrow> nat \<Rightarrow> int" where
  "flog2 a b = (let t = int (nbits a) - int (nbits b) in if pow2_le b t a then t else t - 1)"

text \<open>
  The exponent of the last place of the result: 52 below the leading bit, but never
  below \<open>-1074\<close> (the subnormal range).
\<close>

definition binary_exponent :: "nat \<Rightarrow> nat \<Rightarrow> int" where
  "binary_exponent a b = max (flog2 a b - 52) (-1074)"

definition scaled_mantissa :: "nat \<Rightarrow> nat \<Rightarrow> int \<Rightarrow> nat" where
  "scaled_mantissa a b e =
     (if 0 \<le> e then round_half_even a (b * 2 ^ nat e) else round_half_even (a * 2 ^ nat (- e)) b)"

definition inf_of_sign :: "int \<Rightarrow> pyfloat" where
  "inf_of_sign s = (if 0 < s then PosInf else NegInf)"

text \<open>
  The binary64 value nearest to \<open>num / den\<close> (\<open>den > 0\<close>), in three steps: the
  exponent of the last place, the rounded mantissa, and the overflow check.
\<close>

definition round_with_mantissa :: "int \<Rightarrow> int \<Rightarrow> nat \<Rightarrow> pyfloat" where
  "round_with_mantissa num e m =
     (if 0 \<le> e \<and> 2 ^ 1024 \<le> m * 2 ^ nat e then inf_of_sign num else Fin (sgn num * int m) e)"

definition round_with_exponent :: "int \<Rightarrow> nat \<Rightarrow> int \<Rightarrow> pyfloat" where
  "round_with_exponent num den e = round_with_mantissa num e (scaled_mantissa (nat \<bar>num\<bar>) den e)"

definition round_to_double :: "int \<Rightarrow> nat \<Rightarrow> pyfloat" where
  "round_to_double num den =
     (if num = 0 then Fin 0 0
      else round_with_exponent num den (binary_exponent (nat \<bar>num\<bar>) den))"

text \<open>The binary64 value nearest to \<open>n * 2 ^ e\<close>.\<close>

definition scale_to_double :: "int \<Rightarrow> int \<Rightarrow> pyfloat" where
  "scale_to_double n e =
     (if 0 \<le> e then round_to_double (n * 2 ^ nat e) 1 else round_to_double n (2 ^ nat (- e)))"

section \<open>Arithmetic\<close>

definition fsign :: "pyfloat \<Rightarrow> int" where
  "fsign x = (case x of Fin m e \<Rightarrow> sgn m | PosInf \<Rightarrow> 1 | NegInf \<Rightarrow> -1 | NaN \<Rightarrow> 0)"

text \<open>\<^verbatim>\<open>x * y\<close>: an infinity times zero is NaN, otherwise the signs multiply.\<close>

fun py_mul :: "pyfloat \<Rightarrow> pyfloat \<Rightarrow> pyfloat" where
  "py_mul (Fin m1 e1) (Fin m2 e2) = scale_to_double (m1 * m2) (e1 + e2)"
| "py_mul NaN y = NaN"
| "py_mul x NaN = NaN"
| "py_mul x y = (if fsign x * fsign y = 0 then NaN else inf_of_sign (fsign x * fsign y))"

text \<open>
  \<^verbatim>\<open>x / y\<close>: a zero divisor raises \<^verbatim>\<open>ZeroDivisionError\<close> whatever \<open>x\<close> is; a finite
  quotient is the exact one rounded.
\<close>

definition div_finite :: "int \<Rightarrow> int \<Rightarrow> int \<Rightarrow> int \<Rightarrow> pyfloat" where
  "div_finite m1 e1 m2 e2 =
     round_to_double (sgn m2 * m1 * 2 ^ nat (max (e1 - e2) 0)) (nat \<bar>m2\<bar> * 2 ^ nat (max (e2 - e1) 0))"

fun py_div :: "pyfloat \<Rightarrow> pyfloat \<Rightarrow> pyfloat result" where
  "py_div x (Fin m2 e2) =
     (if m2 = 0 then Inl ZeroDivisionError
      else case x of
        Fin m1 e1 \<Rightarrow> Inr (div_finite m1 e1 m2 e2)
      | NaN \<Rightarrow> Inr NaN
      | _ \<Rightarrow> Inr (inf_of_sign (fsign x * sgn m2)))"
| "py_div x NaN = Inr NaN"
| "py_div (Fin m1 e1) y = Inr (Fin 0 0)"
| "py_div x y = Inr NaN"

text \<open>\<^verbatim>\<open>int(x)\<close>: truncation towards zero; infinities and NaN raise.\<close>

definition py_int :: "pyfloat \<Rightarrow> int result" where
  "py_int x =
     (case x of
        Fin m e \<Rightarrow> Inr (if 0 \<le> e then m * 2 ^ nat e else sgn m * (\<bar>m\<bar> div 2 ^ nat (- e)))
      | NaN \<Rightarrow> Inl ValueError
      | _ \<Rightarrow> Inl OverflowError)"

text \<open>\<^verbatim>\<open>float(n)\<close> for a Python int, as in \<^verbatim>\<open>n / 100.\<close>: too large raises \<^verbatim>\<open>OverflowError\<close>.\<close>

definition py_int_to_float :: "int \<Rightarrow> pyfloat result" where
  "py_int_to_float n =
     (case round_to_double n 1 of Fin m e \<Rightarrow> Inr (Fin m e) | _ \<Rightarrow> Inl OverflowError)"

section \<open>\<^verbatim>\<open>float(s)\<close> on a string\<close>

text \<open>
  CPython's \<^verbatim>\<open>float(str)\<close>: surrounding whitespace is stripped, underscores are
  allowed between two digits and dropped, then the text is an optional sign followed
  by \<^verbatim>\<open>inf\<close>, \<^verbatim>\<open>infinity\<close> or \<^verbatim>\<open>nan\<close> in any case, or by a decimal numeral with an
  optional point and an optional exponent. Anything else raises \<^verbatim>\<open>ValueError\<close>.
  Whitespace is the characters Python's \<^verbatim>\<open>str.isspace\<close> accepts among the first 256
  code points.
\<close>

definition py_isspace :: "char \<Rightarrow> bool" where
  "py_isspace c \<longleftrightarrow>
     (let n = (of_char c :: nat) in (9 \<le> n \<and> n \<le> 13) \<or> (28 \<le> n \<and> n \<le> 32) \<or> n = 133 \<or> n = 160)"

definition py_strip :: "string \<Rightarrow> string" where
  "py_strip s = rev (dropWhile py_isspace (rev (dropWhile py_isspace s)))"

definition is_digit :: "char \<Rightarrow> bool" where
  "is_digit c \<longleftrightarrow> (let n = (of_char c :: nat) in 48 \<le> n \<and> n \<le> 57)"

definition digit_value :: "char \<Rightarrow> nat" where
  "digit_value c = of_char c - 48"

definition digits_value :: "string \<Rightarrow> nat" where
  "digits_value ds = foldl (\<lambda>n d. 10 * n + digit_value d) 0 ds"

definition lower_ascii :: "char \<Rightarrow> char" where
  "lower_ascii c =
     (let n = (of_char c :: nat) in if 65 \<le> n \<and> n \<le> 90 then char_of (n + 32) else c)"

text \<open>Underscores: each must follow a digit and precede a digit.\<close>

fun remove_underscores :: "bool \<Rightarrow> string \<Rightarrow> string option" where
  "remove_underscores prev_digit [] = Some []"
| "remove_underscores prev_digit (c # cs) =
     (if c = CHR ''_'' then
        (if prev_digit \<and> (case cs of d # _ \<Rightarrow> is_digit d | [] \<Rightarrow> False)
         then remove_underscores False cs else None)
      else map_option (Cons c) (remove_underscores (is_digit c) cs))"

text \<open>An exponent part \<^verbatim>\<open>e[+-]digits\<close>, which must end the text.\<close>

definition parse_exponent :: "string \<Rightarrow> int option" where
  "parse_exponent s =
     (case s of
        [] \<Rightarrow> Some 0
      | c # r \<Rightarrow>
          if c = CHR ''e'' \<or> c = CHR ''E'' then
            (let (sg, ds) = (case r of
                               d # r' \<Rightarrow> if d = CHR ''+'' then (1, r')
                                         else if d = CHR ''-'' then (-1, r') else (1, r)
                             | [] \<Rightarrow> (1, r))
             in if ds \<noteq> [] \<and> list_all is_digit ds then Some (sg * int (digits_value ds)) else None)
          else None)"

text \<open>A decimal numeral \<open>d1[.d2][exponent]\<close> with at least one digit: its value is
  \<open>M * 10 ^ k\<close> for the digits \<open>M\<close> of \<open>d1 @ d2\<close> and \<open>k = exponent - length d2\<close>.\<close>

definition parse_decimal :: "string \<Rightarrow> (nat \<times> int) option" where
  "parse_decimal s =
     (let d1 = takeWhile is_digit s; s1 = dropWhile is_digit s;
          (d2, s2) = (case s1 of
                        c # r \<Rightarrow> if c = CHR ''.'' then (takeWhile is_digit r, dropWhile is_digit r)
                                  else ([], s1)
                      | [] \<Rightarrow> ([], []))
      in if d1 @ d2 = [] then None
         else case parse_exponent s2 of
           None \<Rightarrow> None
         | Some x \<Rightarrow> Some (digits_value (d1 @ d2), x - int (length d2)))"

definition decimal_to_double :: "int \<Rightarrow> nat \<Rightarrow> int \<Rightarrow> pyfloat" where
  "decimal_to_double sg mant k =
     (if 0 \<le> k then round_to_double (sg * int mant * 10 ^ nat k) 1
      else round_to_double (sg * int mant) (10 ^ nat (- k)))"

definition parse_float_body :: "string \<Rightarrow> pyfloat option" where
  "parse_float_body s =
     (let (sg, r) = (case s of
                       c # r' \<Rightarrow> if c = CHR ''+'' then (1, r') else if c = CHR ''-'' then (-1, r') else (1, s)
                     | [] \<Rightarrow> (1, s));
          w = map lower_ascii r
      in if w = ''inf'' \<or> w = ''infinity'' then Some (inf_of_sign sg)
         else if w = ''nan'' then Some NaN
         else map_option (\<lambda>(mant, k). decimal_to_double sg mant k) (parse_decimal r))"

definition py_float :: "string \<Rightarrow> pyfloat result" where
  "py_float s =
     (case remove_underscores False (py_strip s) of
        None \<Rightarrow> Inl ValueError
      | Some t \<Rightarrow> (case parse_float_body t of None \<Rightarrow> Inl ValueError | Some x \<Rightarrow> Inr x))"

declare round_half_even_def [float_defs] nbits_numeral [float_defs] nbits_0 [float_defs] nbits_1 [float_defs] nbits_Suc_0 [float_defs]
  num_bits.simps [float_defs] pow2_le_def [float_defs]
  flog2_def [float_defs] binary_exponent_def [float_defs] scaled_mantissa_def [float_defs]
  inf_of_sign_def [float_defs] round_with_mantissa_def [float_defs]
  round_with_exponent_def [float_defs] round_to_double_def [float_defs]
  scale_to_double_def [float_defs] fsign_def [float_defs] div_finite_def [float_defs] py_int_def [float_defs] py_int_to_float_def [float_defs]
  py_isspace_def [float_defs] py_strip_def [float_defs] is_digit_def [float_defs]
  digit_value_def [float_defs] digits_value_def [float_defs] lower_ascii_def [float_defs]
  parse_exponent_def [float_defs] parse_decimal_def [float_defs]
  decimal_to_double_def [float_defs] parse_float_body_def [float_defs] py_float_def [float_defs]

section \<open>\<^verbatim>\<open>'{0:.2f}'.format(x)\<close>\<close>

definition digit_char :: "nat \<Rightarrow> char" where
  "digit_char d =
     (if d = 0 then CHR ''0'' else if d = 1 then CHR ''1'' else if d = 2 then CHR ''2''
      else if d = 3 then CHR ''3'' else if d = 4 then CHR ''4'' else if d = 5 then CHR ''5''
      else if d = 6 then CHR ''6'' else if d = 7 then CHR ''7'' else if d = 8 then CHR ''8''
      else CHR ''9'')"

fun show_nat :: "nat \<Rightarrow> string" where
  "show_nat n = (if n < 10 then [digit_char n] else show_nat (n div 10) @ [digit_char (n mod 10)])"

declare show_nat.simps [simp del]

text \<open>
  Two decimals, correctly rounded from the exact binary value, ties to even; a
  negative value keeps its minus sign even when it rounds to zero.
\<close>

definition format_fixed2 :: "bool \<Rightarrow> nat \<Rightarrow> string" where
  "format_fixed2 neg n =
     (if neg then ''-'' else []) @ show_nat (n div 100) @ ''.''
     @ [digit_char (n mod 100 div 10), digit_char (n mod 10)]"

definition format_2f :: "pyfloat \<Rightarrow> string" where
  "format_2f x =
     (case x of
        Fin m e \<Rightarrow>
          format_fixed2 (m < 0)
            (round_half_even (nat \<bar>m\<bar> * 100 * 2 ^ nat (max e 0)) (2 ^ nat (max (- e) 0)))
      | PosInf \<Rightarrow> ''inf''
      | NegInf \<Rightarrow> ''-inf''
      | NaN \<Rightarrow> ''nan'')"

declare digit_char_def [float_defs] show_nat.simps [float_defs] format_fixed2_def [float_defs]
  format_2f_def [float_defs]

end
