(* ===== verification/Transcoder.thy ===== *)
theory Transcoder
  imports PyFloat "HOL-Library.Multiset"
begin

text \<open>
  The statement transcoder of \<^verbatim>\<open>run_conversion\<close> in \<^verbatim>\<open>src/mt940convert.py\<close>:
  the MT940 header template (lines 68--75), the loop over the rows that the CSV
  reader yields (lines 100--115) with its running balance \<^verbatim>\<open>saldo\<close>, and the closing
  \<^verbatim>\<open>:62F:\<close> record (lines 117--122). The loop's local variables form the record
  \<open>conv_state\<close>; \<^verbatim>\<open>date\<close>, which the closing record reads after the loop, is
  \<open>last_date\<close>, \<open>None\<close> while it is unbound.
  The lemmas show that the loop computes the concatenation of independent per-row
  record groups and the signed sum of the rows' cents, that the balance does not
  depend on the order of the rows, how comments are wrapped, and every error case.
\<close>

section \<open>The MT940 header (lines 68--75)\<close>

text \<open>
  The triple-quoted template keeps the source's indentation: its lines after the
  first start with four spaces, and it ends with four spaces. The account and the
  date are substituted first, then every \<^verbatim>\<open>\n\<close> (theirs included) becomes \<^verbatim>\<open>\r\n\<close>.
\<close>

definition header_mt940 :: "string \<Rightarrow> string \<Rightarrow> string" where
  "header_mt940 reknr firstdate =
     replace_char LF crlf
       (''0000 01INGBNL2AXXXX00001'' @ [LF]
        @ ''    0000 01INGBNL2AXXXX00001'' @ [LF]
        @ ''    940 00'' @ [LF]
        @ ''    :20:INGEB'' @ [LF]
        @ ''    :25:'' @ reknr @ [LF]
        @ ''    :28C:1'' @ [LF]
        @ ''    :60F:C'' @ firstdate @ ''EUR0'' @ [LF]
        @ ''    '')"

section \<open>Rows (line 103)\<close>

text \<open>The nine columns the row is unpacked into; a row of another length raises.\<close>

record txn_row =
  date :: string
  name :: string
  account :: string
  iban :: string
  typ' :: string
  DC :: string
  amount :: string
  mutation :: string
  comment :: string

definition unpack_row :: "string list \<Rightarrow> txn_row result" where
  "unpack_row row =
     (if length row = 9
      then Inr \<lparr>date = row ! 0, name = row ! 1, account = row ! 2, iban = row ! 3,
                typ' = row ! 4, DC = row ! 5, amount = row ! 6, mutation = row ! 7,
                comment = row ! 8\<rparr>
      else Inl ValueError)"

section \<open>Cents (line 104)\<close>

definition cents_of :: "string \<Rightarrow> int result" where
  "cents_of amt =
     (case py_float (replace_char (CHR '','') ''.'' amt) of
        Inl e \<Rightarrow> Inl e
      | Inr f \<Rightarrow> py_int (py_mul f (Fin 100 0)))"

section \<open>One row (lines 103--115)\<close>

record conv_state =
  result :: string
  saldo :: int
  last_date :: "string option"

text \<open>The \<^verbatim>\<open>:86:\<close> records of lines 112--115.\<close>

definition comment_records :: "string \<Rightarrow> string" where
  "comment_records cmt =
     (if 0 < length cmt then '':86:'' @ py_slice cmt 0 63 @ crlf else [])
     @ (if 63 < length cmt then '':86:'' @ py_slice cmt 63 126 @ crlf else [])"

definition transaction_record :: "txn_row \<Rightarrow> string \<Rightarrow> string" where
  "transaction_record r dc = '':61:'' @ py_slice_from (date r) 2 @ dc @ amount r @ ''N'' @ typ' r @ crlf"

definition row_step :: "conv_state \<Rightarrow> string list \<Rightarrow> conv_state result" where
  "row_step st row =
     (case unpack_row row of
        Inl e \<Rightarrow> Inl e
      | Inr r \<Rightarrow>
          (case cents_of (amount r) of
             Inl e \<Rightarrow> Inl e
           | Inr cents \<Rightarrow>
               (let (dc, saldo') = (if DC r = ''Bij'' then (''C'', saldo st + cents)
                                    else (''D'', saldo st - cents))
                in Inr \<lparr>result = result st @ transaction_record r dc @ comment_records (comment r),
                        saldo = saldo', last_date = Some (date r)\<rparr>)))"

text \<open>The loop of line 102: the first error ends it.\<close>

fun transcode_rows :: "conv_state \<Rightarrow> string list list \<Rightarrow> conv_state result" where
  "transcode_rows st [] = Inr st"
| "transcode_rows st (row # rows) =
     (case row_step st row of Inl e \<Rightarrow> Inl e | Inr st' \<Rightarrow> transcode_rows st' rows)"

section \<open>The closing record (lines 117--122)\<close>

text \<open>\<^verbatim>\<open>'{0:.2f}'.format(saldo / 100.).replace('.', ',')\<close>.\<close>

definition saldo_string :: "int \<Rightarrow> string result" where
  "saldo_string s =
     (case py_int_to_float s of
        Inl e \<Rightarrow> Inl e
      | Inr f \<Rightarrow>
          (case py_div f (Fin 100 0) of
             Inl e \<Rightarrow> Inl e
           | Inr q \<Rightarrow> Inr (replace_char (CHR ''.'') '','' (format_2f q))))"

text \<open>
  The direction is \<^verbatim>\<open>C\<close> only for a positive balance. The balance string is computed
  before \<^verbatim>\<open>date\<close> is read, which raises \<^verbatim>\<open>UnboundLocalError\<close> when no row was read.
\<close>

definition closing_record :: "conv_state \<Rightarrow> string result" where
  "closing_record st =
     (let dc = (if 0 < saldo st then ''C'' else ''D'')
      in case saldo_string (saldo st) of
           Inl e \<Rightarrow> Inl e
         | Inr saldo_str \<Rightarrow>
             (case last_date st of
                None \<Rightarrow> Inl UnboundLocalError
              | Some d \<Rightarrow> Inr (result st @ '':62F:'' @ dc @ py_slice_from d 2 @ ''EUR''
                               @ saldo_str @ crlf @ ''-'')))"

section \<open>The transcoder (lines 95--122)\<close>

text \<open>
  The rows the CSV reader yields; the first (the header) is skipped by the loop
  that breaks at once (lines 97--98).
\<close>

definition transcode :: "string \<Rightarrow> string \<Rightarrow> string list list \<Rightarrow> string result" where
  "transcode reknr firstdate rows =
     (case transcode_rows \<lparr>result = header_mt940 reknr firstdate, saldo = 0, last_date = None\<rparr>
             (drop 1 rows) of
        Inl e \<Rightarrow> Inl e
      | Inr st \<Rightarrow> closing_record st)"

section \<open>What the loop computes\<close>

text \<open>
  The abstract view of one row: its record group, its signed cents (credit
  positive, debit negative) and its date, or the error it raises. The loop of
  line 102 is the concatenation of the rows' record groups and the sum of their
  signed cents, so each row contributes independently of the others.
\<close>

definition signed_cents :: "string list \<Rightarrow> int result" where
  "signed_cents row =
     (case unpack_row row of
        Inl e \<Rightarrow> Inl e
      | Inr r \<Rightarrow> (case cents_of (amount r) of
                   Inl e \<Rightarrow> Inl e
                 | Inr c \<Rightarrow> Inr (if DC r = ''Bij'' then c else - c)))"

definition row_entry :: "string list \<Rightarrow> (string \<times> int \<times> string) result" where
  "row_entry row =
     (case unpack_row row of
        Inl e \<Rightarrow> Inl e
      | Inr r \<Rightarrow> (case cents_of (amount r) of
                   Inl e \<Rightarrow> Inl e
                 | Inr c \<Rightarrow> Inr (transaction_record r (if DC r = ''Bij'' then ''C'' else ''D'')
                                   @ comment_records (comment r),
                                 if DC r = ''Bij'' then c else - c, date r)))"

lemma row_step_entry:
  "row_step st row =
     (case row_entry row of
        Inl e \<Rightarrow> Inl e
      | Inr (recs, c, d) \<Rightarrow> Inr \<lparr>result = result st @ recs, saldo = saldo st + c, last_date = Some d\<rparr>)"
  by (simp add: row_step_def row_entry_def split: sum.split)

lemma signed_cents_entry: "signed_cents = (\<lambda>row. map_sum id (\<lambda>e. fst (snd e)) (row_entry row))"
  by (simp add: fun_eq_iff signed_cents_def row_entry_def split: sum.split)

lemma transcode_rows_eq:
  "transcode_rows st rows =
     (case map_result row_entry rows of
        Inl e \<Rightarrow> Inl e
      | Inr es \<Rightarrow> Inr \<lparr>result = result st @ concat (map fst es),
                       saldo = saldo st + sum_list (map (\<lambda>e. fst (snd e)) es),
                       last_date = (if es = [] then last_date st else Some (snd (snd (last es))))\<rparr>)"
proof (induction rows arbitrary: st)
  case Nil
  then show ?case by simp
next
  case (Cons row rows)
  show ?case
  proof (cases "row_entry row")
    case (Inl e)
    then show ?thesis by (simp add: row_step_entry)
  next
    case (Inr entry)
    obtain recs c d where entry: "entry = (recs, c, d)" by (cases entry) auto
    with Inr Cons.IH show ?thesis
      by (auto simp add: row_step_entry split: sum.split)
  qed
qed

text \<open>
  C1. The running balance after the loop over the rows is the initial balance plus
  the sum of the rows' signed cents (credit positive, debit negative); the loop
  fails exactly when some row fails, with the first row's error.
\<close>

theorem saldo_signed_sum:
  "map_sum id saldo (transcode_rows st rows)
     = map_sum id (\<lambda>cs. saldo st + sum_list cs) (map_result signed_cents rows)"
proof -
  have "map_result signed_cents rows = map_sum id (map (\<lambda>e. fst (snd e))) (map_result row_entry rows)"
    by (simp add: signed_cents_entry map_result_map_sum)
  then show ?thesis
    by (simp add: transcode_rows_eq split: sum.split)
qed

lemma sum_list_map_mset:
  "mset xs = mset ys \<Longrightarrow> sum_list (map g xs) = (sum_list (map g ys) :: int)"
proof -
  assume "mset xs = mset ys"
  then have "mset (map g xs) = mset (map g ys)" by simp
  then show ?thesis by (metis sum_mset_sum_list)
qed

lemma transcode_rows_Inr:
  assumes "transcode_rows st rows = Inr s"
  obtains es where "map_result row_entry rows = Inr es"
    and "saldo s = saldo st + sum_list (map (\<lambda>e. fst (snd e)) es)"
  using assms by (cases "map_result row_entry rows") (auto simp add: transcode_rows_eq)

text \<open>
  C2. The closing balance does not depend on the order of the rows: any permutation
  of rows that converts also converts, to the same balance.
\<close>

theorem saldo_order_independent:
  assumes perm: "mset rows' = mset rows" and ok: "transcode_rows st rows = Inr s"
  shows "\<exists>s'. transcode_rows st rows' = Inr s' \<and> saldo s' = saldo s"
proof -
  from ok obtain es where es: "map_result row_entry rows = Inr es"
    and s: "saldo s = saldo st + sum_list (map (\<lambda>e. fst (snd e)) es)"
    by (rule transcode_rows_Inr)
  from perm have "set rows' = set rows" by (metis set_mset_mset)
  with es obtain es' where es': "map_result row_entry rows' = Inr es'"
    by (meson map_result_ok_set)
  let ?c = "\<lambda>x. fst (snd (projr (row_entry x)))"
  from es es' have "map (\<lambda>e. fst (snd e)) es = map ?c rows"
    and "map (\<lambda>e. fst (snd e)) es' = map ?c rows'" by (simp_all add: map_result_Inr_iff)
  with sum_list_map_mset [OF perm, of ?c] s
  have "saldo st + sum_list (map (\<lambda>e. fst (snd e)) es') = saldo s" by simp
  with es' show ?thesis by (simp add: transcode_rows_eq)
qed

text \<open>
  C7. The comment records carry the comment's first 126 characters and nothing else:
  they are :86: records with non-empty payloads that concatenate to the first 126
  characters of the comment, every payload but the last has exactly 63 characters,
  and none has more.
\<close>

theorem comment_records_chunks:
  "\<exists>ps. comment_records c = concat (map (\<lambda>p. '':86:'' @ p @ crlf) ps)
        \<and> concat ps = take 126 c \<and> (\<forall>p\<in>set ps. p \<noteq> [] \<and> length p \<le> 63)
        \<and> (\<forall>p\<in>set (butlast ps). length p = 63)"
proof (cases "c = []")
  case True
  then show ?thesis by (intro exI [of _ "[]"]) (simp add: comment_records_def)
next
  case False
  show ?thesis
  proof (cases "length c \<le> 63")
    case True
    with False show ?thesis by (intro exI [of _ "[c]"]) (simp add: comment_records_def)
  next
    case long: False
    have "take 126 c = take 63 c @ take 63 (drop 63 c)"
      using take_add [of 63 63 c] by simp
    with long False show ?thesis
      by (intro exI [of _ "[take 63 c, take 63 (drop 63 c)]"]) (simp add: comment_records_def min_def)
  qed
qed

lemma saldo_string_0: "saldo_string 0 = Inr ''0,00''"
  by (simp add: saldo_string_def float_defs)

text \<open>
  C13. A table without data rows makes the closing record raise UnboundLocalError,
  since date is never bound.
\<close>

theorem transcode_without_rows:
  "length rows \<le> 1 \<Longrightarrow> transcode reknr firstdate rows = Inl UnboundLocalError"
  by (simp add: transcode_def closing_record_def saldo_string_0)

lemma row_step_arity: "length row \<noteq> 9 \<Longrightarrow> row_step st row = Inl ValueError"
  by (simp add: row_step_def unpack_row_def)

text \<open>
  C3. The transcoder refines the abstract Statement Document: when every data row
  yields its record group and signed cents, the document is the header block, the
  rows' record groups in input order, and one closing record whose direction and
  balance come from the sum of the signed cents and whose date is the last row's.
\<close>

theorem transcode_document:
  assumes "map_result row_entry (drop 1 rows) = Inr es" and "es \<noteq> []"
    and "saldo_string (sum_list (map (\<lambda>e. fst (snd e)) es)) = Inr s"
  shows "transcode reknr firstdate rows =
           Inr (header_mt940 reknr firstdate @ concat (map fst es)
                @ '':62F:'' @ (if 0 < sum_list (map (\<lambda>e. fst (snd e)) es) then ''C'' else ''D'')
                @ py_slice_from (snd (snd (last es))) 2 @ ''EUR'' @ s @ crlf @ ''-'')"
  using assms by (simp add: transcode_def transcode_rows_eq closing_record_def)

lemma transcode_rows_append_error:
  "map_result row_entry pre = Inr es \<Longrightarrow> row_entry row = Inl e
     \<Longrightarrow> transcode_rows st (pre @ row # post) = Inl e"
proof (induction pre arbitrary: st es)
  case Nil
  then show ?case by (simp add: row_step_entry)
next
  case (Cons r pre)
  then obtain entry es' where "row_entry r = Inr entry" and "map_result row_entry pre = Inr es'"
    by (auto split: sum.splits)
  with Cons show ?case by (auto simp add: row_step_entry split: prod.split)
qed

text \<open>
  C8. A malformed row (one that is not nine fields, or whose amount does not
  convert) ends the conversion with its error, whatever rows come before or after
  it: no row is skipped and no document is produced.
\<close>

theorem transcode_stops_at_bad_row:
  assumes "map_result row_entry pre = Inr es" and "row_entry row = Inl e"
  shows "transcode reknr firstdate (hdr # pre @ row # post) = Inl e"
  using transcode_rows_append_error [OF assms] by (simp add: transcode_def)

end
