(* ===== verification/Conversion.thy ===== *)
theory Conversion
  imports QuoteRepair Transcoder
begin

text \<open>
  \<^verbatim>\<open>run_conversion\<close> (lines 62--127 of \<^verbatim>\<open>src/mt940convert.py\<close>), the composition of
  the components: the check of the opening date, the repair stage, the CSV reader on
  the file the repair stage chose, and the transcoder. The reader is the parameter
  \<open>csv_reader\<close>, from the decoded text of a file to the records it yields one after
  the other and the exception that stopped it, if any; every lemma here holds for any
  reader, and \<open>CsvReader\<close> models \<^verbatim>\<open>csv.reader\<close> itself. The two \<^verbatim>\<open>for\<close> loops
  of lines 97--102 pull records from the reader lazily (\<open>transcode_stream\<close>): a row
  that makes the transcoder raise stops the run before the reader reaches a record it
  cannot read.
  File names (lines 63 and 87) are not modelled; the result is the repaired table
  that was written, if any, and the MT940 document or the exception that ended the
  run. The repaired table is written before the transcoder runs, so it is written
  even when the transcoder then raises.
\<close>

definition transcode_stream ::
  "string \<Rightarrow> string \<Rightarrow> string list list \<times> py_error option \<Rightarrow> string result" where
  "transcode_stream reknr firstdate rd =
     (case rd of
        (rows, None) \<Rightarrow> transcode reknr firstdate rows
      | (rows, Some e) \<Rightarrow>
          (case transcode_rows \<lparr>result = header_mt940 reknr firstdate, saldo = 0, last_date = None\<rparr>
                  (drop 1 rows) of
             Inl e' \<Rightarrow> Inl e'
           | Inr _ \<Rightarrow> Inl e))"

definition run_conversion ::
  "(string \<Rightarrow> string list list \<times> py_error option) \<Rightarrow> string \<Rightarrow> string \<Rightarrow> string
     \<Rightarrow> string option \<times> string result" where
  "run_conversion csv_reader raw reknr firstdate =
     (if length firstdate \<noteq> 6 then (None, Inl ValueError)
      else case repair_table raw of
        Inl e \<Rightarrow> (None, Inl e)
      | Inr (conv_raw, repaired) \<Rightarrow>
          (repaired, transcode_stream reknr firstdate (csv_reader (universal_newlines conv_raw))))"

section \<open>Characters of the repaired table\<close>

lemma set_py_slice: "set (py_slice xs i j) \<subseteq> set xs"
  by (auto simp add: py_slice_def Let_def dest: in_set_takeD in_set_dropD)

lemma set_py_slice_from: "set (py_slice_from xs i) \<subseteq> set xs"
  by (auto dest: in_set_dropD)

lemma set_fix_loop: "x \<in> set (fix_loop sep line ps) \<Longrightarrow> set x \<subseteq> insert quote_char (set line)"
proof (induction ps arbitrary: line)
  case Nil
  then show ?case by simp
next
  case (Cons p ps)
  obtain left right where p: "p = (left, right)" by (cases p)
  then obtain stop next_start where
    eq: "fix_loop sep line (p # ps) = (quote_char # py_slice line (int left) stop @ [quote_char])
           # fix_loop sep (py_slice_from line next_start) ps"
    by (simp add: Let_def)
  show ?case
  proof (cases "x \<in> set (fix_loop sep (py_slice_from line next_start) ps)")
    case True
    then have "set x \<subseteq> insert quote_char (set (py_slice_from line next_start))" by (rule Cons.IH)
    with set_py_slice_from [of line next_start] show ?thesis by blast
  next
    case False
    with Cons.prems eq have "x = quote_char # py_slice line (int left) stop @ [quote_char]"
      by (metis set_ConsD)
    then show ?thesis using set_py_slice [of line "int left" stop] by auto
  qed
qed

lemma set_fix_quotes:
  "set (fix_quotes line ql qr sep) \<subseteq> set sep \<union> insert quote_char (set line)"
proof
  fix c
  assume "c \<in> set (fix_quotes line ql qr sep)"
  then have "c \<in> set sep \<union> \<Union> (set ` set (fix_loop sep line (zip ql qr)))"
    using set_py_join [of sep "fix_loop sep line (zip ql qr)"]
    unfolding fix_quotes_def by blast
  then show "c \<in> set sep \<union> insert quote_char (set line)"
  proof
    assume "c \<in> \<Union> (set ` set (fix_loop sep line (zip ql qr)))"
    then obtain x where "x \<in> set (fix_loop sep line (zip ql qr))" and "c \<in> set x" by auto
    then show ?thesis using set_fix_loop [of x] by blast
  qed simp
qed

lemma CR_not_in_fix_quotes: "CR \<notin> set line \<Longrightarrow> CR \<notin> set (fix_quotes line ql qr '','')"
  using set_fix_quotes [of line ql qr "'',''"] by (auto simp add: CR_def quote_char_def)

lemma CR_not_in_table_header: "CR \<notin> set (table_header raw)"
proof -
  let ?ls = "py_readlines (universal_newlines raw)"
  have "set (case ?ls of [] \<Rightarrow> [] | l # _ \<Rightarrow> l) \<subseteq> set (universal_newlines raw)"
  proof (cases ?ls)
    case (Cons l ls)
    then have "l \<in> set ?ls" by simp
    with Cons show ?thesis by (simp add: set_readlines)
  qed simp
  then show ?thesis
    using set_py_slice [of "case ?ls of [] \<Rightarrow> [] | l # _ \<Rightarrow> l" 0 "-1"]
      CR_not_in_universal_newlines [of raw]
    unfolding table_header_def by blast
qed

lemma CR_not_in_table_rest: "l \<in> set (table_rest raw) \<Longrightarrow> CR \<notin> set l"
proof -
  assume "l \<in> set (table_rest raw)"
  then have "l \<in> set (py_readlines (universal_newlines raw))"
    unfolding table_rest_def by (rule in_set_dropD)
  then have "set l \<subseteq> set (universal_newlines raw)" by (rule set_readlines)
  with CR_not_in_universal_newlines [of raw] show ?thesis by blast
qed

lemma LF_not_in_table_header: "LF \<notin> set (table_header raw)"
proof (cases "py_readlines (universal_newlines raw)")
  case (Cons l ls)
  then have "LF \<notin> set (butlast l)" using LF_readlines [of l "universal_newlines raw"] by simp
  with Cons show ?thesis by (simp add: table_header_def butlast_conv_take)
qed (simp add: table_header_def)

lemma readlines_first_line:
  "LF \<notin> set h \<Longrightarrow> py_readlines (h @ LF # r) = (h @ [LF]) # py_readlines r"
  by (subst py_readlines.simps) (simp add: find_sub_single_append)

section \<open>What the transcoder reads\<close>

text \<open>
  The repaired table is written with \<^verbatim>\<open>\r\n\<close> line ends and read back in text mode,
  which gives back exactly the repaired lines, each ended by \<^verbatim>\<open>\n\<close>: no line of
  the table has a \<^verbatim>\<open>\r\<close> left after the first read.
\<close>

lemma universal_newlines_repaired:
  "universal_newlines (repaired_text raw ql qr) =
     fix_quotes (table_header raw) ql qr '','' @ [LF]
     @ concat (map (\<lambda>line. fix_quotes line ql qr '','' @ [LF]) (table_rest raw))"
proof -
  have "\<forall>line\<in>set (table_rest raw). CR \<notin> set (fix_quotes line ql qr '','')"
    using CR_not_in_table_rest CR_not_in_fix_quotes by blast
  moreover have "CR \<notin> set (fix_quotes (table_header raw) ql qr '','')"
    using CR_not_in_table_header by (rule CR_not_in_fix_quotes)
  ultimately show ?thesis
    unfolding repaired_text_def by (intro newline_roundtrip) auto
qed

section \<open>Idempotence of the repair\<close>

text \<open>
  C9. Repairing a repaired table triggers no second repair, provided the header's
  repaired fields are non-empty, have no quote at their edges and contain no comma:
  the repaired header is then canonically quoted.
\<close>

theorem repair_idempotent:
  assumes fields: "fix_loop '','' (table_header raw) (zip ql qr) = map wrap fs"
    and "fs \<noteq> []" and plain: "\<forall>f\<in>set fs. plain_field (CHR '','') f"
  shows "repair_table (repaired_text raw ql qr) = Inr (repaired_text raw ql qr, None)"
proof -
  let ?H = "fix_quotes (table_header raw) ql qr '',''"
  have H: "?H = py_join '','' (map wrap fs)" by (simp add: fix_quotes_def fields)
  have "LF \<notin> set ?H"
    using set_fix_quotes [of "table_header raw" ql qr "'',''"] LF_not_in_table_header [of raw]
    by (auto simp add: LF_def quote_char_def)
  then have "table_header (repaired_text raw ql qr) = ?H"
    by (simp add: table_header_def universal_newlines_repaired readlines_first_line)
  with H have "count_quotes (table_header (repaired_text raw ql qr)) '','' =
      Inr (replicate (length fs) 1, replicate (length fs) 1)"
    using count_quotes_wrapped [of fs "CHR '',''"] assms by (simp add: quote_char_def)
  then show ?thesis by (simp add: repair_table_def needs_repair_def list_all_iff)
qed

section \<open>The conversion\<close>

text \<open>
  C10. A start date that is not six characters long raises ValueError before the
  input is read: nothing is written.
\<close>

theorem run_conversion_bad_date:
  "length firstdate \<noteq> 6 \<Longrightarrow> run_conversion csv_reader raw reknr firstdate = (None, Inl ValueError)"
  by (simp add: run_conversion_def)

text \<open>
  C11. When the header needs repair, the repaired table is written, and it is
  written whatever the transcoder then does; the CSV reader reads exactly the
  repaired lines, each ended by a newline, and the transcoder converts what the
  reader yields.
\<close>

theorem run_conversion_repaired:
  assumes "length firstdate = 6" and "count_quotes (table_header raw) '','' = Inr (ql, qr)"
    and "needs_repair ql qr"
  shows "run_conversion csv_reader raw reknr firstdate =
           (Some (repaired_text raw ql qr),
            transcode_stream reknr firstdate
              (csv_reader (fix_quotes (table_header raw) ql qr '','' @ [LF]
                 @ concat (map (\<lambda>line. fix_quotes line ql qr '','' @ [LF]) (table_rest raw)))))"
  using assms by (simp add: run_conversion_def repair_table_def universal_newlines_repaired Let_def)

text \<open>
  C12. A header with a field that is empty or consists of quotes only (an empty
  input file included) makes count_quotes raise IndexError; nothing is written.
\<close>

theorem run_conversion_bad_header:
  assumes "length firstdate = 6" and "list_ex all_quotes (split_sep '','' (table_header raw))"
  shows "run_conversion csv_reader raw reknr firstdate = (None, Inl IndexError)"
proof -
  from assms(2) have "count_quotes (table_header raw) '','' = Inl IndexError"
    by (auto simp add: count_quotes_def py_split_def count_cols_eq list_ex_iff)
  with assms(1) show ?thesis by (simp add: run_conversion_def repair_table_def)
qed

end
