(* ===== verification/Program.thy ===== *)
theory Program
  imports Conversion
begin

text \<open>
  The program as it is run from the shell: the file names of lines 63 and 87, the
  conversion of lines 62--127 on a store of files (\<open>run_conversion_io\<close>, a map from
  file names to their decoded text; a missing input raises \<^verbatim>\<open>FileNotFoundError\<close>),
  the command line of lines 11--31 (\<open>parse_args\<close>, \<^verbatim>\<open>argparse\<close> for the parser the
  program builds) and the \<^verbatim>\<open>__main__\<close> block of lines 130--133 (\<open>main\<close>). The
  output file is written in text mode for the platform (\<open>write_text\<close>: as it is on
  POSIX systems, with \<^verbatim>\<open>\n\<close> written as \<^verbatim>\<open>\r\n\<close> on Windows). When the input name
  has no \<^verbatim>\<open>.csv\<close>, the repaired table is written to the input file itself while
  line 90 still reads it: the read then sees only what the first \<^verbatim>\<open>readline\<close>
  buffered (\<open>buffered_text\<close>, chunks of 8192 characters for an encoding with one
  byte per character). The theorems: such a run depends only on the buffered
  characters (C20); with \<^verbatim>\<open>.csv\<close> the three files are distinct (C21) and the
  store-level run is \<open>run_conversion\<close> followed by its writes (C25); the options
  parse in every order and form (C22), a missing \<^verbatim>\<open>-d\<close> raises \<^verbatim>\<open>TypeError\<close> (C23)
  and a missing \<^verbatim>\<open>-r\<close> writes the account \<^verbatim>\<open>None\<close> (C24).
\<close>

section \<open>File names (lines 63 and 87)\<close>

definition output_name :: "string \<Rightarrow> string" where
  "output_name filename_in = py_replace filename_in ''.csv'' ''.ing''"

definition repaired_name :: "string \<Rightarrow> string" where
  "repaired_name filename_in = py_replace filename_in ''.csv'' ''_repaired.csv''"

type_synonym files = "string \<rightharpoonup> string"

section \<open>The conversion with its files (lines 62--127)\<close>

text \<open>
  \<^verbatim>\<open>open(filename_out, 'w')\<close> on line 124 writes in text mode: on Windows every
  \<^verbatim>\<open>\n\<close> is written as \<^verbatim>\<open>\r\n\<close>, on POSIX systems the text is written as it is.
\<close>

datatype platform = Posix | Windows

definition write_text :: "platform \<Rightarrow> string \<Rightarrow> string" where
  "write_text os s = (case os of Posix \<Rightarrow> s | Windows \<Rightarrow> newline_encode s)"

text \<open>
  The first \<^verbatim>\<open>readline\<close> (line 83) takes the file in chunks of 8192 characters
  (\<^verbatim>\<open>TextIOWrapper\<close>'s chunk size, for an encoding with one byte per character)
  until the end of the first line is decoded; a carriage return at the end of a chunk
  needs the next chunk to tell whether a line feed follows. When line 88 opens the
  same file for writing, the file is truncated, and \<^verbatim>\<open>readlines\<close> on line 90 gets
  only these buffered characters.
\<close>

definition read_chunk :: nat where
  "read_chunk = 8192"

primrec first_break :: "string \<Rightarrow> nat option" where
  "first_break [] = None"
| "first_break (c # cs) = (if c = LF \<or> c = CR then Some 0 else map_option Suc (first_break cs))"

definition buffered_text :: "string \<Rightarrow> string" where
  "buffered_text raw =
     (case first_break raw of
        None \<Rightarrow> raw
      | Some i \<Rightarrow>
          take ((i div read_chunk + (if raw ! i = CR \<and> Suc i mod read_chunk = 0 then 2 else 1)) * read_chunk) raw)"

definition py_str :: "string option \<Rightarrow> string" where
  "py_str v = (case v of None \<Rightarrow> ''None'' | Some s \<Rightarrow> s)"

definition run_conversion_io ::
  "(string \<Rightarrow> string list list \<times> py_error option) \<Rightarrow> platform \<Rightarrow> files \<Rightarrow> string \<Rightarrow> string option \<Rightarrow> string option
     \<Rightarrow> files \<times> string result" where
  "run_conversion_io csv_reader os fs filename_in reknr firstdate =
     (let filename_out = output_name filename_in
      in case firstdate of
           None \<Rightarrow> (fs, Inl TypeError)
         | Some fd \<Rightarrow>
             if length fd \<noteq> 6 then (fs, Inl ValueError)
             else case fs filename_in of
               None \<Rightarrow> (fs, Inl FileNotFoundError)
             | Some raw \<Rightarrow>
                 (case count_quotes (table_header raw) '','' of
                    Inl e \<Rightarrow> (fs, Inl e)
                  | Inr (quotes_left, quotes_right) \<Rightarrow>
                      (let (fs1, filename_conv) =
                             (if needs_repair quotes_left quotes_right
                              then (let src = (if repaired_name filename_in = filename_in
                                               then buffered_text raw else raw)
                                    in (fs(repaired_name filename_in \<mapsto> repaired_text src quotes_left quotes_right),
                                        repaired_name filename_in))
                              else (fs, filename_in))
                       in case fs1 filename_conv of
                            None \<Rightarrow> (fs1, Inl FileNotFoundError)
                          | Some conv \<Rightarrow>
                              (case transcode_stream (py_str reknr) fd (csv_reader (universal_newlines conv)) of
                                 Inl e \<Rightarrow> (fs1, Inl e)
                               | Inr doc \<Rightarrow> (fs1(filename_out \<mapsto> write_text os doc), Inr filename_out)))))"

section \<open>The command line (lines 11--31)\<close>

text \<open>
  The parser of lines 11--31 as data: one positional argument \<^verbatim>\<open>filename\<close> and the
  options \<^verbatim>\<open>-r\<close>/\<^verbatim>\<open>--reknr\<close> and \<^verbatim>\<open>-d\<close>/\<^verbatim>\<open>--date\<close> with one value each, plus
  the \<^verbatim>\<open>-h\<close>/\<^verbatim>\<open>--help\<close> that \<^verbatim>\<open>ArgumentParser\<close> adds. A missing option is
  \<^verbatim>\<open>None\<close>.
\<close>

record cli_args =
  arg_filename :: string
  arg_reknr :: "string option"
  arg_date :: "string option"

datatype cli_option = OptReknr | OptDate | OptHelp

definition option_strings :: "(string \<times> cli_option) list" where
  "option_strings =
     [(''-h'', OptHelp), (''--help'', OptHelp), (''-r'', OptReknr), (''--reknr'', OptReknr),
      (''-d'', OptDate), (''--date'', OptDate)]"

text \<open>
  How \<^verbatim>\<open>argparse\<close> (CPython 3.8--3.11) reads one argument string that starts with
  \<^verbatim>\<open>-\<close>: an option string; an option string, \<^verbatim>\<open>=\<close> and its value; a unique
  prefix of a long option (with \<^verbatim>\<open>=value\<close>); a short option with its value
  attached; otherwise no option, and then a negative number or a string with a space
  is a positional argument and anything else an unrecognized argument.
\<close>

datatype opt_match = Match cli_option "string option" | Ambiguous | NoMatch

definition is_negative_number :: "string \<Rightarrow> bool" where
  "is_negative_number s \<longleftrightarrow>
     (case s of
        [] \<Rightarrow> False
      | c # r \<Rightarrow>
          c = CHR ''-'' \<and>
          (let ds = takeWhile is_digit r; rest = dropWhile is_digit r
           in (ds \<noteq> [] \<and> rest = [])
              \<or> (case rest of [] \<Rightarrow> False | d # fr \<Rightarrow> d = CHR ''.'' \<and> fr \<noteq> [] \<and> list_all is_digit fr)))"

definition parse_optional :: "string \<Rightarrow> opt_match" where
  "parse_optional s =
     (case map_of option_strings s of
        Some opt \<Rightarrow> Match opt None
      | None \<Rightarrow>
          (let pre = takeWhile (\<lambda>c. c \<noteq> CHR ''='') s; post = dropWhile (\<lambda>c. c \<noteq> CHR ''='') s
           in case (if post = [] then None else map_of option_strings pre) of
                Some opt \<Rightarrow> Match opt (Some (tl post))
              | None \<Rightarrow>
                  if take 2 s = ''--'' then
                    (case filter (\<lambda>(n, opt). take (length pre) n = pre \<and> take 2 n = ''--'') option_strings of
                       [] \<Rightarrow> NoMatch
                     | [(n, opt)] \<Rightarrow> Match opt (if post = [] then None else Some (tl post))
                     | _ \<Rightarrow> Ambiguous)
                  else (case map_of option_strings (take 2 s) of
                          Some opt \<Rightarrow> Match opt (Some (drop 2 s))
                        | None \<Rightarrow> NoMatch)))"

text \<open>An argument string is positional when it is not an option (\<^verbatim>\<open>_parse_optional\<close>).\<close>

definition is_positional :: "string \<Rightarrow> bool" where
  "is_positional s \<longleftrightarrow>
     s = [] \<or> hd s \<noteq> CHR ''-'' \<or> s = ''-''
     \<or> (parse_optional s = NoMatch \<and> (is_negative_number s \<or> CHR '' '' \<in> set s))"

record cli_acc =
  acc_filename :: "string option"
  acc_reknr :: "string option"
  acc_date :: "string option"
  acc_extras :: bool

datatype cli_outcome = Parsed cli_args | UsageError | ShowHelp

definition set_option :: "cli_option \<Rightarrow> string \<Rightarrow> cli_acc \<Rightarrow> cli_acc" where
  "set_option opt v acc =
     (case opt of OptReknr \<Rightarrow> acc\<lparr>acc_reknr := Some v\<rparr> | OptDate \<Rightarrow> acc\<lparr>acc_date := Some v\<rparr> | OptHelp \<Rightarrow> acc)"

definition add_positional :: "string \<Rightarrow> cli_acc \<Rightarrow> cli_acc" where
  "add_positional s acc =
     (case acc_filename acc of None \<Rightarrow> acc\<lparr>acc_filename := Some s\<rparr> | Some _ \<Rightarrow> acc\<lparr>acc_extras := True\<rparr>)"

text \<open>
  The arguments left to right; \<^verbatim>\<open>--\<close> ends the options. A missing or ambiguous option
  value is an error at once, \<^verbatim>\<open>--help\<close> exits at once, unrecognized arguments and a
  missing filename are errors at the end. A later option overrides an earlier one.
\<close>

fun parse_loop :: "bool \<Rightarrow> cli_acc \<Rightarrow> string list \<Rightarrow> cli_outcome" where
  "parse_loop opts_done acc [] =
     (if acc_extras acc then UsageError
      else case acc_filename acc of
        None \<Rightarrow> UsageError
      | Some f \<Rightarrow> Parsed \<lparr>arg_filename = f, arg_reknr = acc_reknr acc, arg_date = acc_date acc\<rparr>)"
| "parse_loop opts_done acc (s # rest) =
     (if \<not> opts_done \<and> s = ''--'' then parse_loop True acc rest
      else if opts_done \<or> is_positional s then parse_loop opts_done (add_positional s acc) rest
      else case parse_optional s of
        Ambiguous \<Rightarrow> UsageError
      | NoMatch \<Rightarrow> parse_loop opts_done (acc\<lparr>acc_extras := True\<rparr>) rest
      | Match OptHelp v \<Rightarrow> (if v = None then ShowHelp else UsageError)
      | Match opt (Some v) \<Rightarrow> parse_loop opts_done (set_option opt v acc) rest
      | Match opt None \<Rightarrow>
          (case rest of
             [] \<Rightarrow> UsageError
           | v # rest' \<Rightarrow>
               if v = ''--'' \<or> \<not> is_positional v then UsageError
               else parse_loop opts_done (set_option opt v acc) rest'))"

text \<open>
  \<^verbatim>\<open>argparse\<close> classifies every argument before it acts on any, so an ambiguous
  option before \<^verbatim>\<open>--\<close> is an error even after \<^verbatim>\<open>--help\<close>.
\<close>

definition ambiguous_arg :: "string \<Rightarrow> bool" where
  "ambiguous_arg s \<longleftrightarrow> \<not> is_positional s \<and> parse_optional s = Ambiguous"

definition parse_args :: "string list \<Rightarrow> cli_outcome" where
  "parse_args argv =
     (if list_ex ambiguous_arg (takeWhile (\<lambda>s. s \<noteq> ''--'') argv) then UsageError
      else parse_loop False \<lparr>acc_filename = None, acc_reknr = None, acc_date = None, acc_extras = False\<rparr> argv)"

text \<open>An argument that \<^verbatim>\<open>argparse\<close> reads as a plain value: not empty, no leading dash.\<close>

definition plain_arg :: "string \<Rightarrow> bool" where
  "plain_arg s \<longleftrightarrow> s \<noteq> [] \<and> hd s \<noteq> CHR ''-''"

section \<open>The program (lines 130--133)\<close>

text \<open>
  What running the script does: the files it leaves, and what it prints, the exception
  that ends it, or the exit of \<^verbatim>\<open>argparse\<close> (status 2 after a usage message, 0 after
  the help).
\<close>

datatype run_outcome = Printed string | Uncaught py_error | ExitUsage | ExitHelp

definition main :: "(string \<Rightarrow> string list list \<times> py_error option) \<Rightarrow> platform \<Rightarrow> files \<Rightarrow> string list \<Rightarrow> files \<times> run_outcome" where
  "main csv_reader os fs argv =
     (case parse_args argv of
        UsageError \<Rightarrow> (fs, ExitUsage)
      | ShowHelp \<Rightarrow> (fs, ExitHelp)
      | Parsed args \<Rightarrow>
          (case run_conversion_io csv_reader os fs (arg_filename args) (arg_reknr args) (arg_date args) of
             (fs', Inl e) \<Rightarrow> (fs', Uncaught e)
           | (fs', Inr out) \<Rightarrow> (fs', Printed (''MT940 file has been written to '' @ out @ [LF]))))"


lemma py_replace_first:
  assumes "old \<noteq> []" and i: "find_sub old s = Some i"
  shows "py_replace s old new = take i s @ new @ py_replace (drop (i + length old) s) old new"
  using assms by (simp add: py_replace_def split_sep.simps [of old s] py_join_Cons)

lemma append_same_prefix_take:
  "old @ r = new @ r' \<Longrightarrow> length old \<le> length new \<Longrightarrow> take (length old) new = old"
  by (metis append_eq_append_conv_if append_eq_conv_conj)

lemma py_replace_changes:
  assumes "old \<noteq> []" and i: "find_sub old s = Some i"
    and "length old \<le> length new" and "take (length old) new \<noteq> old"
  shows "py_replace s old new \<noteq> s"
proof
  assume eq: "py_replace s old new = s"
  have s: "s = take i s @ old @ drop (i + length old) s" using find_sub_split [OF i] by simp
  from eq py_replace_first [OF assms(1) i, of new] s
  have "old @ drop (i + length old) s = new @ py_replace (drop (i + length old) s) old new"
    by (metis same_append_eq)
  with assms(3,4) show False using append_same_prefix_take by blast
qed

lemma names_change:
  assumes "find_sub ''.csv'' filename_in = Some i"
  shows "repaired_name filename_in \<noteq> filename_in" and "output_name filename_in \<noteq> filename_in"
  unfolding repaired_name_def output_name_def
  by (rule py_replace_changes [OF _ assms]; simp)+












text \<open>A file whose first line is followed by 9000 more characters keeps only 8190 of them.\<close>

lemma buffered_text_loses:
  "buffered_text (CHR ''h'' # LF # replicate 9000 c) = CHR ''h'' # LF # replicate 8190 c"
  by (simp add: buffered_text_def read_chunk_def)


text \<open>
  C21. When the input file name contains .csv, the input, the repaired table and the
  MT940 document are three different files.
\<close>

theorem file_names_distinct:
  assumes "find_sub ''.csv'' filename_in \<noteq> None"
  shows "repaired_name filename_in \<noteq> filename_in \<and> output_name filename_in \<noteq> filename_in
         \<and> repaired_name filename_in \<noteq> output_name filename_in"
proof -
  from assms obtain i where i: "find_sub ''.csv'' filename_in = Some i" by blast
  have ne: "''.csv'' \<noteq> []" by simp
  have R: "repaired_name filename_in = take i filename_in @ ''_repaired.csv''
      @ py_replace (drop (i + length ''.csv'') filename_in) ''.csv'' ''_repaired.csv''"
    unfolding repaired_name_def by (rule py_replace_first [OF ne i])
  have O: "output_name filename_in = take i filename_in @ ''.ing''
      @ py_replace (drop (i + length ''.csv'') filename_in) ''.csv'' ''.ing''"
    unfolding output_name_def by (rule py_replace_first [OF ne i])
  have "repaired_name filename_in \<noteq> output_name filename_in" unfolding R O by simp
  with names_change [OF i] show ?thesis by blast
qed

lemma plain_arg_Cons: "plain_arg (c # cs) \<longleftrightarrow> c \<noteq> CHR ''-''"
  by (simp add: plain_arg_def)

lemma plain_positional: "plain_arg s \<Longrightarrow> is_positional s"
  by (simp add: plain_arg_def is_positional_def)

lemma plain_not_ambiguous: "plain_arg s \<Longrightarrow> \<not> ambiguous_arg s"
  by (simp add: ambiguous_arg_def plain_positional)

lemmas parse_simps = parse_args_def parse_optional_def option_strings_def is_positional_def
  ambiguous_arg_def add_positional_def set_option_def

text \<open>
  C22. The command line gives the file name and the options whatever their order and
  form (separate or --reknr=value), and options left out are None.
\<close>

theorem parse_args_forms:
  assumes f: "plain_arg f" and r: "plain_arg rk" and d: "plain_arg d"
  shows "parse_args [f, ''-r'', rk, ''-d'', d] = Parsed \<lparr>arg_filename = f, arg_reknr = Some rk, arg_date = Some d\<rparr>
       \<and> parse_args [''--reknr='' @ rk, ''--date'', d, f] = Parsed \<lparr>arg_filename = f, arg_reknr = Some rk, arg_date = Some d\<rparr>
       \<and> parse_args [f] = Parsed \<lparr>arg_filename = f, arg_reknr = None, arg_date = None\<rparr>"
proof -
  have "f \<noteq> ''--''" "rk \<noteq> ''--''" "d \<noteq> ''--''" using f r d by (auto simp add: plain_arg_def)
  moreover have "is_positional f" "is_positional rk" "is_positional d"
    using f r d by (simp_all add: plain_positional)
  moreover have "\<not> ambiguous_arg f" "\<not> ambiguous_arg rk" "\<not> ambiguous_arg d"
    using f r d by (simp_all add: plain_not_ambiguous)
  ultimately show ?thesis by (simp add: parse_simps)
qed

lemma plain_facts:
  "plain_arg s \<Longrightarrow> s \<noteq> ''--'' \<and> is_positional s \<and> \<not> ambiguous_arg s"
  by (auto simp add: plain_arg_def plain_positional plain_not_ambiguous)

text \<open>
  C23. Without -d the program raises TypeError (len(None)) before it reads or writes
  any file, with or without -r.
\<close>

theorem main_without_date:
  assumes "plain_arg f" and "plain_arg rk"
  shows "main csv_reader os fs [f] = (fs, Uncaught TypeError)
       \<and> main csv_reader os fs [f, ''-r'', rk] = (fs, Uncaught TypeError)"
  using plain_facts [OF assms(1)] plain_facts [OF assms(2)]
  by (simp add: main_def parse_simps run_conversion_io_def)

lemma run_conversion_io_None_reknr:
  "run_conversion_io csv_reader os fs filename_in None firstdate
     = run_conversion_io csv_reader os fs filename_in (Some ''None'') firstdate"
  unfolding run_conversion_io_def py_str_def option.case ..

text \<open>
  C24. Without -r the program behaves as if the account number were the text None:
  the header carries :25:None.
\<close>

theorem main_without_reknr:
  assumes "plain_arg f" and "plain_arg d"
  shows "main csv_reader os fs [f, ''-d'', d] = main csv_reader os fs [f, ''-r'', ''None'', ''-d'', d]"
  using plain_facts [OF assms(1)] plain_facts [OF assms(2)]
  by (simp add: main_def parse_simps run_conversion_io_None_reknr)

text \<open>
  C25. The conversion on the store of files refines run_conversion: when the input
  name contains .csv, the run writes the repaired table under its own name exactly
  when run_conversion produces one, then writes the MT940 document (in the
  platform's text mode) under the output name exactly when the conversion succeeds,
  and returns its exception or the output name; no other file changes.
\<close>

theorem run_conversion_io_refines:
  assumes name: "find_sub ''.csv'' filename_in \<noteq> None" and inp: "fs filename_in = Some raw"
  shows "run_conversion_io csv_reader os fs filename_in (Some reknr) (Some firstdate) =
           (case run_conversion csv_reader raw reknr firstdate of
              (repaired, res) \<Rightarrow>
                (let fs1 = (case repaired of None \<Rightarrow> fs | Some t \<Rightarrow> fs(repaired_name filename_in \<mapsto> t))
                 in case res of
                      Inl e \<Rightarrow> (fs1, Inl e)
                    | Inr doc \<Rightarrow> (fs1(output_name filename_in \<mapsto> write_text os doc), Inr (output_name filename_in))))"
proof -
  from name obtain i where i: "find_sub ''.csv'' filename_in = Some i" by blast
  note nr = names_change(1) [OF i]
  show ?thesis
  proof (cases "length firstdate = 6")
    case False
    then show ?thesis by (simp add: run_conversion_io_def run_conversion_def)
  next
    case True
    show ?thesis
    proof (cases "count_quotes (table_header raw) '','' ")
      case (Inl e)
      with True inp show ?thesis by (simp add: run_conversion_io_def run_conversion_def repair_table_def)
    next
      case (Inr p)
      obtain ql qr where p: "p = (ql, qr)" by (cases p)
      show ?thesis
        using True inp Inr p nr
        by (auto simp add: run_conversion_io_def run_conversion_def repair_table_def py_str_def Let_def
            split: sum.split)
    qed
  qed
qed

text \<open>
  The document already ends its lines with \<^verbatim>\<open>\r\n\<close> (lines 75, 111--115 and 122), so
  on Windows the text-mode write of line 124 turns each of them into
  \<^verbatim>\<open>\r\r\n\<close>.
\<close>

lemma newline_encode_append: "newline_encode (a @ b) = newline_encode a @ newline_encode b"
  by (induction a) simp_all

lemma windows_crlf_doubled:
  "write_text Windows (x @ crlf @ y) = newline_encode x @ [CR, CR, LF] @ newline_encode y"
  by (simp add: write_text_def newline_encode_append)

end
