(* ===== verification/FloatBounds.thy ===== *)
theory FloatBounds
  imports PyFloat Complex_Main
begin

text \<open>
  Error bounds of the binary64 model of \<open>PyFloat\<close>. \<open>fin_val m e\<close> is the real
  number \<open>m * 2 powr e\<close> a finite float stands for. The bit length brackets a
  natural number between powers of two (\<open>nbits_bounds\<close>), \<open>flog2\<close> is the floor of
  the binary logarithm of a quotient (\<open>flog2_bounds\<close>), rounding half to even is
  within one half (\<open>round_half_even_bound\<close>), and so \<open>round_to_double\<close> of a
  quotient in the normal range \<open>[2 powr -1022, 2 powr 1023)\<close> is a finite float of
  the same sign whose relative error is at most \<open>2 powr -53\<close>
  (\<open>round_to_double_normal\<close>).
\<close>

definition fin_val :: "int \<Rightarrow> int \<Rightarrow> real" where
  "fin_val m e = real_of_int m * 2 powr real_of_int e"

lemma two_powr_int:
  "(2::real) powr real_of_int t = (if 0 \<le> t then 2 ^ nat t else 1 / 2 ^ nat (- t))"
proof (cases "0 \<le> t")
  case True
  then have "(2::real) powr real_of_int t = 2 powr real (nat t)" by simp
  also have "\<dots> = 2 ^ nat t" by (simp add: powr_realpow)
  finally show ?thesis using True by simp
next
  case False
  then have "(2::real) powr real_of_int t = 2 powr (- real (nat (- t)))" by simp
  also have "\<dots> = 1 / 2 ^ nat (- t)" by (simp add: powr_minus powr_realpow divide_inverse)
  finally show ?thesis using False by simp
qed

lemma nbits_bounds: "0 < n \<Longrightarrow> 2 ^ (nbits n - 1) \<le> n \<and> n < 2 ^ nbits n"
proof (induction n rule: nbits.induct)
  case (1 n)
  show ?case
  proof (cases "n = 1")
    case True
    then show ?thesis by (simp add: nbits_Suc_0)
  next
    case False
    with "1.prems" have pos: "0 < n div 2" by simp
    with "1.IH" "1.prems" have IH: "2 ^ (nbits (n div 2) - 1) \<le> n div 2 \<and> n div 2 < 2 ^ nbits (n div 2)"
      by simp
    have eq: "nbits n = Suc (nbits (n div 2))" using "1.prems" by (subst nbits.simps) simp
    have "0 < nbits (n div 2)" using pos by (subst nbits.simps) simp
    then obtain j where j: "nbits (n div 2) = Suc j" by (cases "nbits (n div 2)") auto
    have d1: "2 * (n div 2) \<le> n" and d2: "n \<le> 2 * (n div 2) + 1" by simp_all
    from IH j have "2 ^ j \<le> n div 2" and "n div 2 < 2 ^ Suc j" by simp_all
    with d1 d2 have "2 * 2 ^ j \<le> n" and "n < 2 * 2 ^ Suc j" by linarith+
    then have lo: "2 ^ (nbits n - 1) \<le> n" and "n < 2 ^ nbits n" by (simp_all add: eq j)
    then show ?thesis by (rule conjI)
  qed
qed

lemma nbits_pos: "0 < n \<Longrightarrow> 0 < nbits n"
  by (subst nbits.simps) simp

lemma nbits_bounds_real:
  assumes "0 < n"
  shows "2 powr real (nbits n - 1) \<le> real n" and "real n < 2 powr real (nbits n)"
proof -
  from nbits_bounds [OF assms] have "2 ^ (nbits n - 1) \<le> n" and "n < 2 ^ nbits n" by simp_all
  then have "real (2 ^ (nbits n - 1)) \<le> real n" and "real n < real (2 ^ nbits n)"
    by (simp_all only: of_nat_le_iff of_nat_less_iff)
  then show "2 powr real (nbits n - 1) \<le> real n" and "real n < 2 powr real (nbits n)"
    by (simp_all add: powr_realpow)
qed

lemma pow2_le_iff: "pow2_le b t a \<longleftrightarrow> real b * 2 powr real_of_int t \<le> real a"
proof (cases "0 \<le> t")
  case True
  have "real b * 2 ^ nat t = real (b * 2 ^ nat t)" by simp
  then have "real b * 2 ^ nat t \<le> real a \<longleftrightarrow> b * 2 ^ nat t \<le> a" by (simp only: of_nat_le_iff)
  then show ?thesis using True by (simp add: pow2_le_def two_powr_int)
next
  case False
  have "real b * (1 / 2 ^ nat (- t)) \<le> real a \<longleftrightarrow> real b \<le> real a * 2 ^ nat (- t)"
    by (simp add: divide_le_eq)
  also have "\<dots> \<longleftrightarrow> b \<le> a * 2 ^ nat (- t)"
  proof -
    have "real a * 2 ^ nat (- t) = real (a * 2 ^ nat (- t))" by simp
    then show ?thesis by (simp only: of_nat_le_iff)
  qed
  finally show ?thesis using False by (simp add: pow2_le_def two_powr_int)
qed

lemma flog2_bounds:
  assumes a: "0 < a" and b: "0 < b"
  shows "2 powr real_of_int (flog2 a b) \<le> real a / real b"
    and "real a / real b < 2 powr (real_of_int (flog2 a b) + 1)"
proof -
  define t where "t = int (nbits a) - int (nbits b)"
  have na: "0 < nbits a" and nb: "0 < nbits b" using a b by (simp_all add: nbits_pos)
  have ab: "0 < real b" using b by simp
  have "2 powr real (nbits a - 1) / 2 powr real (nbits b) < real a / real b"
    using nbits_bounds_real [OF a] nbits_bounds_real [OF b] ab
    by (intro frac_less2) simp_all
  moreover have "real (nbits a - 1) - real (nbits b) = real_of_int t - 1" using na by (simp add: t_def of_nat_diff)
  ultimately have lo: "2 powr (real_of_int t - 1) < real a / real b" by (simp add: powr_diff [symmetric])
  have "real a / real b < 2 powr real (nbits a) / 2 powr real (nbits b - 1)"
    using nbits_bounds_real [OF a] nbits_bounds_real [OF b]
    by (intro frac_less) simp_all
  moreover have "real (nbits a) - real (nbits b - 1) = real_of_int t + 1" using nb by (simp add: t_def of_nat_diff)
  ultimately have hi: "real a / real b < 2 powr (real_of_int t + 1)" by (simp add: powr_diff [symmetric])
  have le_iff: "2 powr real_of_int t \<le> real a / real b \<longleftrightarrow> pow2_le b t a"
    using ab by (simp add: pow2_le_iff le_divide_eq mult.commute)
  show "2 powr real_of_int (flog2 a b) \<le> real a / real b"
    using lo le_iff by (simp add: flog2_def t_def [symmetric] Let_def)
  show "real a / real b < 2 powr (real_of_int (flog2 a b) + 1)"
    using hi le_iff by (cases "pow2_le b t a") (simp_all add: flog2_def t_def [symmetric] not_le)
qed

lemma round_half_even_int: "0 < b \<Longrightarrow> 2 * \<bar>int (round_half_even a b) * int b - int a\<bar> \<le> int b"
proof -
  assume b: "0 < b"
  define q r where "q = a div b" and "r = a mod b"
  have "a = q * b + r" and r: "r < b" using b by (simp_all add: q_def r_def)
  then have a: "int a = int q * int b + int r" by simp
  have up: "int (q + 1) * int b - int a = int b - int r" using a by (simp add: algebra_simps)
  have down: "int q * int b - int a = - int r" using a by simp
  show ?thesis
  proof (cases "b < 2 * r \<or> (2 * r = b \<and> odd q)")
    case True
    then have "round_half_even a b = q + 1" by (simp add: round_half_even_def Let_def q_def r_def)
    with up True r show ?thesis by auto
  next
    case False
    then have "round_half_even a b = q" by (auto simp add: round_half_even_def Let_def q_def r_def)
    with down False show ?thesis by auto
  qed
qed

lemma round_half_even_bound:
  assumes "0 < b"
  shows "\<bar>real (round_half_even a b) - real a / real b\<bar> \<le> 1 / 2"
proof -
  let ?d = "real (round_half_even a b) * real b - real a"
  have "real_of_int (2 * \<bar>int (round_half_even a b) * int b - int a\<bar>) \<le> real_of_int (int b)"
    using round_half_even_int [OF assms, of a] by (simp only: of_int_le_iff)
  then have "\<bar>?d\<bar> \<le> real b / 2" by simp
  then have "\<bar>?d\<bar> / real b \<le> (real b / 2) / real b" by (rule divide_right_mono) simp
  moreover have "real (round_half_even a b) - real a / real b = ?d / real b"
    using assms by (simp add: field_simps)
  ultimately show ?thesis using assms by (simp add: abs_divide)
qed

lemma scale_half: "\<bar>x - y\<bar> \<le> 1 / 2 \<Longrightarrow> 0 < c \<Longrightarrow> \<bar>x * c - y * c\<bar> \<le> c / (2::real)"
proof -
  assume xy: "\<bar>x - y\<bar> \<le> 1 / 2" and c: "0 < c"
  have "\<bar>x * c - y * c\<bar> = \<bar>x - y\<bar> * c" using c by (simp add: left_diff_distrib [symmetric] abs_mult)
  also have "\<dots> \<le> 1 / 2 * c" using c by (intro mult_right_mono [OF xy]) simp
  finally show ?thesis by simp
qed

lemma scaled_mantissa_bound:
  assumes b: "0 < b"
  shows "\<bar>real (scaled_mantissa a b e) * 2 powr real_of_int e - real a / real b\<bar> \<le> 2 powr real_of_int e / 2"
proof (cases "0 \<le> e")
  case True
  let ?k = "(2::nat) ^ nat e"
  have "\<bar>real (round_half_even a (b * ?k)) - real a / real (b * ?k)\<bar> \<le> 1 / 2"
    using b by (intro round_half_even_bound) simp
  then have "\<bar>real (round_half_even a (b * ?k)) * real ?k - real a / real (b * ?k) * real ?k\<bar> \<le> real ?k / 2"
    by (rule scale_half) simp
  moreover have "real a / real (b * ?k) * real ?k = real a / real b" by simp
  ultimately show ?thesis using True by (simp add: scaled_mantissa_def two_powr_int)
next
  case False
  let ?k = "(2::nat) ^ nat (- e)"
  have "\<bar>real (round_half_even (a * ?k) b) - real (a * ?k) / real b\<bar> \<le> 1 / 2"
    using b by (intro round_half_even_bound)
  then have "\<bar>real (round_half_even (a * ?k) b) * (1 / real ?k) - real (a * ?k) / real b * (1 / real ?k)\<bar>
      \<le> (1 / real ?k) / 2"
    by (rule scale_half) simp
  moreover have "real (a * ?k) / real b * (1 / real ?k) = real a / real b" by simp
  ultimately show ?thesis using False by (simp add: scaled_mantissa_def two_powr_int)
qed

lemma round_to_double_normal:
  assumes num: "num \<noteq> 0" and den: "0 < den"
    and lo: "2 powr (-1022) \<le> \<bar>real_of_int num\<bar> / real den"
    and hi: "\<bar>real_of_int num\<bar> / real den < 2 powr 1023"
  shows "\<exists>m e. round_to_double num den = Fin m e \<and> sgn m = sgn num
           \<and> \<bar>fin_val m e - real_of_int num / real den\<bar> \<le> \<bar>real_of_int num\<bar> / real den / 2 powr 53"
proof -
  define a where "a = nat \<bar>num\<bar>"
  have a0: "0 < a" using num by (simp add: a_def)
  have ra: "real a = \<bar>real_of_int num\<bar>" by (simp add: a_def)
  define x where "x = real a / real den"
  have x0: "0 < x" using a0 den by (simp add: x_def)
  define f where "f = flog2 a den"
  have f1: "2 powr real_of_int f \<le> x" and f2: "x < 2 powr (real_of_int f + 1)"
    using flog2_bounds [OF a0 den] by (simp_all add: x_def f_def)
  have x_lo: "2 powr (-1022) \<le> x" and x_hi: "x < 2 powr 1023" using lo hi by (simp_all add: x_def ra)
  from x_lo f2 have "2 powr (-1022) < 2 powr (real_of_int f + 1)" by linarith
  then have "-1022 < real_of_int f + 1" by simp
  then have fge: "-1022 \<le> f" by linarith
  define e where "e = f - 52"
  have e_eq: "binary_exponent a den = e" using fge by (simp add: binary_exponent_def e_def f_def)
  define m0 where "m0 = scaled_mantissa a den e"
  have err: "\<bar>real m0 * 2 powr real_of_int e - x\<bar> \<le> 2 powr real_of_int e / 2"
    using scaled_mantissa_bound [OF den] by (simp add: m0_def x_def)
  have "2 powr real_of_int e = 2 powr real_of_int f / 2 powr 52" by (simp add: e_def powr_diff)
  then have pe: "2 powr real_of_int e \<le> x / 2 powr 52" using f1 by (simp add: divide_right_mono)
  with err have err2: "\<bar>real m0 * 2 powr real_of_int e - x\<bar> \<le> x / 2 powr 53"
    by (simp add: powr_add [symmetric] field_simps)
  have small: "x / 2 powr 53 < x" using x0 by (simp add: field_simps)
  have m0_pos: "0 < m0"
  proof (rule ccontr)
    assume "\<not> 0 < m0"
    then have "m0 = 0" by simp
    with err2 small show False by simp
  qed
  have no_over: "\<not> (0 \<le> e \<and> 2 ^ 1024 \<le> m0 * 2 ^ nat e)"
  proof
    assume "0 \<le> e \<and> 2 ^ 1024 \<le> m0 * 2 ^ nat e"
    then have e0: "0 \<le> e" and big: "2 ^ 1024 \<le> m0 * 2 ^ nat e" by simp_all
    have "real (2 ^ 1024 :: nat) \<le> real (m0 * 2 ^ nat e)" using big by (simp only: of_nat_le_iff)
    then have "(2::real) ^ 1024 \<le> real m0 * 2 powr real_of_int e" using e0 by (simp add: two_powr_int)
    moreover have "real m0 * 2 powr real_of_int e \<le> x + x / 2 powr 53" using err2 by linarith
    moreover have "x + x / 2 powr 53 < 2 * x" using small by linarith
    moreover have "2 * x < (2::real) ^ 1024"
    proof -
      have "2 * x < 2 * 2 powr 1023" using x_hi by simp
      also have "\<dots> = 2 powr 1024" by (simp add: powr_add [symmetric])
      finally show ?thesis by (simp add: powr_realpow)
    qed
    ultimately show False by linarith
  qed
  have rtd: "round_to_double num den = Fin (sgn num * int m0) e"
    using num no_over
    by (auto simp add: round_to_double_def round_with_exponent_def round_with_mantissa_def e_eq [unfolded a_def]
        m0_def [unfolded a_def] a_def)
  have "sgn (sgn num * int m0) = sgn num" using m0_pos by (simp add: sgn_mult)
  moreover have "fin_val (sgn num * int m0) e - real_of_int num / real den
      = real_of_int (sgn num) * (real m0 * 2 powr real_of_int e - x)"
  proof -
    have "real_of_int num = real_of_int (sgn num * \<bar>num\<bar>)" by (simp add: sgn_mult_abs)
    then have "real_of_int num = real_of_int (sgn num) * real a" by (simp only: of_int_mult of_int_abs ra)
    then show ?thesis by (simp add: fin_val_def x_def algebra_simps)
  qed
  then have "\<bar>fin_val (sgn num * int m0) e - real_of_int num / real den\<bar> = \<bar>real m0 * 2 powr real_of_int e - x\<bar>"
  proof -
    have "\<bar>real_of_int (sgn num)\<bar> = 1" using num by (cases "0 < num") auto
    with \<open>fin_val (sgn num * int m0) e - _ = _\<close> show ?thesis by (simp add: abs_mult)
  qed
  ultimately show ?thesis using rtd err2 by (auto simp add: x_def ra)
qed

lemma fin_val_ratio:
  "fin_val m e = real_of_int (m * 2 ^ nat (max e 0)) / real ((2::nat) ^ nat (max (- e) 0))"
  by (cases "0 \<le> e") (simp_all add: fin_val_def two_powr_int)

lemma round_half_even_near:
  assumes b: "0 < b" and near: "\<bar>real a / real b - real k\<bar> < 1 / 2"
  shows "round_half_even a b = k"
proof -
  have "\<bar>real (round_half_even a b) - real k\<bar> < 1"
    using round_half_even_bound [OF b, of a] near by linarith
  then have "real (round_half_even a b) < real (k + 1)" and "real k < real (round_half_even a b + 1)"
    by (simp_all add: abs_less_iff)
  then have "round_half_even a b < k + 1" and "k < round_half_even a b + 1"
    by (simp_all only: of_nat_less_iff)
  then show ?thesis by simp
qed

lemma round_to_double_rel:
  assumes num: "num \<noteq> 0" and den: "0 < den" and x: "x = real_of_int num / real den"
    and lo: "2 powr (-1022) \<le> \<bar>x\<bar>" and hi: "\<bar>x\<bar> < 2 powr 1023"
  shows "\<exists>m e. round_to_double num den = Fin m e \<and> sgn m = sgn num \<and> \<bar>fin_val m e - x\<bar> \<le> \<bar>x\<bar> / 2 powr 53"
proof -
  have ax: "\<bar>x\<bar> = \<bar>real_of_int num\<bar> / real den" unfolding x abs_divide by simp
  obtain m e where r: "round_to_double num den = Fin m e" and s: "sgn m = sgn num"
    and b: "\<bar>fin_val m e - real_of_int num / real den\<bar> \<le> \<bar>real_of_int num\<bar> / real den / 2 powr 53"
    using round_to_double_normal [OF num den lo [unfolded ax] hi [unfolded ax]] by blast
  have "\<bar>fin_val m e - x\<bar> \<le> \<bar>x\<bar> / 2 powr 53" using b by (simp only: x [symmetric] ax [symmetric])
  with r s show ?thesis by blast
qed

lemma fin_val_sgn: "sgn (fin_val m e) = real_of_int (sgn m)"
  by (cases m rule: linorder_cases [of _ 0]) (simp_all add: fin_val_def sgn_mult)

end
