(* ===== verification/Amounts.thy ===== *)
theory Amounts
  imports Transcoder FloatBounds
begin

text \<open>
  What the float arithmetic of lines 104 and 121 does to money. The reference
  meanings: \<open>cents_text\<close>, a balance in cents written as euros, a comma and two
  digits, with a minus sign when negative; \<open>ing_amount\<close>, an amount in the ING
  export's form (digits, a comma, two digits); \<open>amount_cents\<close>, its exact value in
  cents; \<open>exact_signed\<close>, a row's exact signed cents. The theorems: the closing
  balance is printed exactly (C15); \<^verbatim>\<open>int(float(amount) * 100)\<close> gives the exact
  cents or one cent less, never anything else (C16); so the closing balance is below
  or above the exact signed sum by at most one cent per row (C17).
\<close>

section \<open>Reference meanings\<close>

definition cents_text :: "int \<Rightarrow> string" where
  "cents_text c =
     (if c < 0 then ''-'' else []) @ show_nat (nat \<bar>c\<bar> div 100) @ '',''
     @ [digit_char (nat \<bar>c\<bar> mod 100 div 10), digit_char (nat \<bar>c\<bar> mod 10)]"

definition ing_amount :: "string \<Rightarrow> bool" where
  "ing_amount a \<longleftrightarrow>
     (let d1 = takeWhile (\<lambda>c. c \<noteq> CHR '','') a; r = dropWhile (\<lambda>c. c \<noteq> CHR '','') a
      in d1 \<noteq> [] \<and> list_all is_digit d1 \<and> length r = 3 \<and> list_all is_digit (tl r)
         \<and> digits_value (d1 @ tl r) < 2 ^ 50)"

definition amount_cents :: "string \<Rightarrow> int" where
  "amount_cents a =
     int (digits_value (takeWhile (\<lambda>c. c \<noteq> CHR '','') a @ tl (dropWhile (\<lambda>c. c \<noteq> CHR '','') a)))"

definition exact_signed :: "string list \<Rightarrow> int" where
  "exact_signed row = (if row ! 5 = ''Bij'' then amount_cents (row ! 6) else - amount_cents (row ! 6))"

section \<open>The closing balance\<close>

lemma digit_char_ne_dot: "digit_char d \<noteq> CHR ''.''" "CHR ''.'' \<noteq> digit_char d"
  by (simp_all add: digit_char_def)

lemma dot_not_in_show_nat: "CHR ''.'' \<notin> set (show_nat n)"
proof (induction n rule: show_nat.induct)
  case (1 n)
  then show ?case by (subst show_nat.simps) (simp add: digit_char_ne_dot)
qed

lemma replace_format_fixed2:
  "replace_char (CHR ''.'') '','' (format_fixed2 neg n) =
     (if neg then ''-'' else []) @ show_nat (n div 100) @ '',''
     @ [digit_char (n mod 100 div 10), digit_char (n mod 10)]"
  by (simp add: format_fixed2_def dot_not_in_show_nat digit_char_ne_dot)

lemma powr_small: "2 powr (-1022) \<le> (1 / 400 :: real)"
proof -
  have "(2::real) powr (-1022) \<le> 2 powr (-9)" by simp
  also have "\<dots> = 1 / 512" by (simp add: powr_minus)
  finally show ?thesis by simp
qed

lemma py_int_to_float_rel:
  assumes "c \<noteq> 0" and "\<bar>real_of_int c\<bar> < 2 powr 1000"
  shows "\<exists>m e. py_int_to_float c = Inr (Fin m e) \<and> sgn m = sgn c
           \<and> \<bar>fin_val m e - real_of_int c\<bar> \<le> \<bar>real_of_int c\<bar> / 2 powr 53"
proof -
  have "1 \<le> \<bar>real_of_int c\<bar>" using assms(1) by linarith
  then have lo: "2 powr (-1022) \<le> \<bar>real_of_int c\<bar>" using powr_small by linarith
  have hi: "\<bar>real_of_int c\<bar> < 2 powr 1023"
    using assms(2) powr_less_cancel_iff [of 2 1000 1023] by linarith
  obtain m e where r: "round_to_double c 1 = Fin m e" and s: "sgn m = sgn c"
    and b: "\<bar>fin_val m e - real_of_int c\<bar> \<le> \<bar>real_of_int c\<bar> / 2 powr 53"
    using round_to_double_rel [OF assms(1), of 1 "real_of_int c"] lo hi by auto
  from r have "py_int_to_float c = Inr (Fin m e)" by (simp add: py_int_to_float_def)
  with s b show ?thesis by blast
qed

lemma py_div_100_rel:
  assumes m: "m \<noteq> 0" and lo: "1 / 4 \<le> \<bar>fin_val m e\<bar>" and hi: "\<bar>fin_val m e\<bar> < 2 powr 1000"
  shows "\<exists>m' e'. py_div (Fin m e) (Fin 100 0) = Inr (Fin m' e') \<and> sgn m' = sgn m
           \<and> \<bar>fin_val m' e' - fin_val m e / 100\<bar> \<le> \<bar>fin_val m e / 100\<bar> / 2 powr 53"
proof -
  let ?num = "m * 2 ^ nat (max e 0)" and ?den = "100 * (2::nat) ^ nat (max (- e) 0)"
  have d: "py_div (Fin m e) (Fin 100 0) = Inr (round_to_double ?num ?den)"
    by (simp add: div_finite_def)
  have x: "fin_val m e / 100 = real_of_int ?num / real ?den" by (simp add: fin_val_ratio)
  have num: "?num \<noteq> 0" using m by simp
  have "2 powr (-1022) \<le> \<bar>fin_val m e / 100\<bar>" using lo powr_small by simp
  moreover have "\<bar>fin_val m e / 100\<bar> < 2 powr 1023"
    using hi powr_less_cancel_iff [of 2 1000 1023] by simp
  ultimately obtain m' e' where r: "round_to_double ?num ?den = Fin m' e'" and s: "sgn m' = sgn ?num"
    and b: "\<bar>fin_val m' e' - fin_val m e / 100\<bar> \<le> \<bar>fin_val m e / 100\<bar> / 2 powr 53"
    using round_to_double_rel [OF num _ x] by auto
  have "sgn ?num = sgn m" by (simp add: sgn_mult)
  with d r s b show ?thesis by auto
qed

lemma format_2f_rel:
  assumes near: "\<bar>100 * fin_val m e - real_of_int c\<bar> < 1 / 2" and s: "sgn m = sgn c"
  shows "format_2f (Fin m e) = format_fixed2 (c < 0) (nat \<bar>c\<bar>)"
proof -
  let ?a = "nat \<bar>m\<bar> * 100 * 2 ^ nat (max e 0)" and ?b = "(2::nat) ^ nat (max (- e) 0)"
  have "real ?a / real ?b = 100 * \<bar>fin_val m e\<bar>"
    by (simp add: fin_val_ratio abs_mult abs_divide)
  moreover have "\<bar>100 * \<bar>fin_val m e\<bar> - real (nat \<bar>c\<bar>)\<bar> < 1 / 2"
  proof -
    have "\<bar>\<bar>100 * fin_val m e\<bar> - \<bar>real_of_int c\<bar>\<bar> \<le> \<bar>100 * fin_val m e - real_of_int c\<bar>"
      by (rule abs_triangle_ineq3)
    with near show ?thesis by (simp add: abs_mult)
  qed
  ultimately have "round_half_even ?a ?b = nat \<bar>c\<bar>" by (intro round_half_even_near) simp_all
  moreover have "m < 0 \<longleftrightarrow> c < 0" using s by (metis sgn_less)
  ultimately show ?thesis by (simp add: format_2f_def)
qed

text \<open>
  C15. The closing balance is printed exactly: for every balance of less than 2^50
  cents in absolute value, '{0:.2f}'.format(saldo / 100.) with the comma gives the
  euros, a comma and the two cent digits, with a minus sign when negative.
\<close>

theorem saldo_string_exact:
  assumes bound: "\<bar>c\<bar> < 2 ^ 50"
  shows "saldo_string c = Inr (cents_text c)"
proof (cases "c = 0")
  case True
  then show ?thesis by (simp add: saldo_string_0 cents_text_def show_nat.simps digit_char_def)
next
  case False
  have cb: "\<bar>real_of_int c\<bar> < 2 ^ 50"
  proof -
    have "real_of_int \<bar>c\<bar> < real_of_int (2 ^ 50)" using bound by (simp only: of_int_less_iff)
    then show ?thesis by simp
  qed
  have c1: "1 \<le> \<bar>real_of_int c\<bar>" using False by linarith
  have "\<bar>real_of_int c\<bar> < 2 powr 1000" using cb powr_less_cancel_iff [of 2 50 1000] by simp
  then obtain m0 e0 where i: "py_int_to_float c = Inr (Fin m0 e0)" and s0: "sgn m0 = sgn c"
    and b0: "\<bar>fin_val m0 e0 - real_of_int c\<bar> \<le> \<bar>real_of_int c\<bar> / 2 powr 53"
    using py_int_to_float_rel [OF False] by blast
  have m0: "m0 \<noteq> 0" using s0 False by (metis sgn_0_0)
  have b0': "\<bar>fin_val m0 e0 - real_of_int c\<bar> \<le> \<bar>real_of_int c\<bar> / 2 ^ 53" using b0 by simp
  have h2: "\<bar>real_of_int c\<bar> / 2 ^ 53 \<le> \<bar>real_of_int c\<bar> / 2" by (rule divide_left_mono) simp_all
  with b0' c1 have v0_lo: "1 / 4 \<le> \<bar>fin_val m0 e0\<bar>" by linarith
  from h2 b0' c1 have v0_hi: "\<bar>fin_val m0 e0\<bar> \<le> 2 * \<bar>real_of_int c\<bar>" by linarith
  then have "\<bar>fin_val m0 e0\<bar> < 2 powr 1000" using cb powr_less_cancel_iff [of 2 51 1000] by simp
  then obtain m1 e1 where d: "py_div (Fin m0 e0) (Fin 100 0) = Inr (Fin m1 e1)" and s1: "sgn m1 = sgn m0"
    and b1: "\<bar>fin_val m1 e1 - fin_val m0 e0 / 100\<bar> \<le> \<bar>fin_val m0 e0 / 100\<bar> / 2 powr 53"
    using py_div_100_rel [OF m0 v0_lo] by blast
  have eq: "100 * fin_val m1 e1 - fin_val m0 e0 = 100 * (fin_val m1 e1 - fin_val m0 e0 / 100)"
    by (simp add: algebra_simps)
  have "\<bar>100 * fin_val m1 e1 - fin_val m0 e0\<bar> = 100 * \<bar>fin_val m1 e1 - fin_val m0 e0 / 100\<bar>"
    unfolding eq abs_mult by simp
  with b1 have "\<bar>100 * fin_val m1 e1 - fin_val m0 e0\<bar> \<le> \<bar>fin_val m0 e0\<bar> / 2 ^ 53" by simp
  moreover have "\<bar>fin_val m0 e0\<bar> / 2 ^ 53 \<le> 2 * \<bar>real_of_int c\<bar> / 2 ^ 53"
    using v0_hi by (rule divide_right_mono) simp
  moreover have "\<bar>real_of_int c\<bar> / 2 ^ 53 < 1 / 8" using cb by (simp add: divide_less_eq)
  ultimately have near: "\<bar>100 * fin_val m1 e1 - real_of_int c\<bar> < 1 / 2" using b0' by linarith
  have fmt: "format_2f (Fin m1 e1) = format_fixed2 (c < 0) (nat \<bar>c\<bar>)"
    using near s1 s0 by (intro format_2f_rel) simp_all
  show ?thesis
    by (simp only: saldo_string_def i d sum.case fmt replace_format_fixed2 cents_text_def)
qed

section \<open>The cents of an amount\<close>

lemma digit_chars:
  assumes "is_digit c"
  shows "c \<noteq> CHR '','' \<and> c \<noteq> CHR ''.'' \<and> c \<noteq> CHR ''_'' \<and> c \<noteq> CHR ''+'' \<and> c \<noteq> CHR ''-''
         \<and> c \<noteq> CHR ''i'' \<and> c \<noteq> CHR ''n'' \<and> \<not> py_isspace c \<and> lower_ascii c = c"
  using assms by (auto simp add: is_digit_def py_isspace_def lower_ascii_def Let_def)

lemma not_digit_dot: "\<not> is_digit (CHR ''.'')"
  by (simp add: is_digit_def)

lemma remove_underscores_none: "CHR ''_'' \<notin> set s \<Longrightarrow> remove_underscores b s = Some s"
  by (induction s arbitrary: b) auto

lemma ing_amount_float:
  assumes d1: "d1 \<noteq> []" "list_all is_digit d1" and d2: "d2 \<noteq> []" "list_all is_digit d2"
  shows "py_float (replace_char (CHR '','') ''.'' (d1 @ CHR '','' # d2))
           = Inr (decimal_to_double 1 (digits_value (d1 @ d2)) (- int (length d2)))"
proof -
  let ?s = "d1 @ CHR ''.'' # d2"
  have dig1: "\<forall>c\<in>set d1. is_digit c" and dig2: "\<forall>c\<in>set d2. is_digit c"
    using d1 d2 by (simp_all add: list_all_iff)
  have "CHR '','' \<notin> set d1" and "CHR '','' \<notin> set d2" using dig1 dig2 digit_chars by blast+
  then have rep: "replace_char (CHR '','') ''.'' (d1 @ CHR '','' # d2) = ?s" by simp
  obtain x xs where x: "d1 = x # xs" using d1 by (cases d1) auto
  obtain ys y where y: "d2 = ys @ [y]" using d2 by (cases d2 rule: rev_cases) auto
  have "is_digit x" and "is_digit y" using dig1 dig2 x y by simp_all
  then have strip: "py_strip ?s = ?s" using x y digit_chars by (simp add: py_strip_def)
  have "CHR ''_'' \<notin> set ?s" using dig1 dig2 digit_chars by auto
  then have und: "remove_underscores False ?s = Some ?s" by (rule remove_underscores_none)
  have tw: "takeWhile is_digit ?s = d1" and dw: "dropWhile is_digit ?s = CHR ''.'' # d2"
    using dig1 not_digit_dot by (simp_all add: takeWhile_append2 dropWhile_append2)
  have t2: "takeWhile is_digit d2 = d2" and w2: "dropWhile is_digit d2 = []" using dig2 by simp_all
  have dec: "parse_decimal ?s = Some (digits_value (d1 @ d2), - int (length d2))"
    using d1 by (simp add: parse_decimal_def parse_exponent_def tw dw t2 w2)
  have "map lower_ascii ?s \<noteq> ''inf'' \<and> map lower_ascii ?s \<noteq> ''infinity'' \<and> map lower_ascii ?s \<noteq> ''nan''"
    using x \<open>is_digit x\<close> digit_chars by auto
  with x \<open>is_digit x\<close> digit_chars have "parse_float_body ?s = map_option (\<lambda>(mant, k). decimal_to_double 1 mant k) (parse_decimal ?s)"
    by (simp add: parse_float_body_def)
  with rep strip und dec show ?thesis by (simp add: py_float_def)
qed

lemma scale_to_double_ratio:
  "scale_to_double n e = round_to_double (n * 2 ^ nat (max e 0)) (2 ^ nat (max (- e) 0))"
  by (simp add: scale_to_double_def)

lemma py_int_floor: "0 \<le> m \<Longrightarrow> py_int (Fin m e) = Inr \<lfloor>fin_val m e\<rfloor>"
proof (cases "0 \<le> e")
  case True
  then have "fin_val m e = real_of_int (m * 2 ^ nat e)" by (simp add: fin_val_def two_powr_int)
  with True show ?thesis by (simp only: py_int_def pyfloat.case if_True floor_of_int)
next
  case False
  assume m: "0 \<le> m"
  have "fin_val m e = real_of_int m / real_of_int (2 ^ nat (- e))" using False by (simp add: fin_val_def two_powr_int)
  then have "\<lfloor>fin_val m e\<rfloor> = m div 2 ^ nat (- e)" by (simp only: floor_divide_of_int_eq)
  moreover have "sgn m * (\<bar>m\<bar> div 2 ^ nat (- e)) = m div 2 ^ nat (- e)"
    using m by (cases "m = 0") simp_all
  ultimately show ?thesis using False by (simp add: py_int_def)
qed

lemma floor_near: "\<bar>y - real n\<bar> < 1 \<Longrightarrow> \<lfloor>y\<rfloor> = int n \<or> \<lfloor>y\<rfloor> = int n - 1"
  by linarith

lemma cents_of_digits:
  assumes d1: "d1 \<noteq> []" "list_all is_digit d1" and d2: "list_all is_digit d2" "length d2 = 2"
    and bound: "digits_value (d1 @ d2) < 2 ^ 50"
  shows "cents_of (d1 @ CHR '','' # d2)
           \<in> {Inr (int (digits_value (d1 @ d2))), Inr (int (digits_value (d1 @ d2)) - 1)}"
proof -
  define N where "N = digits_value (d1 @ d2)"
  have "d2 \<noteq> []" using d2 by auto
  then have f: "py_float (replace_char (CHR '','') ''.'' (d1 @ CHR '','' # d2)) = Inr (round_to_double (int N) 100)"
    using ing_amount_float [OF d1 _ d2(1)] d2(2) by (simp add: decimal_to_double_def N_def)
  show ?thesis
  proof (cases "N = 0")
    case True
    have "cents_of (d1 @ CHR '','' # d2) = py_int (py_mul (round_to_double 0 100) (Fin 100 0))"
      by (simp only: cents_of_def f sum.case True of_nat_0)
    also have "\<dots> = Inr 0" by (simp add: float_defs)
    finally show ?thesis unfolding N_def [symmetric] using True by simp
  next
    case False
    define x where "x = real N / 100"
    have Nr: "1 \<le> real N" and Nb: "real N < 2 ^ 50"
    proof -
      show "1 \<le> real N" using False by simp
      have "real N < real ((2::nat) ^ 50)" using bound by (simp only: of_nat_less_iff N_def)
      then show "real N < 2 ^ 50" by simp
    qed
    have lo1: "2 powr (-1022) \<le> \<bar>x\<bar>" using Nr powr_small by (simp add: x_def)
    have hi1: "\<bar>x\<bar> < 2 powr 1023" using Nb powr_less_cancel_iff [of 2 50 1023] by (simp add: x_def)
    have xeq: "x = real_of_int (int N) / real (100::nat)" by (simp add: x_def)
    have nz: "int N \<noteq> 0" using False by simp
    obtain m e where r1: "round_to_double (int N) 100 = Fin m e" and s1: "sgn m = sgn (int N)"
      and b1: "\<bar>fin_val m e - x\<bar> \<le> \<bar>x\<bar> / 2 powr 53"
      using round_to_double_rel [OF nz zero_less_numeral xeq lo1 hi1] by blast
    have m: "0 < m" using s1 False by (simp add: sgn_1_pos)
    define v where "v = fin_val m e"
    have x0: "0 < x" using Nr by (simp add: x_def)
    have b1': "\<bar>v - x\<bar> \<le> x / 2 ^ 53" using b1 x0 by (simp add: v_def)
    have "x / 2 ^ 53 \<le> x / 2" using x0 by (intro divide_left_mono) simp_all
    with b1' have v_lo: "x / 2 \<le> v" and v_hi: "v \<le> 2 * x" by linarith+
    let ?num = "m * 100 * 2 ^ nat (max e 0)" and ?den = "(2::nat) ^ nat (max (- e) 0)"
    have mul: "py_mul (Fin m e) (Fin 100 0) = round_to_double ?num ?den" by (simp add: scale_to_double_ratio)
    have yx: "100 * v = real_of_int ?num / real ?den" by (simp add: v_def fin_val_ratio)
    have lo2: "2 powr (-1022) \<le> \<bar>100 * v\<bar>" using v_lo Nr powr_small by (simp add: x_def)
    have v0: "0 < v" using v_lo x0 by linarith
    have "100 * v < 2 ^ 51" using v_hi Nb by (simp add: x_def)
    moreover have "(2::real) ^ 51 < 2 powr 1023" by simp
    ultimately have hi2: "\<bar>100 * v\<bar> < 2 powr 1023" using v0 by simp
    have nz2: "?num \<noteq> 0" using m by simp
    have den2: "0 < ?den" by simp
    obtain m2 e2 where r2: "round_to_double ?num ?den = Fin m2 e2" and s2: "sgn m2 = sgn ?num"
      and b2: "\<bar>fin_val m2 e2 - 100 * v\<bar> \<le> \<bar>100 * v\<bar> / 2 powr 53"
      using round_to_double_rel [OF nz2 den2 yx lo2 hi2] by blast
    have m2: "0 \<le> m2" using s2 m by (simp add: sgn_mult) (metis sgn_1_pos less_imp_le)
    have b2': "\<bar>fin_val m2 e2 - 100 * v\<bar> \<le> 2 * real N / 2 ^ 53"
    proof -
      have "\<bar>100 * v\<bar> / 2 ^ 53 \<le> 2 * real N / 2 ^ 53"
        using v_hi v_lo x0 by (intro divide_right_mono) (simp_all add: x_def)
      with b2 show ?thesis by simp
    qed
    have eq: "100 * v - real N = 100 * (v - x)" by (simp add: x_def algebra_simps)
    have "\<bar>100 * v - real N\<bar> = 100 * \<bar>v - x\<bar>" unfolding eq abs_mult by simp
    with b1' have b3: "\<bar>100 * v - real N\<bar> \<le> real N / 2 ^ 53" by (simp add: x_def)
    have "real N / 2 ^ 53 < 1 / 8" using Nb by (simp add: divide_less_eq)
    with b2' b3 have "\<bar>fin_val m2 e2 - real N\<bar> < 1" by linarith
    then have "\<lfloor>fin_val m2 e2\<rfloor> = int N \<or> \<lfloor>fin_val m2 e2\<rfloor> = int N - 1" by (rule floor_near)
    moreover have "cents_of (d1 @ CHR '','' # d2) = Inr \<lfloor>fin_val m2 e2\<rfloor>"
      by (simp only: cents_of_def f sum.case r1 mul r2 py_int_floor [OF m2])
    ultimately show ?thesis by (auto simp add: N_def)
  qed
qed

lemma ing_amount_split:
  assumes "ing_amount a"
  obtains d1 d2 where "a = d1 @ CHR '','' # d2" and "d1 \<noteq> []" and "list_all is_digit d1"
    and "list_all is_digit d2" and "length d2 = 2" and "digits_value (d1 @ d2) < 2 ^ 50"
    and "amount_cents a = int (digits_value (d1 @ d2))"
proof -
  let ?d1 = "takeWhile (\<lambda>c. c \<noteq> CHR '','') a" and ?r = "dropWhile (\<lambda>c. c \<noteq> CHR '','') a"
  from assms have r3: "length ?r = 3" by (simp add: ing_amount_def Let_def)
  then obtain c d2 where r: "?r = c # d2" by (cases ?r) auto
  have "c = CHR '',''" using r hd_dropWhile [of "\<lambda>c. c \<noteq> CHR '',''" a] by fastforce
  with r have a: "a = ?d1 @ CHR '','' # d2" by (metis takeWhile_dropWhile_id)
  from assms r r3 show ?thesis
    by (intro that [OF a]) (simp_all add: ing_amount_def amount_cents_def Let_def)
qed

lemma sum_list_close:
  "\<forall>x\<in>set xs. \<bar>f x - g x\<bar> \<le> (1::int) \<Longrightarrow>
     \<bar>sum_list (map f xs) - sum_list (map g xs)\<bar> \<le> int (length xs)"
  by (induction xs) (auto simp add: abs_le_iff)

lemma row_entry_drift:
  assumes "row_entry row = Inr e" and "ing_amount (row ! 6)"
  shows "\<bar>fst (snd e) - exact_signed row\<bar> \<le> 1"
proof -
  from assms(1) obtain c where len: "length row = 9" and c: "cents_of (row ! 6) = Inr c"
    and e: "fst (snd e) = (if row ! 5 = ''Bij'' then c else - c)"
    by (auto simp add: row_entry_def unpack_row_def split: if_splits sum.splits)
  obtain d1 d2 where a: "row ! 6 = d1 @ CHR '','' # d2" and "d1 \<noteq> []" "list_all is_digit d1"
    "list_all is_digit d2" "length d2 = 2" "digits_value (d1 @ d2) < 2 ^ 50"
    and ac: "amount_cents (row ! 6) = int (digits_value (d1 @ d2))"
    using assms(2) by (rule ing_amount_split)
  then have "cents_of (row ! 6) \<in> {Inr (amount_cents (row ! 6)), Inr (amount_cents (row ! 6) - 1)}"
    using cents_of_digits [of d1 d2] by simp
  with c have "c = amount_cents (row ! 6) \<or> c = amount_cents (row ! 6) - 1" by auto
  with e show ?thesis by (auto simp add: exact_signed_def)
qed

text \<open>
  C17. When every row's amount is in the ING form, the running balance after the
  loop differs from the exact signed sum of the amounts by at most one cent per row.
\<close>

theorem saldo_drift:
  assumes ok: "transcode_rows st rows = Inr s" and ing: "\<forall>row\<in>set rows. ing_amount (row ! 6)"
  shows "\<bar>saldo s - (saldo st + sum_list (map exact_signed rows))\<bar> \<le> int (length rows)"
proof -
  from ok obtain es where es: "map_result row_entry rows = Inr es"
    and s: "saldo s = saldo st + sum_list (map (\<lambda>e. fst (snd e)) es)"
    by (rule transcode_rows_Inr)
  from es have ok_rows: "\<forall>row\<in>set rows. \<exists>e. row_entry row = Inr e"
    and es_eq: "es = map (\<lambda>row. projr (row_entry row)) rows" by (simp_all add: map_result_Inr_iff)
  have "\<forall>row\<in>set rows. \<bar>fst (snd (projr (row_entry row))) - exact_signed row\<bar> \<le> 1"
    using ok_rows ing row_entry_drift by fastforce
  then have "\<bar>sum_list (map (\<lambda>row. fst (snd (projr (row_entry row)))) rows) - sum_list (map exact_signed rows)\<bar>
      \<le> int (length rows)" by (rule sum_list_close)
  then show ?thesis using s es_eq by (simp add: comp_def)
qed

text \<open>
  C16. For every amount in the ING form (digits, a comma, two digits, less than 2^50
  cents), int(float(amount) * 100) is the exact number of cents or one less, never
  anything else.
\<close>

theorem cents_of_ing_amount:
  "ing_amount a \<Longrightarrow> cents_of a \<in> {Inr (amount_cents a), Inr (amount_cents a - 1)}"
proof (erule ing_amount_split)
  fix d1 d2
  assume "a = d1 @ CHR '','' # d2" "d1 \<noteq> []" "list_all is_digit d1" "list_all is_digit d2"
    "length d2 = 2" "digits_value (d1 @ d2) < 2 ^ 50" "amount_cents a = int (digits_value (d1 @ d2))"
  then show ?thesis using cents_of_digits [of d1 d2] by simp
qed

end

