(* ===== verification/CsvReader.thy ===== *)
theory CsvReader
  imports QuoteRepair "HOL-Library.Code_Target_Nat"
begin

text \<open>
  \<^verbatim>\<open>csv.reader\<close> with the default dialect (\<^verbatim>\<open>excel\<close>: delimiter \<^verbatim>\<open>,\<close>, quote
  character \<^verbatim>\<open>"\<close>, doubled quotes, no escape character, no initial-space skipping,
  not strict), as CPython 3.10's \<^verbatim>\<open>Modules/_csv.c\<close> implements it: the parser
  state machine \<^verbatim>\<open>parse_process_char\<close> on the characters of one line and the end
  of line marker, with the field limit of \<^verbatim>\<open>parse_add_char\<close> and the NUL check of
  \<^verbatim>\<open>Reader_iternext\<close>, which feeds lines from the file until a record is complete.
  The program calls it on line 96 and pulls its records in the loops of lines 97--102.
  The lemmas: a table written with one quote around each field is read back row by
  row (C26), and text read in text mode never raises the newline error (C27).
  \<open>Code_Target_Nat\<close> is imported so that the field limit 131072 is compared as a
  number, not by counting, when the examples are evaluated.
\<close>

section \<open>The parser state\<close>

datatype parser_state = START_RECORD | START_FIELD | IN_FIELD | IN_QUOTED_FIELD
  | QUOTE_IN_QUOTED_FIELD | EAT_CRNL

record reader_obj =
  record_fields :: "string list"
  field :: string
  state :: parser_state

text \<open>A character of a line, or the end-of-line marker \<^verbatim>\<open>EOL\<close> fed after the line.\<close>

datatype pchar = Ch char | EOL

definition field_limit :: nat where
  "field_limit = 131072"

definition parse_reset :: reader_obj where
  "parse_reset = \<lparr>record_fields = [], field = [], state = START_RECORD\<rparr>"

definition parse_save_field :: "reader_obj \<Rightarrow> reader_obj" where
  "parse_save_field r = r\<lparr>record_fields := record_fields r @ [field r], field := []\<rparr>"

definition parse_add_char :: "reader_obj \<Rightarrow> char \<Rightarrow> reader_obj result" where
  "parse_add_char r c =
     (if field_limit \<le> length (field r) then Inl (CsvError FieldLargerThanLimit)
      else Inr (r\<lparr>field := field r @ [c]\<rparr>))"

definition is_crnl :: "pchar \<Rightarrow> bool" where
  "is_crnl c \<longleftrightarrow> c = Ch LF \<or> c = Ch CR"

text \<open>
  The end of a line inside a field: save the field, and wait for the next record
  (\<^verbatim>\<open>EOL\<close>) or eat the rest of the line break.
\<close>

definition end_line :: "reader_obj \<Rightarrow> pchar \<Rightarrow> reader_obj" where
  "end_line r c = (parse_save_field r)\<lparr>state := (if c = EOL then START_RECORD else EAT_CRNL)\<rparr>"

text \<open>Adding a character and moving to a state; \<^verbatim>\<open>EOL\<close> never reaches it.\<close>

definition add_then :: "reader_obj \<Rightarrow> pchar \<Rightarrow> parser_state \<Rightarrow> reader_obj result" where
  "add_then r c st =
     (case c of
        EOL \<Rightarrow> Inr r
      | Ch ch \<Rightarrow> (case parse_add_char r ch of Inl e \<Rightarrow> Inl e | Inr r' \<Rightarrow> Inr (r'\<lparr>state := st\<rparr>)))"

definition start_field :: "reader_obj \<Rightarrow> pchar \<Rightarrow> reader_obj result" where
  "start_field r c =
     (if is_crnl c \<or> c = EOL then Inr (end_line r c)
      else if c = Ch quote_char then Inr (r\<lparr>state := IN_QUOTED_FIELD\<rparr>)
      else if c = Ch CHR '','' then Inr (parse_save_field r)
      else add_then r c IN_FIELD)"

definition parse_process_char :: "reader_obj \<Rightarrow> pchar \<Rightarrow> reader_obj result" where
  "parse_process_char r c =
     (case state r of
        START_RECORD \<Rightarrow>
          (if c = EOL then Inr r
           else if is_crnl c then Inr (r\<lparr>state := EAT_CRNL\<rparr>)
           else start_field (r\<lparr>state := START_FIELD\<rparr>) c)
      | START_FIELD \<Rightarrow> start_field r c
      | IN_FIELD \<Rightarrow>
          (if is_crnl c \<or> c = EOL then Inr (end_line r c)
           else if c = Ch CHR '','' then Inr ((parse_save_field r)\<lparr>state := START_FIELD\<rparr>)
           else add_then r c IN_FIELD)
      | IN_QUOTED_FIELD \<Rightarrow>
          (if c = EOL then Inr r
           else if c = Ch quote_char then Inr (r\<lparr>state := QUOTE_IN_QUOTED_FIELD\<rparr>)
           else add_then r c IN_QUOTED_FIELD)
      | QUOTE_IN_QUOTED_FIELD \<Rightarrow>
          (if c = Ch quote_char then add_then r c IN_QUOTED_FIELD
           else if c = Ch CHR '','' then Inr ((parse_save_field r)\<lparr>state := START_FIELD\<rparr>)
           else if is_crnl c \<or> c = EOL then Inr (end_line r c)
           else add_then r c IN_FIELD)
      | EAT_CRNL \<Rightarrow>
          (if is_crnl c then Inr r
           else if c = EOL then Inr (r\<lparr>state := START_RECORD\<rparr>)
           else Inl (CsvError NewlineInUnquotedField)))"

section \<open>Lines and records (\<^verbatim>\<open>Reader_iternext\<close>)\<close>

text \<open>One line: every character (a NUL is an error), then \<^verbatim>\<open>EOL\<close>.\<close>

fun parse_line :: "reader_obj \<Rightarrow> string \<Rightarrow> reader_obj result" where
  "parse_line r [] = parse_process_char r EOL"
| "parse_line r (c # cs) =
     (if c = CHR 0x00 then Inl (CsvError LineContainsNUL)
      else case parse_process_char r (Ch c) of
             Inl e \<Rightarrow> Inl e
           | Inr r' \<Rightarrow> parse_line r' cs)"

text \<open>
  The records of the file, read one after the other as the two \<^verbatim>\<open>for\<close> loops of the
  program do: the records read, and the exception that stopped the iteration if any.
  A record ends with the first line after which the parser is back in
  \<open>START_RECORD\<close>; at the end of the file an open quoted field or a non-empty field
  is saved as a last record.
\<close>

fun reader_loop :: "reader_obj \<Rightarrow> string list \<Rightarrow> string list list \<times> py_error option" where
  "reader_loop r [] =
     (if field r \<noteq> [] \<or> state r = IN_QUOTED_FIELD then ([record_fields (parse_save_field r)], None) else ([], None))"
| "reader_loop r (l # ls) =
     (case parse_line r l of
        Inl e \<Rightarrow> ([], Some e)
      | Inr r' \<Rightarrow>
          if state r' = START_RECORD
          then (case reader_loop parse_reset ls of (rs, e) \<Rightarrow> (record_fields r' # rs, e))
          else reader_loop r' ls)"

definition reader :: "string \<Rightarrow> string list list \<times> py_error option" where
  "reader s = reader_loop parse_reset (py_readlines s)"

section \<open>Fields that can be read back\<close>

text \<open>A field that may be quoted: no quote, no newline, no NUL, within the field limit.\<close>

definition csv_plain :: "string \<Rightarrow> bool" where
  "csv_plain f \<longleftrightarrow> quote_char \<notin> set f \<and> LF \<notin> set f \<and> CHR 0x00 \<notin> set f \<and> length f \<le> field_limit"

section \<open>What the reader reads\<close>

lemmas parse_defs = parse_process_char_def start_field_def end_line_def add_then_def
  parse_add_char_def parse_save_field_def is_crnl_def

lemma nul_distinct [simp]:
  "LF \<noteq> CHR 0x00" "CR \<noteq> CHR 0x00" "quote_char \<noteq> CHR 0x00" "CHR '','' \<noteq> CHR 0x00"
  by (simp_all add: LF_def CR_def quote_char_def)

lemma parse_line_Cons [simp]:
  "c \<noteq> CHR 0x00 \<Longrightarrow> parse_process_char r (Ch c) = Inr r' \<Longrightarrow> parse_line r (c # cs) = parse_line r' cs"
  by simp

lemma quoted_chars:
  assumes "state r = IN_QUOTED_FIELD" and "quote_char \<notin> set f" and "CHR 0x00 \<notin> set f"
    and "length (field r) + length f \<le> field_limit"
  shows "parse_line r (f @ cs) = parse_line (r\<lparr>field := field r @ f\<rparr>) cs"
  using assms
proof (induction f arbitrary: r)
  case (Cons c f)
  let ?r' = "r\<lparr>field := field r @ [c]\<rparr>"
  from Cons.prems have "c \<noteq> quote_char" and nn: "c \<noteq> CHR 0x00" by auto
  with Cons.prems have "parse_process_char r (Ch c) = Inr ?r'"
    by (simp add: parse_defs)
  moreover have "parse_line ?r' (f @ cs) = parse_line (?r'\<lparr>field := field ?r' @ f\<rparr>) cs"
    using Cons.prems by (intro Cons.IH) auto
  ultimately show ?case using nn by simp
qed simp

lemma wrapped_field:
  assumes "state r = START_RECORD \<or> state r = START_FIELD" and "field r = []" and "csv_plain f"
  shows "parse_line r (wrap f @ cs) = parse_line (r\<lparr>field := f, state := QUOTE_IN_QUOTED_FIELD\<rparr>) cs"
proof -
  let ?q = "r\<lparr>state := IN_QUOTED_FIELD\<rparr>"
  have open_q: "parse_process_char r (Ch quote_char) = Inr ?q"
    using assms(1) by (auto simp add: parse_defs quote_char_def LF_def CR_def)
  have "parse_line ?q (f @ quote_char # cs) = parse_line (?q\<lparr>field := f\<rparr>) (quote_char # cs)"
    using quoted_chars [of ?q f "quote_char # cs"] assms(2,3) by (simp add: csv_plain_def)
  moreover have "parse_process_char (?q\<lparr>field := f\<rparr>) (Ch quote_char)
      = Inr (r\<lparr>field := f, state := QUOTE_IN_QUOTED_FIELD\<rparr>)"
    by (simp add: parse_defs)
  ultimately show ?thesis
    using open_q by (simp add: wrap_def quote_char_def)
qed

lemma wrapped_record:
  assumes "fs \<noteq> []" and "\<forall>f\<in>set fs. csv_plain f"
    and "state r = START_RECORD \<or> state r = START_FIELD" and "field r = []"
  shows "parse_line r (py_join '','' (map wrap fs) @ [LF])
           = Inr (r\<lparr>record_fields := record_fields r @ fs, field := [], state := START_RECORD\<rparr>)"
  using assms
proof (induction fs arbitrary: r rule: list_nonempty_induct)
  case (single f)
  let ?r = "r\<lparr>field := f, state := QUOTE_IN_QUOTED_FIELD\<rparr>"
  have "parse_line r (wrap f @ [LF]) = parse_line ?r [LF]"
    using single by (intro wrapped_field) auto
  then show ?case by (simp add: parse_defs)
next
  case (cons f fs)
  let ?r = "r\<lparr>field := f, state := QUOTE_IN_QUOTED_FIELD\<rparr>"
  let ?s = "r\<lparr>record_fields := record_fields r @ [f], field := [], state := START_FIELD\<rparr>"
  have j: "py_join '','' (map wrap (f # fs)) @ [LF] = wrap f @ CHR '','' # py_join '','' (map wrap fs) @ [LF]"
    using cons.hyps by (simp add: py_join_Cons)
  have "parse_line r (wrap f @ CHR '','' # py_join '','' (map wrap fs) @ [LF])
      = parse_line ?r (CHR '','' # py_join '','' (map wrap fs) @ [LF])"
    using cons.prems by (intro wrapped_field) auto
  also have "\<dots> = parse_line ?s (py_join '','' (map wrap fs) @ [LF])"
    by (simp add: parse_defs)
  also have "\<dots> = Inr (?s\<lparr>record_fields := record_fields ?s @ fs, field := [], state := START_RECORD\<rparr>)"
    using cons.prems by (intro cons.IH) auto
  also have "?s\<lparr>record_fields := record_fields ?s @ fs, field := [], state := START_RECORD\<rparr>
      = r\<lparr>record_fields := record_fields r @ f # fs, field := [], state := START_RECORD\<rparr>"
    by simp
  finally show ?case unfolding j .
qed

lemma LF_not_in_wrapped:
  assumes "\<forall>f\<in>set fs. csv_plain f"
  shows "LF \<notin> set (py_join '','' (map wrap fs))"
proof -
  have "LF \<notin> set '','' \<union> \<Union> (set ` set (map wrap fs))"
    using assms by (auto simp add: wrap_def csv_plain_def)
  then show ?thesis using set_py_join [of "'',''" "map wrap fs"] by blast
qed

lemma readlines_records:
  assumes "\<forall>fs\<in>set rows. \<forall>f\<in>set fs. csv_plain f"
  shows "py_readlines (concat (map (\<lambda>fs. py_join '','' (map wrap fs) @ [LF]) rows))
           = map (\<lambda>fs. py_join '','' (map wrap fs) @ [LF]) rows"
  using assms
proof (induction rows)
  case Nil
  then show ?case by (simp add: py_readlines.simps)
next
  case (Cons fs rows)
  then show ?case using LF_not_in_wrapped [of fs] by (simp add: readlines_line)
qed

lemma reader_loop_records:
  assumes "\<forall>fs\<in>set rows. fs \<noteq> [] \<and> (\<forall>f\<in>set fs. csv_plain f)"
  shows "reader_loop parse_reset (map (\<lambda>fs. py_join '','' (map wrap fs) @ [LF]) rows) = (rows, None)"
  using assms
proof (induction rows)
  case Nil
  then show ?case by (simp add: parse_reset_def)
next
  case (Cons fs rows)
  have "parse_line parse_reset (py_join '','' (map wrap fs) @ [LF])
      = Inr (parse_reset\<lparr>record_fields := fs, field := [], state := START_RECORD\<rparr>)"
    using wrapped_record [of fs parse_reset] Cons.prems by (simp add: parse_reset_def)
  with Cons show ?case by simp
qed

text \<open>
  C26. The reader reads back a table written as the repairer writes it: when every
  field is in one quote on each side and has no quote, newline or NUL and fits the
  field limit, the records are exactly the rows of fields, and nothing is raised.
\<close>

theorem reader_roundtrip:
  assumes "\<forall>fs\<in>set rows. fs \<noteq> [] \<and> (\<forall>f\<in>set fs. csv_plain f)"
  shows "reader (concat (map (\<lambda>fs. py_join '','' (map wrap fs) @ [LF]) rows)) = (rows, None)"
proof -
  have "\<forall>fs\<in>set rows. \<forall>f\<in>set fs. csv_plain f" using assms by blast
  then show ?thesis
    using reader_loop_records [OF assms] by (simp add: reader_def readlines_records)
qed

section \<open>Text read in text mode never raises the newline error\<close>

lemma process_no_newline_error:
  "state r \<noteq> EAT_CRNL \<Longrightarrow> parse_process_char r c \<noteq> Inl (CsvError NewlineInUnquotedField)"
  by (cases "state r") (auto simp add: parse_defs split: pchar.split)

lemma process_not_eat:
  assumes "state r \<noteq> EAT_CRNL" and "c \<noteq> EOL" and "\<not> is_crnl c" and "parse_process_char r c = Inr r'"
  shows "state r' \<noteq> EAT_CRNL"
  using assms by (cases "state r") (auto simp add: parse_defs split: pchar.splits if_splits)

lemma process_eol: "\<exists>r'. parse_process_char r EOL = Inr r' \<and> state r' \<noteq> EAT_CRNL"
  by (cases "state r") (simp_all add: parse_defs)

lemma line_no_newline_error:
  assumes "state r \<noteq> EAT_CRNL" and "CR \<notin> set l" and "LF \<notin> set (butlast l)"
  shows "case parse_line r l of
           Inl e \<Rightarrow> e \<noteq> CsvError NewlineInUnquotedField
         | Inr r' \<Rightarrow> state r' \<noteq> EAT_CRNL"
  using assms
proof (induction l arbitrary: r)
  case Nil
  then show ?case using process_eol [of r] by auto
next
  case (Cons c cs)
  show ?case
  proof (cases "c = CHR 0x00")
    case False
    show ?thesis
    proof (cases "parse_process_char r (Ch c)")
      case (Inl e)
      with False process_no_newline_error [OF Cons.prems(1), of "Ch c"] show ?thesis by simp
    next
      case (Inr r1)
      show ?thesis
      proof (cases "cs = []")
        case True
        with False Inr show ?thesis using process_eol [of r1] by auto
      next
        case nonempty: False
        then have "c \<noteq> LF" using Cons.prems(3) by auto
        moreover have "c \<noteq> CR" using Cons.prems(2) by auto
        ultimately have "state r1 \<noteq> EAT_CRNL"
          using process_not_eat [OF Cons.prems(1) _ _ Inr] by (simp add: is_crnl_def)
        moreover have "CR \<notin> set cs" "LF \<notin> set (butlast cs)"
          using Cons.prems(2,3) nonempty by auto
        ultimately show ?thesis using Cons.IH [of r1] False Inr by simp
      qed
    qed
  qed simp
qed

lemma loop_no_newline_error:
  assumes "state r \<noteq> EAT_CRNL" and "\<forall>l\<in>set ls. CR \<notin> set l \<and> LF \<notin> set (butlast l)"
  shows "snd (reader_loop r ls) \<noteq> Some (CsvError NewlineInUnquotedField)"
  using assms
proof (induction ls arbitrary: r)
  case (Cons l ls)
  have line: "case parse_line r l of
           Inl e \<Rightarrow> e \<noteq> CsvError NewlineInUnquotedField | Inr r' \<Rightarrow> state r' \<noteq> EAT_CRNL"
    using Cons.prems by (intro line_no_newline_error) auto
  show ?case
  proof (cases "parse_line r l")
    case (Inr r')
    have "snd (reader_loop parse_reset ls) \<noteq> Some (CsvError NewlineInUnquotedField)"
      using Cons.prems(2) by (intro Cons.IH) (auto simp add: parse_reset_def)
    moreover have "snd (reader_loop r' ls) \<noteq> Some (CsvError NewlineInUnquotedField)"
      using Cons.prems(2) line Inr by (intro Cons.IH) auto
    ultimately show ?thesis using Inr by (cases "reader_loop parse_reset ls") auto
  next
    case (Inl e)
    with line show ?thesis by simp
  qed
qed simp

text \<open>
  C27. The reader never raises "new-line character seen in unquoted field" on a file
  opened in text mode: universal newlines leave no carriage return, and a line
  feed only at the end of a line.
\<close>

theorem reader_no_newline_error:
  "snd (reader (universal_newlines s)) \<noteq> Some (CsvError NewlineInUnquotedField)"
proof -
  have "CR \<notin> set l \<and> LF \<notin> set (butlast l)" if "l \<in> set (py_readlines (universal_newlines s))" for l
    using set_readlines [OF that] CR_not_in_universal_newlines [of s] LF_readlines [OF that] by blast
  then show ?thesis
    unfolding reader_def by (intro loop_no_newline_error) (auto simp add: parse_reset_def)
qed

end
