(* ===== verification/Spec2Isabelle.thy ===== *)
theory Spec2Isabelle
  imports Program Amounts CsvReader
begin

text \<open>
  \<^bold>\<open>A verification development of mt940convert.\<close>

  \<^verbatim>\<open>src/mt940convert.py\<close> converts a CSV export of ING bank statements into an MT940
  file. It has two parts that \<^verbatim>\<open>run_conversion\<close> (lines 62--127) runs in sequence:
  the \<^emph>\<open>quote repairer\<close> (\<^verbatim>\<open>count_quotes\<close>, lines 34--44, and \<^verbatim>\<open>fix_quotes\<close>,
  lines 47--59, driven by lines 78--93), which rewrites a table whose header is not
  quoted one quote per side into a canonically quoted copy, and the
  \<^emph>\<open>statement transcoder\<close> (lines 68--75 and 95--122), which reads the table with
  \<^verbatim>\<open>csv.reader\<close> and builds the MT940 text with a running balance in cents.

  \<^bold>\<open>Theories.\<close>
  \<^item> \<open>Prelude\<close>: the Python runtime the program relies on, as executable HOL:
    the exception type \<open>py_error\<close> and the result type \<open>py_error + 'a\<close> (\<open>Inl\<close> is a
    raised exception), indexing with negative indices (\<open>py_index\<close>), slices with
    CPython's clamping (\<open>py_slice\<close>), \<^verbatim>\<open>str.find\<close> (\<open>py_find\<close>), \<^verbatim>\<open>str.split\<close>
    and \<^verbatim>\<open>str.join\<close> (\<open>py_split\<close>, \<open>split_sep\<close>, \<open>py_join\<close>), \<^verbatim>\<open>str.replace\<close>
    (\<open>replace_char\<close>, \<open>py_replace\<close>), text-mode newline translation on writing with
    \<^verbatim>\<open>newline='\r\n'\<close> (\<open>newline_encode\<close>) and on reading (\<open>universal_newlines\<close>),
    and \<^verbatim>\<open>readlines\<close> (\<open>py_readlines\<close>). Its lemmas specify \<^verbatim>\<open>find\<close> by the least
    occurrence, split/join and newline round trips, and the lines of
    \<^verbatim>\<open>readlines\<close> concatenate to the text. Strings are lists of HOL characters,
    which are the code points up to U+00FF: within them \<open>py_float\<close> accepts what
    CPython accepts.
  \<^item> \<open>PyFloat\<close>: IEEE-754 binary64 as Python uses it on line 104 and 121, exactly:
    a float is \<open>Fin m e\<close> (the value \<open>m * 2 ^ e\<close>), an infinity or NaN; every
    operation rounds the exact rational result to 53 bits, half to even, with
    subnormals down to \<open>2 ^ -1074\<close> and overflow to infinity at \<open>2 ^ 1024\<close>.
    It has \<^verbatim>\<open>float(str)\<close> (\<open>py_float\<close>: whitespace, sign, underscores between
    digits, \<^verbatim>\<open>inf\<close>/\<^verbatim>\<open>nan\<close>, decimal digits and exponent, correctly rounded),
    \<open>*\<close> and \<open>/\<close> (\<open>py_mul\<close>, \<open>py_div\<close>, \<^verbatim>\<open>ZeroDivisionError\<close>), \<^verbatim>\<open>int()\<close>
    (\<open>py_int\<close>, truncation, \<^verbatim>\<open>OverflowError\<close> and \<^verbatim>\<open>ValueError\<close>), \<open>int / float\<close>
    (\<open>py_int_to_float\<close>) and \<^verbatim>\<open>'{0:.2f}'.format\<close> (\<open>format_2f\<close>, exact decimal
    expansion rounded half to even). No bound or fuel is needed: all these
    definitions are total and compute with integers, so every example below is
    evaluated by the simplifier with the \<open>float_defs\<close> rules.
  \<^item> \<open>FloatBounds\<close>: the real value of a float (\<open>fin_val\<close>) and the rounding error
    of the model: in the normal range \<open>round_to_double\<close> is within a relative
    \<open>2 ^ -53\<close> of the exact quotient (\<open>round_to_double_rel\<close>).
  \<^item> \<open>QuoteRepair\<close>: \<^verbatim>\<open>count_quotes\<close> (\<open>left_quote_loop\<close>, \<open>right_quote_loop\<close>,
    \<open>count_cols\<close>, \<open>count_quotes\<close>, the \<^verbatim>\<open>while\<close> loops as functions whose
    termination measure is the unread part of the chunk, and \<^verbatim>\<open>IndexError\<close> when
    they run off it), \<^verbatim>\<open>fix_quotes\<close> (\<open>fix_loop\<close>, the \<^verbatim>\<open>for\<close> loop with the
    rebinding of \<^verbatim>\<open>line\<close> as the argument of the recursive call, and
    \<open>fix_quotes\<close>), and the repair stage of \<^verbatim>\<open>run_conversion\<close> (\<open>table_header\<close>,
    \<open>table_rest\<close>, \<open>needs_repair\<close>, \<open>repaired_text\<close>, \<open>repair_table\<close>).
    Its lemmas show that the loops compute the quote runs of the Field Quote
    Profile (C4), that a line encoded with the profile is recovered field by field
    (C6), and that a canonical header is not repaired (C5). The two \<^verbatim>\<open>while\<close>
    loops are also stated with \<open>while_option\<close> (\<open>quote_while\<close>): they stop after at
    most \<open>len(col)\<close> steps and agree with the recursive functions (C18); the counts
    have one entry per column, each less than the column's length (C19).
  \<^item> \<open>Transcoder\<close>: the header template (\<open>header_mt940\<close>), a row as the record
    \<open>txn_row\<close> (\<open>unpack_row\<close>, \<^verbatim>\<open>ValueError\<close> when it is not nine fields), the cents
    of an amount (\<open>cents_of\<close>), one iteration of the loop (\<open>row_step\<close> on the record
    \<open>conv_state\<close> of the loop's variables \<^verbatim>\<open>result\<close>, \<^verbatim>\<open>saldo\<close> and \<^verbatim>\<open>date\<close>), the
    loop (\<open>transcode_rows\<close>), the closing record (\<open>saldo_string\<close>,
    \<open>closing_record\<close>) and the whole transcoder (\<open>transcode\<close>). Its lemmas show
    that the loop is the concatenation of independent per-row entries
    (\<open>row_entry\<close>) and that the balance is the sum of the signed cents (C1), in any
    order (C2), that the document refines the abstract statement (C3), that the
    comment records carry exactly the first 126 characters in pieces of 63 (C7), and
    the error cases (C8, C13).
  \<^item> \<open>Amounts\<close>: what the float arithmetic does to money, against exact references
    (\<open>cents_text\<close>, \<open>amount_cents\<close>, \<open>exact_signed\<close>): the closing balance is printed
    exactly below \<open>2 ^ 50\<close> cents (C15), an amount in the ING form gives its exact
    cents or one less (C16), and the running balance drifts by at most one cent per
    row (C17). The bound \<open>2 ^ 50\<close> keeps the values in the normal range with room for
    the relative error; it is ten trillion euros.
  \<^item> \<open>CsvReader\<close>: \<^verbatim>\<open>csv.reader\<close> (line 96) for the default dialect, as CPython
    3.10's \<^verbatim>\<open>_csv.c\<close> implements it: the parser state (\<open>reader_obj\<close>,
    \<open>parser_state\<close>), \<open>parse_process_char\<close>, a line (\<open>parse_line\<close>, NUL check) and
    the iteration over the file's lines (\<open>reader_loop\<close>, \<open>reader\<close>), which yields the
    records and the \<^verbatim>\<open>_csv.Error\<close> that stopped it. Its lemmas: a table written
    one quote around each field is read back row by row (C26), and text read in text
    mode never raises the newline error (C27).
  \<^item> \<open>Conversion\<close>: \<open>run_conversion\<close>, the composition: the date check, the repair
    stage, the CSV reader on the chosen file, the transcoder. The reader is a
    parameter, so every lemma holds for any reader; the two loops of lines 97--102
    pull its records lazily (\<open>transcode_stream\<close>), so a row the transcoder rejects
    stops the run before a later record the reader cannot read. The lemmas show that the
    reader sees exactly the repaired lines (the \<^verbatim>\<open>\r\n\<close> written on line 88 is read
    back as \<^verbatim>\<open>\n\<close>), that the repaired table is written whatever happens next,
    idempotence of the repair (C9), and the errors (C10, C12).
  \<^item> \<open>Program\<close>: the program as run from the shell. Files are a store
    (\<open>files\<close>, file names to decoded text); the output is written for a
    \<open>platform\<close> (\<open>write_text\<close>); \<open>run_conversion_io\<close> is lines 62--127
    with their reads and writes in the source's order, including the read of line
    90 from a file that line 88 has just truncated when the two names coincide
    (\<open>buffered_text\<close>: what the first \<^verbatim>\<open>readline\<close> buffered, chunks of 8192
    characters, for an encoding with one byte per character), and the file names of
    lines 63 and 87 (\<open>output_name\<close>, \<open>repaired_name\<close>); \<open>parse_args\<close> is
    \<^verbatim>\<open>argparse\<close> (CPython 3.8--3.11) for the parser of lines 11--31; \<open>main\<close> is
    lines 130--133 and its outcome (\<open>run_outcome\<close>: printed text, an uncaught
    exception, or the exit of \<^verbatim>\<open>argparse\<close>). With \<^verbatim>\<open>.csv\<close> in the name the
    store-level run is \<open>run_conversion\<close> followed by its writes (C25); without it a
    repaired run depends only on the buffered characters (C20); C21--C24 are about
    names and options.
  \<^item> This theory: the composition of the repairer and the reader (C14: the
    repaired table is read back with exactly the fields \<open>fix_quotes\<close> cut from each
    line), the lemmas that show the findings on small inputs, and the witnesses of
    the theorems with hypotheses.

  \<^bold>\<open>Findings.\<close> \<^verbatim>\<open>int(float(amount) * 100)\<close> truncates a binary product, so
  0,29 gives 28 cents (\<open>cents_truncation\<close>), and in general one cent may be lost
  per row (C16, C17); the closing direction is \<^verbatim>\<open>D\<close> for a zero balance
  (\<open>closing_zero_balance\<close>, C3) and a negative balance is printed with a minus sign
  (\<open>closing_negative_balance\<close>), where the
  specification asks for \<^verbatim>\<open>C\<close> for a non-negative balance and the absolute value;
  the header template keeps the source's four-space indentation
  (\<open>header_mt940\<close>); the repaired header loses the last character of an unquoted
  last field (\<open>repair_drops_last_char\<close>); the repaired table is written even when
  the conversion then fails (C11); a table without data rows raises
  \<^verbatim>\<open>UnboundLocalError\<close> (C13); a file name without \<^verbatim>\<open>.csv\<close> makes the program
  write the repaired table over its input while reading it, so that everything
  after the first buffered chunk is lost and the MT940 document overwrites the
  input too (C20, \<open>buffered_text_loses\<close>); without \<^verbatim>\<open>-d\<close> the program fails with
  \<^verbatim>\<open>TypeError\<close> (C23), and without \<^verbatim>\<open>-r\<close> it writes the account \<^verbatim>\<open>None\<close> (C24); a blank line in the table is a record without fields
  and stops the conversion with \<^verbatim>\<open>ValueError\<close> (\<open>blank_line_aborts\<close>); on Windows
  the document's \<^verbatim>\<open>\r\n\<close> line ends are written as \<^verbatim>\<open>\r\r\n\<close>
  (\<open>windows_crlf_doubled\<close>).

  \<^bold>\<open>Not modelled.\<close> \<^verbatim>\<open>csv.reader\<close> is modelled for the default dialect only (the
  program uses no other), and its field limit is the default one, since the
  program never calls \<^verbatim>\<open>csv.field_size_limit\<close>. The decoding of the input
  file's bytes in the locale's encoding is not modelled: a file is its decoded text.
  \<^verbatim>\<open>argparse\<close> is modelled for the three arguments of this parser only, and its
  messages are not: a usage error and the help are outcomes, not text.
  Python 2, which the \<^verbatim>\<open>__future__\<close> imports allow, is not modelled
  (\<^verbatim>\<open>open(..., newline=...)\<close> on line 88 does not exist there). Characters
  beyond U+00FF (HOL's \<open>char\<close> is eight bits) are not modelled, so neither are the
  other Unicode digits and spaces that \<^verbatim>\<open>float()\<close> accepts. The reader is CPython
  3.10's: from 3.11 on a NUL character no longer raises.
\<close>

section \<open>Test data\<close>

text \<open>A canonical table with one credit row, used by the findings and the witnesses.\<close>

definition credit_table :: string where
  \<open>credit_table = ''"Datum","Naam","Rekening","Tegenrekening","Code","Af Bij","Bedrag","Mutatie","Mededelingen"'' @ crlf
      @ ''"20170105","X","NL00","NLxx","AB","Bij","10,50","OV","rent"'' @ crlf\<close>

definition cut_fields :: "string \<Rightarrow> nat list \<Rightarrow> nat list \<Rightarrow> string list" where
  "cut_fields line ql qr = map (\<lambda>w. butlast (tl w)) (fix_loop '','' line (zip ql qr))"

section \<open>Reading the repaired table\<close>

lemma fix_quotes_cut:
  "fix_quotes line ql qr '','' = py_join '','' (map wrap (cut_fields line ql qr))
   \<and> length (cut_fields line ql qr) = min (length ql) (length qr)"
proof -
  obtain fs where "length fs = length (zip ql qr)" and w: "fix_loop '','' line (zip ql qr) = map wrap fs"
    using fix_loop_wrapped by blast
  moreover have "map (\<lambda>w. butlast (tl w)) (map wrap fs) = fs" by (induction fs) (simp_all add: wrap_def)
  ultimately show ?thesis by (simp add: cut_fields_def fix_quotes_def)
qed

lemma count_quotes_lengths:
  "count_quotes header '','' = Inr (ql, qr) \<Longrightarrow> ql \<noteq> [] \<and> length qr = length ql"
  by (auto simp add: count_quotes_def py_split_def count_cols_eq split: if_splits)

text \<open>
  C14. The repaired table is read back field by field: the csv.reader model yields one
  record per line of the input, with exactly the fields fix_quotes cut from that
  line, when those fields are free of quotes, newlines and NUL; nothing is raised.
\<close>

theorem repaired_table_read:
  assumes cq: "count_quotes (table_header raw) '','' = Inr (ql, qr)"
    and plain: "\<forall>l\<in>set (table_header raw # table_rest raw). \<forall>f\<in>set (cut_fields l ql qr). csv_plain f"
  shows "reader (universal_newlines (repaired_text raw ql qr))
           = (map (\<lambda>l. cut_fields l ql qr) (table_header raw # table_rest raw), None)"
proof -
  let ?rows = "map (\<lambda>l. cut_fields l ql qr) (table_header raw # table_rest raw)"
  have eq: "universal_newlines (repaired_text raw ql qr)
      = concat (map (\<lambda>fs. py_join '','' (map wrap fs) @ [LF]) ?rows)"
    by (simp add: universal_newlines_repaired fix_quotes_cut comp_def)
  have "\<forall>fs\<in>set ?rows. fs \<noteq> [] \<and> (\<forall>f\<in>set fs. csv_plain f)"
  proof -
    have ne: "cut_fields l ql qr \<noteq> []" for l
    proof -
      have "length (cut_fields l ql qr) = length ql"
        using fix_quotes_cut [of l ql qr] count_quotes_lengths [OF cq] by simp
      with count_quotes_lengths [OF cq] show ?thesis by auto
    qed
    with plain show ?thesis by auto
  qed
  then show ?thesis
    unfolding eq reader_def
    using readlines_records reader_loop_records by (metis (no_types, lifting))
qed

section \<open>Findings\<close>

text \<open>
  The amount 0,29 is converted to 28 cents, not 29: int(float('0.29') * 100)
  truncates the binary product 28.999999999999996.
\<close>

lemma cents_truncation: "cents_of ''0,29'' = Inr 28"
  by (simp add: cents_of_def float_defs)

text \<open>
  A zero closing balance is written with direction D, since the code tests
  saldo > 0.
\<close>

lemma closing_zero_balance:
  "closing_record \<lparr>result = r, saldo = 0, last_date = Some d\<rparr>
     = Inr (r @ '':62F:D'' @ py_slice_from d 2 @ ''EUR0,00'' @ crlf @ ''-'')"
  by (simp add: closing_record_def saldo_string_0)

text \<open>
  A negative closing balance is written with direction D and a minus sign in
  the amount: -300 cents give EUR-3,00.
\<close>

lemma closing_negative_balance:
  "closing_record \<lparr>result = r, saldo = -300, last_date = Some ''20170105''\<rparr>
     = Inr (r @ '':62F:D170105EUR-3,00'' @ crlf @ ''-'')"
  by (simp add: closing_record_def saldo_string_def float_defs)

text \<open>
  The repaired header loses the last character of an unquoted last field: the
  header is read without its newline, find returns -1 and the slice [start:-1] drops
  one more character, while the data lines keep it.
\<close>

lemma repair_drops_last_char:
  \<open>repair_table (''""a"",b'' @ [LF] @ ''""c"",d'' @ [LF])
     = Inr (''"a",""'' @ crlf @ ''"c","d"'' @ crlf, Some (''"a",""'' @ crlf @ ''"c","d"'' @ crlf))\<close>
  by code_simp

text \<open>
  A blank line in the table, as at the end of an export with an extra line break, is
  a record without fields: the unpacking of line 103 raises ValueError and the
  conversion stops.
\<close>

lemma blank_line_aborts:
  "run_conversion reader (credit_table @ crlf) ''NL01INGB'' ''170101'' = (None, Inl ValueError)"
proof -
  have r: "repair_table (credit_table @ crlf) = Inr (credit_table @ crlf, None)" by code_simp
  have c: "reader (universal_newlines (credit_table @ crlf))
     = ([[''Datum'',''Naam'',''Rekening'',''Tegenrekening'',''Code'',''Af Bij'',''Bedrag'',''Mutatie'',''Mededelingen''],
         [''20170105'',''X'',''NL00'',''NLxx'',''AB'',''Bij'',''10,50'',''OV'',''rent''], []], None)"
    by code_simp
  have k: "cents_of ''10,50'' = Inr 1050" by (simp add: cents_of_def float_defs)
  show ?thesis
    by (simp add: run_conversion_def transcode_stream_def transcode_def r c row_step_def unpack_row_def k
        transaction_record_def comment_records_def)
qed

section \<open>Witnesses\<close>

text \<open>
  Each theorem with hypotheses applied where its hypotheses hold, on the inputs of
  the examples: an ING line with doubled quotes, canonical tables, rows with amounts
  that convert exactly.
\<close>

theorem fix_quotes_encoded_witness:
  \<open>fix_quotes (''""a,b"",""c""'' @ [LF]) [2, 2] [2, 2] '','' = ''"a,b","c"''\<close>
proof -
  have "fix_quotes (encode_line (CHR '','') (zip [2, 2] [2, 2]) [''a,b'', ''c'']) [2, 2] [2, 2] [CHR '','']
          = py_join [CHR '',''] (map wrap [''a,b'', ''c''])"
    by (rule fix_quotes_encoded) code_simp+
  then show ?thesis by code_simp
qed

theorem repair_table_canonical_header_witness:
  \<open>repair_table (''"a","b"'' @ [LF] @ ''"1","2"'' @ [LF]) = Inr (''"a","b"'' @ [LF] @ ''"1","2"'' @ [LF], None)\<close>
  using repair_table_canonical_header [of \<open>''"a","b"'' @ [LF] @ ''"1","2"'' @ [LF]\<close> \<open>[''a'', ''b'']\<close>]
  by (simp add: table_header_def py_readlines.simps wrap_def plain_field_def quote_char_def LF_def CR_def)

theorem saldo_order_independent_witness:
  "\<exists>s'. transcode_rows \<lparr>result = [], saldo = 0, last_date = None\<rparr>
          [[''20170106'', ''B'', '''', ''NL02'', ''BA'', ''Af'', ''2'', '''', ''''],
           [''20170105'', ''A'', '''', ''NL01'', ''GT'', ''Bij'', ''1'', '''', '''']] = Inr s'
        \<and> saldo s' = -100"
proof -
  let ?r1 = "[''20170105'', ''A'', '''', ''NL01'', ''GT'', ''Bij'', ''1'', '''', '''']"
  let ?r2 = "[''20170106'', ''B'', '''', ''NL02'', ''BA'', ''Af'', ''2'', '''', '''']"
  let ?st = "\<lparr>result = [], saldo = 0, last_date = None\<rparr> :: conv_state"
  have c1: "cents_of ''1'' = Inr 100" by (simp add: cents_of_def float_defs)
  have c2: "cents_of ''2'' = Inr 200" by (simp add: cents_of_def float_defs)
  have run: "transcode_rows ?st [?r1, ?r2] =
      Inr \<lparr>result = transaction_record \<lparr>date = ''20170105'', name = ''A'', account = '''', iban = ''NL01'',
                   typ' = ''GT'', DC = ''Bij'', amount = ''1'', mutation = '''', comment = ''''\<rparr> ''C''
                 @ transaction_record \<lparr>date = ''20170106'', name = ''B'', account = '''', iban = ''NL02'',
                   typ' = ''BA'', DC = ''Af'', amount = ''2'', mutation = '''', comment = ''''\<rparr> ''D'',
           saldo = -100, last_date = Some ''20170106''\<rparr>"
    by (simp add: row_step_def unpack_row_def c1 c2 comment_records_def)
  have "mset [?r2, ?r1] = mset [?r1, ?r2]" by simp
  from saldo_order_independent [OF this run] show ?thesis by simp
qed

theorem transcode_document_witness:
  "transcode ''NL01INGB'' ''170101''
     [[''h''], [''20170105'', ''A'', '''', ''NL01'', ''GT'', ''Bij'', ''1'', '''', ''pay'']]
   = Inr (header_mt940 ''NL01INGB'' ''170101'' @ '':61:170105C1NGT'' @ crlf @ '':86:pay'' @ crlf
          @ '':62F:C170105EUR1,00'' @ crlf @ ''-'')"
proof -
  have c1: "cents_of ''1'' = Inr 100" by (simp add: cents_of_def float_defs)
  have s: "saldo_string 100 = Inr ''1,00''" by (simp add: saldo_string_def float_defs)
  have e: "map_result row_entry (drop 1 [[''h''], [''20170105'', ''A'', '''', ''NL01'', ''GT'', ''Bij'', ''1'', '''', ''pay'']])
      = Inr [('':61:170105C1NGT'' @ crlf @ '':86:pay'' @ crlf, 100, ''20170105'')]"
    by (simp add: row_entry_def unpack_row_def c1 transaction_record_def comment_records_def)
  show ?thesis
    using transcode_document [OF e _ ] s by simp
qed

theorem transcode_stops_at_bad_row_witness:
  "transcode ''NL01INGB'' ''170101''
     [[''h''], [''x''], [''20170105'', ''A'', '''', ''NL01'', ''GT'', ''Bij'', ''1'', '''', '''']]
   = Inl ValueError"
  using transcode_stops_at_bad_row [where pre = "[]" and row = "[''x'']" and e = ValueError
      and post = "[[''20170105'', ''A'', '''', ''NL01'', ''GT'', ''Bij'', ''1'', '''', '''']]"
      and hdr = "[''h'']" and reknr = "''NL01INGB''" and firstdate = "''170101''"]
  by (simp add: row_entry_def unpack_row_def)

theorem transcode_without_rows_witness:
  "transcode ''NL01INGB'' ''170101'' [[''h'']] = Inl UnboundLocalError"
  using transcode_without_rows [of "[[''h'']]"] by simp

theorem repair_idempotent_witness:
  \<open>repair_table (repaired_text (''""a"",""b""'' @ [LF]) [2, 2] [2, 2])
     = Inr (repaired_text (''""a"",""b""'' @ [LF]) [2, 2] [2, 2], None)\<close>
proof (rule repair_idempotent)
  show \<open>fix_loop '','' (table_header (''""a"",""b""'' @ [LF])) (zip [2, 2] [2, 2]) = map wrap [''a'', ''b'']\<close>
    by code_simp
qed (simp_all add: plain_field_def quote_char_def)

theorem run_conversion_bad_date_witness:
  "run_conversion reader [] ''NL01INGB'' ''1701'' = (None, Inl ValueError)"
  using run_conversion_bad_date [of "''1701''" reader "[]" "''NL01INGB''"] by simp

theorem run_conversion_repaired_witness:
  \<open>run_conversion reader (''""a"",b'' @ [LF] @ ''""c"",d'' @ [LF]) ''NL01INGB'' ''170101''
     = (Some (''"a",""'' @ crlf @ ''"c","d"'' @ crlf), Inl ValueError)\<close>
  apply (subst run_conversion_repaired [where ql = "[2, 0]" and qr = "[2, 0]"])
  apply code_simp+
  done

theorem run_conversion_bad_header_witness:
  "run_conversion reader [] ''NL01INGB'' ''170101'' = (None, Inl IndexError)"
  by (rule run_conversion_bad_header) (simp_all add: table_header_def py_readlines.simps split_sep.simps)

theorem saldo_string_exact_witness: "saldo_string (-300) = Inr ''-3,00''"
  using saldo_string_exact [of "-300"] by (simp add: cents_text_def show_nat.simps digit_char_def)

theorem cents_of_ing_amount_witness: "cents_of ''0,29'' \<in> {Inr 29, Inr 28}"
  using cents_of_ing_amount [of "''0,29''"]
  by (simp add: ing_amount_def amount_cents_def is_digit_def digits_value_def digit_value_def)

theorem saldo_drift_witness:
  "\<bar>saldo (projr (transcode_rows \<lparr>result = [], saldo = 0, last_date = None\<rparr>
       [[''20170105'', ''A'', '''', ''NL01'', ''GT'', ''Bij'', ''0,29'', '''', '''']])) - 29\<bar> \<le> 1"
proof -
  let ?row = "[''20170105'', ''A'', '''', ''NL01'', ''GT'', ''Bij'', ''0,29'', '''', '''']"
  let ?st = "\<lparr>result = [], saldo = 0, last_date = None\<rparr> :: conv_state"
  have c: "cents_of ''0,29'' = Inr 28" by (simp add: cents_of_def float_defs)
  have ok: "transcode_rows ?st [?row] = Inr (projr (transcode_rows ?st [?row]))"
    by (simp add: row_step_def unpack_row_def c)
  have ing: "\<forall>row\<in>set [?row]. ing_amount (row ! 6)"
    by (simp add: ing_amount_def is_digit_def digits_value_def digit_value_def)
  from saldo_drift [OF ok ing] show ?thesis
    by (simp add: exact_signed_def amount_cents_def digits_value_def digit_value_def)
qed

theorem count_quotes_loops_terminate_witness:
  \<open>\<exists>k \<le> length ''""a"''. quote_while int ''""a"'' = Some k \<and> left_quote_loop ''""a"'' 0 = Inr 2\<close>
proof -
  obtain k where "k \<le> length ''\"\"a\"''" "quote_while int ''\"\"a\"'' = Some k"
      "left_quote_loop ''\"\"a\"'' 0 = quote_loop_result int ''\"\"a\"'' k"
    using count_quotes_loops_terminate [of \<open>''""a"''\<close>] by blast
  moreover then have "k = 2" by (simp add: quote_while_def while_option_unfold quote_char_def)
  ultimately show ?thesis by (auto simp add: quote_loop_result_def quote_char_def)
qed

theorem count_quotes_wf_witness:
  \<open>length [1::nat, 0] = length (split_sep '','' ''"a",b'') \<and> (1::nat) < length (split_sep '','' ''"a",b'' ! 0)\<close>
proof -
  have "count_quotes ''\"a\",b'' '','' = Inr ([1, 0], [1, 0])" by code_simp
  note wf = count_quotes_wf [OF this]
  have "[1::nat, 0] ! 0 < length (split_sep '','' ''\"a\",b'' ! 0)"
    using wf [THEN conjunct2, THEN conjunct2, rule_format, of 0] by simp
  with wf show ?thesis by simp
qed

theorem file_names_distinct_witness:
  "repaired_name ''stmt.csv'' \<noteq> ''stmt.csv'' \<and> output_name ''stmt.csv'' \<noteq> ''stmt.csv''
   \<and> repaired_name ''stmt.csv'' \<noteq> output_name ''stmt.csv''"
  by (rule file_names_distinct) code_simp

theorem parse_args_forms_witness:
  "parse_args [''stmt.csv'', ''-r'', ''NL01INGB'', ''-d'', ''170101'']
     = Parsed \<lparr>arg_filename = ''stmt.csv'', arg_reknr = Some ''NL01INGB'', arg_date = Some ''170101''\<rparr>
   \<and> parse_args [''--reknr=NL01INGB'', ''--date'', ''170101'', ''stmt.csv'']
     = Parsed \<lparr>arg_filename = ''stmt.csv'', arg_reknr = Some ''NL01INGB'', arg_date = Some ''170101''\<rparr>
   \<and> parse_args [''stmt.csv''] = Parsed \<lparr>arg_filename = ''stmt.csv'', arg_reknr = None, arg_date = None\<rparr>"
  using parse_args_forms [of "''stmt.csv''" "''NL01INGB''" "''170101''"] by (simp add: plain_arg_def)

theorem main_without_date_witness:
  "main reader Posix [''stmt.csv'' \<mapsto> credit_table] [''stmt.csv''] = ([''stmt.csv'' \<mapsto> credit_table], Uncaught TypeError)
   \<and> main reader Posix [''stmt.csv'' \<mapsto> credit_table] [''stmt.csv'', ''-r'', ''NL01INGB'']
     = ([''stmt.csv'' \<mapsto> credit_table], Uncaught TypeError)"
  using main_without_date [of "''stmt.csv''" "''NL01INGB''"] by (simp add: plain_arg_def)

theorem main_without_reknr_witness:
  "main reader Posix [''stmt.csv'' \<mapsto> credit_table] [''stmt.csv'', ''-d'', ''170101'']
   = main reader Posix [''stmt.csv'' \<mapsto> credit_table] [''stmt.csv'', ''-r'', ''None'', ''-d'', ''170101'']"
  using main_without_reknr [of "''stmt.csv''" "''170101''"] by (simp add: plain_arg_def)

theorem repaired_table_read_witness:
  \<open>reader (universal_newlines (repaired_text (''"a,""b"""'' @ crlf @ ''"c,""d,e"""'' @ crlf) [1, 2] [0, 3]))
     = ([[''a'', ''b''], [''c'', ''d,e'']], None)\<close>
proof -
  have cq: \<open>count_quotes (table_header (''"a,""b"""'' @ crlf @ ''"c,""d,e"""'' @ crlf)) '','' = Inr ([1, 2], [0, 3])\<close>
    by code_simp
  have plain: \<open>\<forall>l\<in>set (table_header (''"a,""b"""'' @ crlf @ ''"c,""d,e"""'' @ crlf)
        # table_rest (''"a,""b"""'' @ crlf @ ''"c,""d,e"""'' @ crlf)). \<forall>f\<in>set (cut_fields l [1, 2] [0, 3]). csv_plain f\<close>
    by code_simp
  have rows: \<open>map (\<lambda>l. cut_fields l [1, 2] [0, 3]) (table_header (''"a,""b"""'' @ crlf @ ''"c,""d,e"""'' @ crlf)
        # table_rest (''"a,""b"""'' @ crlf @ ''"c,""d,e"""'' @ crlf)) = [[''a'', ''b''], [''c'', ''d,e'']]\<close>
    by code_simp
  from repaired_table_read [OF cq plain] rows show ?thesis by simp
qed

theorem reader_roundtrip_witness:
  "reader (concat (map (\<lambda>fs. py_join '','' (map wrap fs) @ [LF]) [[''a'', ''b,c''], [''d'']]))
   = ([[''a'', ''b,c''], [''d'']], None)"
proof -
  have "\<forall>fs\<in>set [[''a'', ''b,c''], [''d'']]. fs \<noteq> [] \<and> (\<forall>f\<in>set fs. csv_plain f)" by code_simp
  then show ?thesis by (rule reader_roundtrip)
qed

theorem run_conversion_io_refines_witness:
  "run_conversion_io reader Posix [''a.csv'' \<mapsto> []] ''a.csv'' (Some ''NL01INGB'') (Some ''170101'')
   = ([''a.csv'' \<mapsto> []], Inl IndexError)"
proof -
  have rc: "run_conversion reader [] ''NL01INGB'' ''170101'' = (None, Inl IndexError)" by code_simp
  have "find_sub ''.csv'' ''a.csv'' \<noteq> None" by code_simp
  from run_conversion_io_refines [OF this, where fs = "[''a.csv'' \<mapsto> []]" and raw = "[]"
      and csv_reader = reader and os = Posix and reknr = "''NL01INGB''" and firstdate = "''170101''"] rc
  show ?thesis by simp
qed


theorem comment_records_chunks_witness:
  "comment_records ''rent'' = '':86:rent'' @ crlf"
proof -
  obtain ps where cr: "comment_records ''rent'' = concat (map (\<lambda>p. '':86:'' @ p @ crlf) ps)"
    and cat: "concat ps = take 126 ''rent''" and ne: "\<forall>p\<in>set ps. p \<noteq> [] \<and> length p \<le> 63"
    and full: "\<forall>p\<in>set (butlast ps). length p = 63"
    using comment_records_chunks [of "''rent''"] by blast
  have "ps = [''rent'']"
  proof (cases ps)
    case Nil
    with cat show ?thesis by simp
  next
    case (Cons p qs)
    show ?thesis
    proof (cases qs)
      case Nil
      with Cons cat show ?thesis by simp
    next
      case (Cons q rs)
      with \<open>ps = p # qs\<close> full have "length p = 63" by simp
      moreover have "length (concat ps) = 4" using cat by simp
      ultimately show ?thesis using \<open>ps = p # qs\<close> by simp
    qed
  qed
  with cr show ?thesis by simp
qed

end
